(* ===== verification/Prelude.thy ===== *)
theory Prelude
  imports Complex_Main "HOL-Library.Word"
begin

unbundle bit_operations_syntax

text \<open>
  Shared vocabulary of the development: the JavaScript values the program computes with.

  \<^item> strings are lists of UTF-16 code units (\<open>jsstr\<close>), because \<open>slice\<close>, \<open>length\<close> and
    \<open>charCodeAt\<close> of the source count code units;
  \<^item> what \<open>JSON.parse\<close> may return is the datatype \<open>jsval\<close>, with numbers that may be
    infinite (\<open>JSON.parse("1e999")\<close> is \<open>Infinity\<close>), so that the run-time type checks of
    the source are branches of the model;
  \<^item> a thrown exception is the left side of a sum \<open>js_err + 'a\<close>;
  \<^item> a \<open>Map\<close> is an association list in insertion order, since the source iterates over maps.

  Finite doubles are modelled by real numbers: rounding is not modelled, and neither is
  overflow of a finite computation. Integer quantities (times in milliseconds, hit points,
  sequence numbers) are exact in the source and in the model.
\<close>

named_theorems jsmap_simps \<open>laws of the JavaScript Map\<close>
named_theorems js_simps \<open>evaluation of JavaScript values\<close>
named_theorems cfg_simps \<open>unfolding of the configuration constants\<close>

section \<open>Strings\<close>

type_synonym jschar = "16 word"
type_synonym jsstr = "16 word list"

text \<open>An ASCII literal of the source as code units.\<close>

definition jslit :: "string \<Rightarrow> jsstr" where
  "jslit s = map of_char s"

lemma length_jslit [simp]: "length (jslit s) = length s"
  by (simp add: jslit_def)

lemma jslit_Nil [simp]: "jslit [] = []"
  by (simp add: jslit_def)

lemma jslit_eq_Nil [simp]: "jslit s = [] \<longleftrightarrow> s = []"
  by (simp add: jslit_def)

text \<open>\<open>String.prototype.slice(a, b)\<close> for non-negative arguments.\<close>

definition slice :: "nat \<Rightarrow> nat \<Rightarrow> 'a list \<Rightarrow> 'a list" where
  "slice a b s = take (b - a) (drop a s)"

lemma slice_0 [simp]: "slice 0 n s = take n s"
  by (simp add: slice_def)

lemma length_slice_le: "length (slice a b s) \<le> b - a"
  by (simp add: slice_def)

text \<open>\<open>String.prototype.startsWith\<close>.\<close>

definition startsWith :: "'a list \<Rightarrow> 'a list \<Rightarrow> bool" where
  "startsWith s p \<longleftrightarrow> take (length p) s = p"

lemma startsWith_append [simp]: "startsWith (p @ s) p"
  by (simp add: startsWith_def)

section \<open>Values\<close>

datatype jsnum = JFin real | JPosInf | JNegInf | JNaN

datatype jsval =
    JUndef
  | JNull
  | JBool bool
  | JNum jsnum
  | JStr jsstr
  | JArr "jsval list"
  | JObj "(jsstr \<times> jsval) list"

datatype js_err = TypeError | ConstraintError | DataError | URIError

text \<open>Truthiness, as \<open>if (v)\<close> and \<open>v || w\<close> use it.\<close>

fun truthy :: "jsval \<Rightarrow> bool" where
  "truthy JUndef = False"
| "truthy JNull = False"
| "truthy (JBool b) = b"
| "truthy (JNum (JFin r)) = (r \<noteq> 0)"
| "truthy (JNum JNaN) = False"
| "truthy (JNum _) = True"
| "truthy (JStr s) = (s \<noteq> [])"
| "truthy (JArr _) = True"
| "truthy (JObj _) = True"

text \<open>\<open>v ?? w\<close> looks at \<open>null\<close> and \<open>undefined\<close> only.\<close>

fun nullish :: "jsval \<Rightarrow> bool" where
  "nullish JUndef = True"
| "nullish JNull = True"
| "nullish _ = False"

text \<open>
  Reading a data property of a value. \<open>JSON.parse\<close> keeps the last of two equal keys. A
  property of a primitive or of an array is \<open>undefined\<close> for the names the source reads;
  reading from \<open>undefined\<close> or \<open>null\<close> throws, which every use in the source excludes by a
  truthiness test beforehand.
\<close>

fun getp :: "jsval \<Rightarrow> string \<Rightarrow> jsval" where
  "getp (JObj fs) f = (case map_of (rev fs) (jslit f) of Some v \<Rightarrow> v | None \<Rightarrow> JUndef)"
| "getp _ _ = JUndef"

text \<open>\<open>Number.isFinite\<close>: true on finite values of type number only.\<close>

fun isFinite :: "jsval \<Rightarrow> bool" where
  "isFinite (JNum (JFin _)) = True"
| "isFinite _ = False"

text \<open>The real number of a finite value.\<close>

fun numOf :: "jsval \<Rightarrow> real" where
  "numOf (JNum (JFin r)) = r"
| "numOf _ = 0"

text \<open>\<open>typeof v === "number" ? v : d\<close> on the optional \<open>pingMs\<close>.\<close>

fun numberOr :: "jsval \<Rightarrow> jsnum option \<Rightarrow> jsnum option" where
  "numberOr (JNum n) d = Some n"
| "numberOr _ d = d"

lemma isFinite_iff: "isFinite v \<longleftrightarrow> (\<exists>r. v = JNum (JFin r))"
  by (cases v rule: isFinite.cases) auto

lemma nullish_not_truthy: "nullish v \<Longrightarrow> \<not> truthy v"
  by (cases v) auto

section \<open>Sums as exceptions\<close>

definition ebind :: "js_err + 'a \<Rightarrow> ('a \<Rightarrow> js_err + 'b) \<Rightarrow> js_err + 'b" where
  "ebind m f = (case m of Inl e \<Rightarrow> Inl e | Inr v \<Rightarrow> f v)"

lemma ebind_simps [simp]: "ebind (Inl e) f = Inl e" "ebind (Inr v) f = f v"
  by (simp_all add: ebind_def)

section \<open>The Map of JavaScript\<close>

type_synonym ('k, 'v) jsmap = "('k \<times> 'v) list"

fun map_set :: "'k \<Rightarrow> 'v \<Rightarrow> ('k, 'v) jsmap \<Rightarrow> ('k, 'v) jsmap" where
  "map_set k v [] = [(k, v)]"
| "map_set k v ((k', v') # m) = (if k = k' then (k, v) # m else (k', v') # map_set k v m)"

definition map_get :: "('k, 'v) jsmap \<Rightarrow> 'k \<Rightarrow> 'v option" where
  "map_get m k = map_of m k"

definition map_has :: "('k, 'v) jsmap \<Rightarrow> 'k \<Rightarrow> bool" where
  "map_has m k \<longleftrightarrow> k \<in> set (map fst m)"

definition map_delete :: "'k \<Rightarrow> ('k, 'v) jsmap \<Rightarrow> ('k, 'v) jsmap" where
  "map_delete k m = filter (\<lambda>p. fst p \<noteq> k) m"

definition map_keys :: "('k, 'v) jsmap \<Rightarrow> 'k list" where
  "map_keys m = map fst m"

definition map_values :: "('k, 'v) jsmap \<Rightarrow> 'v list" where
  "map_values m = map snd m"

text \<open>A map never holds two entries of one key.\<close>

definition map_ok :: "('k, 'v) jsmap \<Rightarrow> bool" where
  "map_ok m \<longleftrightarrow> distinct (map_keys m)"

lemma map_ok_Nil [simp]: "map_ok []"
  by (simp add: map_ok_def map_keys_def)

lemma map_get_Nil [simp]: "map_get [] k = None"
  by (simp add: map_get_def)

lemma map_get_set [jsmap_simps, simp]:
  "map_get (map_set k v m) k' = (if k' = k then Some v else map_get m k')"
  unfolding map_get_def by (induction m) auto

lemma map_get_delete [jsmap_simps, simp]:
  "map_get (map_delete k m) k' = (if k' = k then None else map_get m k')"
  unfolding map_get_def map_delete_def by (induction m) auto

lemma map_keys_set [jsmap_simps]:
  "map_keys (map_set k v m) = (if map_has m k then map_keys m else map_keys m @ [k])"
  unfolding map_keys_def map_has_def by (induction m) (auto split: if_splits)

lemma map_keys_delete [jsmap_simps]:
  "map_keys (map_delete k m) = filter (\<lambda>k'. k' \<noteq> k) (map_keys m)"
  unfolding map_keys_def map_delete_def by (induction m) auto

lemma map_has_keys: "map_has m k \<longleftrightarrow> k \<in> set (map_keys m)"
  by (simp add: map_has_def map_keys_def)

lemma map_has_get: "map_has m k \<longleftrightarrow> map_get m k \<noteq> None"
  unfolding map_has_def map_get_def by (metis map_of_eq_None_iff set_map)

lemma map_has_set [jsmap_simps, simp]: "map_has (map_set k v m) k' \<longleftrightarrow> k' = k \<or> map_has m k'"
  by (simp add: map_has_get)

lemma map_has_delete [jsmap_simps, simp]: "map_has (map_delete k m) k' \<longleftrightarrow> k' \<noteq> k \<and> map_has m k'"
  by (simp add: map_has_get)

lemma map_ok_set [jsmap_simps, simp, intro]: "map_ok m \<Longrightarrow> map_ok (map_set k v m)"
  unfolding map_ok_def by (auto simp: map_keys_set map_has_keys)

lemma map_ok_delete [jsmap_simps, simp, intro]: "map_ok m \<Longrightarrow> map_ok (map_delete k m)"
  unfolding map_ok_def by (simp add: map_keys_delete)

lemma map_ok_filter: "map_ok m \<Longrightarrow> map_ok (filter P m)"
  unfolding map_ok_def map_keys_def by (simp add: distinct_map_filter)

lemma map_get_in: "map_get m k = Some v \<Longrightarrow> (k, v) \<in> set m"
  unfolding map_get_def by (rule map_of_SomeD)

lemma map_get_iff: "map_ok m \<Longrightarrow> map_get m k = Some v \<longleftrightarrow> (k, v) \<in> set m"
  unfolding map_get_def map_ok_def map_keys_def by (rule map_of_eq_Some_iff)

lemma map_get_filter:
  "map_ok m \<Longrightarrow>
   map_get (filter P m) k =
     (case map_get m k of None \<Rightarrow> None | Some v \<Rightarrow> if P (k, v) then Some v else None)"
  unfolding map_get_def map_ok_def map_keys_def
  by (induction m) (auto split: option.splits dest: map_of_SomeD simp: rev_image_eqI)

lemma map_values_in: "v \<in> set (map_values m) \<longleftrightarrow> (\<exists>k. (k, v) \<in> set m)"
  unfolding map_values_def by force

lemma set_map_set: "set (map_set k v m) \<subseteq> insert (k, v) (set m)"
proof (induction m)
  case (Cons p m)
  then show ?case by (cases p) (auto split: if_splits)
qed simp

lemma map_set_idem [simp]: "map_set k w (map_set k v m) = map_set k w m"
  by (induction m) auto

lemma map_set_same: "map_get m k = Some v \<Longrightarrow> map_set k v m = m"
  unfolding map_get_def by (induction m) (auto split: if_splits)

text \<open>
  A predicate on the entries of a map and its preservation: the shape in which the invariants
  of all tables of the program are stated.
\<close>

definition map_all :: "('k \<Rightarrow> 'v \<Rightarrow> bool) \<Rightarrow> ('k, 'v) jsmap \<Rightarrow> bool" where
  "map_all P m \<longleftrightarrow> (\<forall>(k, v) \<in> set m. P k v)"

lemma map_all_Nil [simp]: "map_all P []"
  by (simp add: map_all_def)

lemma map_all_set [intro]: "map_all P m \<Longrightarrow> P k v \<Longrightarrow> map_all P (map_set k v m)"
  using set_map_set [of k v m] by (fastforce simp: map_all_def)

lemma map_all_delete [intro]: "map_all P m \<Longrightarrow> map_all P (map_delete k m)"
  by (auto simp: map_all_def map_delete_def)

lemma map_all_filter [intro]: "map_all P m \<Longrightarrow> map_all P (filter Q m)"
  by (auto simp: map_all_def)

lemma map_allD: "map_all P m \<Longrightarrow> map_get m k = Some v \<Longrightarrow> P k v"
  by (auto simp: map_all_def dest: map_get_in)

lemma map_all_valuesD: "map_all P m \<Longrightarrow> v \<in> set (map_values m) \<Longrightarrow> \<exists>k. P k v"
  by (auto simp: map_all_def map_values_in)

lemma map_all_mono: "map_all P m \<Longrightarrow> (\<And>k v. P k v \<Longrightarrow> Q k v) \<Longrightarrow> map_all Q m"
  by (auto simp: map_all_def)

lemma map_all_iff_get: "map_ok m \<Longrightarrow> map_all P m \<longleftrightarrow> (\<forall>k v. map_get m k = Some v \<longrightarrow> P k v)"
  by (auto simp: map_all_def map_get_iff)

text \<open>
  The interface the tables of the program are used through: lookup after each operation, and
  the well-formedness every operation keeps. What a client may conclude from it is proved once.
\<close>

locale keyed_table =
  fixes get :: "'m \<Rightarrow> 'k \<Rightarrow> 'v option"
    and put :: "'k \<Rightarrow> 'v \<Rightarrow> 'm \<Rightarrow> 'm"
    and del :: "'k \<Rightarrow> 'm \<Rightarrow> 'm"
    and ok :: "'m \<Rightarrow> bool"
  assumes get_put: "get (put k v m) k' = (if k' = k then Some v else get m k')"
    and get_del: "get (del k m) k' = (if k' = k then None else get m k')"
    and ok_put: "ok m \<Longrightarrow> ok (put k v m)"
    and ok_del: "ok m \<Longrightarrow> ok (del k m)"
begin

lemma put_frame: "k' \<noteq> k \<Longrightarrow> get (put k v m) k' = get m k'"
  by (simp add: get_put)

lemma put_fold_frame:
  "k' \<notin> set ks \<Longrightarrow> get (fold (\<lambda>k. put k (f k)) ks m) k' = get m k'"
  by (induction ks arbitrary: m) (auto simp: get_put)

lemma del_fold: "get (fold del ks m) k' = (if k' \<in> set ks then None else get m k')"
  by (induction ks arbitrary: m) (auto simp: get_del)

lemma ok_del_fold: "ok m \<Longrightarrow> ok (fold del ks m)"
  by (induction ks arbitrary: m) (auto simp: ok_del)

lemma put_then_del: "get (del k (put k v m)) = get (del k m)"
  by (auto simp: get_put get_del fun_eq_iff)

end

interpretation jm: keyed_table map_get map_set map_delete map_ok
  by unfold_locales simp_all

section \<open>Transition systems\<close>

text \<open>
  States reachable from \<open>s0\<close> by steps of a relation, and the principle that carries every
  safety argument of the development: what holds initially and is kept by each step holds in
  every reachable state.
\<close>

inductive reach :: "('s \<Rightarrow> 's \<Rightarrow> bool) \<Rightarrow> 's \<Rightarrow> 's \<Rightarrow> bool" for step s0 where
  reach_refl: "reach step s0 s0"
| reach_step: "reach step s0 s \<Longrightarrow> step s t \<Longrightarrow> reach step s0 t"

locale safety =
  fixes step :: "'s \<Rightarrow> 's \<Rightarrow> bool" and inv :: "'s \<Rightarrow> bool"
  assumes step_inv: "step s t \<Longrightarrow> inv s \<Longrightarrow> inv t"
begin

lemma reach_inv: "reach step s0 s \<Longrightarrow> inv s0 \<Longrightarrow> inv s"
  by (induction rule: reach.induct) (auto intro: step_inv)

end

section \<open>Numeric helpers\<close>

text \<open>\<open>Math.max(lo, Math.min(hi, x))\<close>, and \<open>THREE.MathUtils.clamp\<close>.\<close>

definition clampR :: "real \<Rightarrow> real \<Rightarrow> real \<Rightarrow> real" where
  "clampR lo hi x = max lo (min hi x)"

lemma clampR_bounds: "lo \<le> hi \<Longrightarrow> lo \<le> clampR lo hi x \<and> clampR lo hi x \<le> hi"
  by (simp add: clampR_def)

lemma clampR_id: "lo \<le> x \<Longrightarrow> x \<le> hi \<Longrightarrow> clampR lo hi x = x"
  by (simp add: clampR_def)

lemma clampR_abs: "0 \<le> h \<Longrightarrow> \<bar>clampR (- h) h x\<bar> \<le> h"
  by (auto simp: clampR_def)

end
