(* ===== verification/Protocol.thy ===== *)
theory Protocol
  imports Prelude
begin

text \<open>
  The constants of \<open>config.ts\<close> and the types of \<open>protocol.ts\<close>: vectors, player snapshots,
  world events and server messages. A field of the source whose value comes unchecked from a
  client (\<open>name\<close>, \<open>pingMs\<close>) keeps its dynamic type; times are integers (milliseconds),
  coordinates are reals.
\<close>

section \<open>config.ts\<close>

record game_config =
  gravity :: real
  snowballSpeed :: real
  snowballLifeSec :: real
  snowballSimSteps :: nat
  hitRadius :: real
  hitHeight :: real
  knockbackForce :: real
  knockUp :: real
  damage :: int
  respawnMs :: int

record rate_config =
  windowMs :: int
  maxMsgs :: int

record config =
  WORLD :: string
  CORS :: string
  RATE :: rate_config
  STATE_HZ :: real
  MAX_NAME :: nat
  MAX_CHAT :: nat
  CLEANUP_IDLE_MS :: int
  CLEANUP_SCAN_MS :: int
  MAP_HALF :: real
  ALLOW_DUPLICATE_NAMES :: bool
  GAME :: game_config

definition CONFIG :: config where
  "CONFIG =
    \<lparr>WORLD = ''global'',
     CORS = ''*'',
     RATE = \<lparr>windowMs = 10000, maxMsgs = 1200\<rparr>,
     STATE_HZ = 20,
     MAX_NAME = 20,
     MAX_CHAT = 80,
     CLEANUP_IDLE_MS = 5000,
     CLEANUP_SCAN_MS = 5000,
     MAP_HALF = 190,
     ALLOW_DUPLICATE_NAMES = True,
     GAME =
       \<lparr>gravity = 20,
        snowballSpeed = 25,
        snowballLifeSec = 3,
        snowballSimSteps = 60,
        hitRadius = 9 / 10,
        hitHeight = 22 / 10,
        knockbackForce = 26,
        knockUp = 12 / 10,
        damage = 10,
        respawnMs = 3000\<rparr>\<rparr>"

record ttl_config =
  PLAYER_MS :: int
  GONE_MS :: int
  EVENT_MS :: int

definition TTL :: ttl_config where
  "TTL = \<lparr>PLAYER_MS = 60000, GONE_MS = 5 * 60000, EVENT_MS = 2 * 60000\<rparr>"

definition WS_AES_KEY_HEX :: string where
  "WS_AES_KEY_HEX = ''85237b044148ccbcb10a383765ae7359bb1ef8ca816674e2080d76a5f70338bb''"

declare CONFIG_def [cfg_simps] TTL_def [cfg_simps]

section \<open>protocol.ts\<close>

record vec3 =
  vx :: real
  vy :: real
  vz :: real

definition vec :: "real \<Rightarrow> real \<Rightarrow> real \<Rightarrow> vec3" where
  "vec a b c = \<lparr>vx = a, vy = b, vz = c\<rparr>"

lemma vec_sel [simp]: "vx (vec a b c) = a" "vy (vec a b c) = b" "vz (vec a b c) = c"
  by (simp_all add: vec_def)

lemma vec_eq_iff: "u = v \<longleftrightarrow> vx u = vx v \<and> vy u = vy v \<and> vz u = vz v" for u v :: vec3
  by (cases u; cases v) simp

record snapshot =
  ps_id :: jsstr
  ps_name :: jsval
  ps_pos :: vec3
  ps_rotY :: real
  ps_vel :: vec3
  ps_hp :: int
  ps_crouch :: bool
  ps_deadUntil :: "int option"
  ps_updatedAt :: int
  ps_pingMs :: "jsnum option"

text \<open>\<open>deadUntil ?? 0\<close>.\<close>

definition deadUntil0 :: "snapshot \<Rightarrow> int" where
  "deadUntil0 p = (case ps_deadUntil p of None \<Rightarrow> 0 | Some d \<Rightarrow> d)"

text \<open>The union of world events: the tag with the fields that are its own.\<close>

datatype ev_body =
    EvJoin snapshot
  | EvLeave jsstr jsval
  | EvChat jsstr jsval jsstr
  | EvState jsstr vec3 real vec3 bool
  | EvSnowball jsstr jsstr vec3 vec3 real
  | EvHit jsstr jsstr vec3 int jsstr
  | EvRename jsstr jsstr
  | EvDeath jsstr jsval jsstr jsval jsstr int
  | EvRespawn jsstr vec3 int

text \<open>The fields every event has.\<close>

record world_event =
  ev_seq :: nat
  ev_at :: int
  ev_of :: ev_body

text \<open>The latest state of one player, waiting for the next merged broadcast (\<open>state.ts\<close>).\<close>

record pending_state =
  pn_id :: jsstr
  pn_pos :: vec3
  pn_rotY :: real
  pn_vel :: vec3
  pn_crouch :: bool
  pn_updatedAt :: int
  pn_pingMs :: "jsnum option"

datatype server_msg =
    MsgWelcome jsstr string int nat
  | MsgSnapshot string "snapshot list" nat
  | MsgEvent world_event
  | MsgStates int "pending_state list"
  | MsgPong int
  | MsgError jsstr

end
