(* ===== verification/Geometry.thy ===== *)
theory Geometry
  imports Protocol
begin

text \<open>
  The vector part of \<open>utils.ts\<close>: validation of vectors received from clients, normalisation,
  the ballistic trajectory of a snowball and the cylinder hit test.
\<close>

section \<open>Validation\<close>

definition isFiniteVec3 :: "jsval \<Rightarrow> bool" where
  "isFiniteVec3 v \<longleftrightarrow>
     truthy v \<and> isFinite (getp v ''x'') \<and> isFinite (getp v ''y'') \<and> isFinite (getp v ''z'')"

text \<open>The vector a validated value stands for.\<close>

definition vecOf :: "jsval \<Rightarrow> vec3" where
  "vecOf v = vec (numOf (getp v ''x'')) (numOf (getp v ''y'')) (numOf (getp v ''z''))"

section \<open>Vector arithmetic\<close>

text \<open>\<open>Math.hypot\<close> with three and with two arguments.\<close>

definition hypot3 :: "real \<Rightarrow> real \<Rightarrow> real \<Rightarrow> real" where
  "hypot3 a b c = sqrt (a\<^sup>2 + b\<^sup>2 + c\<^sup>2)"

definition hypot2 :: "real \<Rightarrow> real \<Rightarrow> real" where
  "hypot2 a b = sqrt (a\<^sup>2 + b\<^sup>2)"

text \<open>\<open>x || 1\<close> on a number that is not NaN.\<close>

definition orOne :: "real \<Rightarrow> real" where
  "orOne r = (if r = 0 then 1 else r)"

definition norm_vec :: "vec3 \<Rightarrow> vec3" where
  "norm_vec v =
     (let len = orOne (hypot3 (vx v) (vy v) (vz v))
      in vec (vx v / len) (vy v / len) (vz v / len))"

definition vec3Mul :: "vec3 \<Rightarrow> real \<Rightarrow> vec3" where
  "vec3Mul a s = vec (vx a * s) (vy a * s) (vz a * s)"

definition vec3Len :: "vec3 \<Rightarrow> real" where
  "vec3Len a = hypot3 (vx a) (vy a) (vz a)"

definition vec3Normalize :: "vec3 \<Rightarrow> vec3" where
  "vec3Normalize a =
     (let L = orOne (vec3Len a) in vec (vx a / L) (vy a / L) (vz a / L))"

section \<open>Trajectory and hit test\<close>

definition snowballPosAt :: "vec3 \<Rightarrow> vec3 \<Rightarrow> real \<Rightarrow> vec3" where
  "snowballPosAt origin v0 t =
     vec (vx origin + vx v0 * t)
         (vy origin + vy v0 * t - 1 / 2 * gravity (GAME CONFIG) * t * t)
         (vz origin + vz v0 * t)"

definition intersectsPlayerCylinder :: "vec3 \<Rightarrow> vec3 \<Rightarrow> bool" where
  "intersectsPlayerCylinder p playerPos =
     (let dx = vx p - vx playerPos;
          dz = vz p - vz playerPos;
          horizontal = hypot2 dx dz
      in if horizontal > hitRadius (GAME CONFIG) then False
         else (let yMin = vy playerPos;
                   yMax = vy playerPos + hitHeight (GAME CONFIG)
               in vy p \<ge> yMin \<and> vy p \<le> yMax))"

section \<open>Lemmas\<close>

lemma isFiniteVec3_obj:
  assumes "isFiniteVec3 v"
  obtains fs where "v = JObj fs"
  using assms by (cases v) (auto simp: isFiniteVec3_def)

lemma hypot3_nonneg [simp]: "0 \<le> hypot3 a b c"
  by (simp add: hypot3_def)

lemma hypot3_eq_0: "hypot3 a b c = 0 \<longleftrightarrow> a = 0 \<and> b = 0 \<and> c = 0"
  by (auto simp: hypot3_def add_nonneg_eq_0_iff)

lemma hypot3_sq: "(hypot3 a b c)\<^sup>2 = a\<^sup>2 + b\<^sup>2 + c\<^sup>2"
  by (simp add: hypot3_def)

lemma hypot3_scale: "hypot3 (a * s) (b * s) (c * s) = \<bar>s\<bar> * hypot3 a b c"
proof -
  have "(a * s)\<^sup>2 + (b * s)\<^sup>2 + (c * s)\<^sup>2 = s\<^sup>2 * (a\<^sup>2 + b\<^sup>2 + c\<^sup>2)"
    by (simp add: algebra_simps power_mult_distrib)
  then show ?thesis
    by (simp add: hypot3_def real_sqrt_mult)
qed

lemma hypot2_sq_le: "0 \<le> r \<Longrightarrow> hypot2 a b \<le> r \<longleftrightarrow> a\<^sup>2 + b\<^sup>2 \<le> r\<^sup>2"
  unfolding hypot2_def by (auto intro: real_le_lsqrt dest: sqrt_le_D)

text \<open>The two normalisation functions of the source agree.\<close>

lemma norm_vec_eq_normalize: "norm_vec v = vec3Normalize v"
  by (simp add: norm_vec_def vec3Normalize_def vec3Len_def)

lemma vec3Len_norm: "vec3Len (norm_vec v) = (if v = vec 0 0 0 then 0 else 1)"
proof (cases "hypot3 (vx v) (vy v) (vz v) = 0")
  case True
  then have "vx v = 0" "vy v = 0" "vz v = 0" by (simp_all add: hypot3_eq_0)
  then show ?thesis
    by (simp add: norm_vec_def vec3Len_def hypot3_def vec_eq_iff)
next
  case False
  let ?L = "hypot3 (vx v) (vy v) (vz v)"
  have "0 < ?L" using False hypot3_nonneg [of "vx v" "vy v" "vz v"] by linarith
  then have "vec3Len (norm_vec v) = \<bar>1 / ?L\<bar> * ?L"
    using False hypot3_scale [of "vx v" "1 / ?L" "vy v" "vz v"]
    by (simp add: norm_vec_def vec3Len_def orOne_def Let_def)
  then show ?thesis
    using \<open>0 < ?L\<close> False by (auto simp: hypot3_eq_0)
qed

lemma vec3Len_mul: "vec3Len (vec3Mul a s) = \<bar>s\<bar> * vec3Len a"
  by (simp add: vec3Len_def vec3Mul_def hypot3_scale)

text \<open>The hit test in closed form: a cylinder of radius 0.9 and height 2.2 over the feet.\<close>

lemma intersects_iff:
  "intersectsPlayerCylinder p q \<longleftrightarrow>
     (vx p - vx q)\<^sup>2 + (vz p - vz q)\<^sup>2 \<le> (9 / 10)\<^sup>2 \<and> vy q \<le> vy p \<and> vy p \<le> vy q + 22 / 10"
  using hypot2_sq_le [of "9 / 10" "vx p - vx q" "vz p - vz q"]
  by (auto simp: intersectsPlayerCylinder_def Let_def cfg_simps)

lemma snowballPosAt_0 [simp]: "snowballPosAt o1 v 0 = o1"
  by (simp add: snowballPosAt_def vec_eq_iff)

end
