(* ===== verification/Text_Utils.thy ===== *)
theory Text_Utils
  imports Protocol
begin

text \<open>
  The text part of \<open>utils.ts\<close>: normalisation of names and chat lines received from clients,
  and the loose check of shot identifiers. Client values are dynamically typed: \<open>.trim()\<close> of a
  value that is neither a string nor nullish throws a TypeError.
\<close>

section \<open>String primitives of the language\<close>

text \<open>White space and line terminators: what \<open>trim\<close> strips and \<open>\s\<close> matches.\<close>

definition isWs :: "jschar \<Rightarrow> bool" where
  "isWs c \<longleftrightarrow>
     (9 \<le> c \<and> c \<le> 13) \<or> c = 32 \<or> c = 160 \<or> c = 0x1680 \<or> (0x2000 \<le> c \<and> c \<le> 0x200A) \<or>
     c = 0x2028 \<or> c = 0x2029 \<or> c = 0x202F \<or> c = 0x205F \<or> c = 0x3000 \<or> c = 0xFEFF"

definition trim :: "jsstr \<Rightarrow> jsstr" where
  "trim s = rev (dropWhile isWs (rev (dropWhile isWs s)))"

text \<open>\<open>s.replace(/\s+/g, " ")\<close>.\<close>

function collapseWs :: "jsstr \<Rightarrow> jsstr" where
  "collapseWs [] = []"
| "collapseWs (c # cs) =
     (if isWs c then 32 # collapseWs (dropWhile isWs cs) else c # collapseWs cs)"
  by pat_completeness auto
termination
  by (relation "measure length") (auto simp: le_imp_less_Suc length_dropWhile_le)

text \<open>\<open>(v ?? "").trim()\<close>.\<close>

fun trimVal :: "jsval \<Rightarrow> js_err + jsstr" where
  "trimVal (JStr s) = Inr (trim s)"
| "trimVal JUndef = Inr []"
| "trimVal JNull = Inr []"
| "trimVal _ = Inl TypeError"

section \<open>utils.ts\<close>

definition clampName :: "jsval \<Rightarrow> js_err + jsstr" where
  "clampName name =
     ebind (trimVal name) (\<lambda>t.
       let trimmed = collapseWs t
       in Inr (slice 0 (MAX_NAME CONFIG) (if trimmed \<noteq> [] then trimmed else jslit ''Player'')))"

definition clampChat :: "jsval \<Rightarrow> js_err + jsstr" where
  "clampChat textValue =
     ebind (trimVal textValue) (\<lambda>t. Inr (slice 0 (MAX_CHAT CONFIG) t))"

fun isUuidLike :: "jsval \<Rightarrow> bool" where
  "isUuidLike (JStr s) = (8 \<le> length s \<and> length s \<le> 64)"
| "isUuidLike _ = False"

section \<open>Lemmas\<close>

text \<open>A name as the server accepts it: not blank, at most 20 units, single plain spaces only.\<close>

fun noDoubleSpace :: "jsstr \<Rightarrow> bool" where
  "noDoubleSpace (a # b # s) = (\<not> (a = 32 \<and> b = 32) \<and> noDoubleSpace (b # s))"
| "noDoubleSpace _ = True"

definition cleanName :: "jsstr \<Rightarrow> bool" where
  "cleanName s \<longleftrightarrow>
     0 < length s \<and> length s \<le> 20 \<and> \<not> isWs (hd s) \<and>
     (\<forall>c \<in> set s. isWs c \<longrightarrow> c = 32) \<and> noDoubleSpace s"

lemma isWs_space [simp]: "isWs 32"
  by (simp add: isWs_def)

lemma hd_dropWhile_neg: "dropWhile P xs \<noteq> [] \<Longrightarrow> \<not> P (hd (dropWhile P xs))"
  by (induction xs) auto

lemma hd_rev_dropWhile_rev:
  "rev (dropWhile P (rev xs)) \<noteq> [] \<Longrightarrow> hd (rev (dropWhile P (rev xs))) = hd xs"
  using takeWhile_dropWhile_id [of P "rev xs"]
  by (metis hd_append2 rev_append rev_rev_ident)

lemma hd_trim: "trim s \<noteq> [] \<Longrightarrow> \<not> isWs (hd (trim s))"
  unfolding trim_def
  by (metis dropWhile.simps(1) hd_dropWhile_neg hd_rev_dropWhile_rev rev.simps(1))

lemma set_trim: "set (trim s) \<subseteq> set s"
  unfolding trim_def by (metis set_rev set_dropWhileD subsetI)

lemma collapseWs_ws: "c \<in> set (collapseWs s) \<Longrightarrow> isWs c \<Longrightarrow> c = 32"
  by (induction s rule: collapseWs.induct) (auto split: if_splits)

lemma collapseWs_Nil [simp]: "collapseWs s = [] \<longleftrightarrow> s = []"
  by (cases s) auto

lemma hd_collapseWs: "s \<noteq> [] \<Longrightarrow> \<not> isWs (hd s) \<Longrightarrow> hd (collapseWs s) = hd s"
  by (cases s) auto

lemma hd_collapseWs_nws:
  "collapseWs s \<noteq> [] \<Longrightarrow> \<not> isWs (hd s) \<Longrightarrow> hd (collapseWs s) \<noteq> 32"
  by (metis collapseWs_Nil hd_collapseWs isWs_space)

lemma noDoubleSpace_Cons:
  "noDoubleSpace s \<Longrightarrow> (c = 32 \<and> s \<noteq> [] \<longrightarrow> hd s \<noteq> 32) \<Longrightarrow> noDoubleSpace (c # s)"
  by (cases s) auto

lemma noDoubleSpace_collapseWs: "noDoubleSpace (collapseWs s)"
proof (induction s rule: collapseWs.induct)
  case (2 c cs)
  show ?case
  proof (cases "isWs c")
    case True
    have "collapseWs (dropWhile isWs cs) \<noteq> [] \<Longrightarrow> hd (collapseWs (dropWhile isWs cs)) \<noteq> 32"
      by (metis collapseWs_Nil hd_collapseWs_nws hd_dropWhile_neg)
    with True 2 show ?thesis by (auto intro: noDoubleSpace_Cons)
  next
    case False
    then have "c \<noteq> 32" by auto
    with False 2 show ?thesis by (auto intro: noDoubleSpace_Cons)
  qed
qed simp

lemma noDoubleSpace_take: "noDoubleSpace s \<Longrightarrow> noDoubleSpace (take n s)"
proof (induction s arbitrary: n rule: noDoubleSpace.induct)
  case (1 a b s)
  then have "noDoubleSpace (take (n - 1) (b # s))" by simp
  with "1.prems" show ?case by (cases n; cases "n - 1") auto
qed (auto simp: take_Cons' split: if_splits)

lemma cleanName_take:
  assumes "s \<noteq> []" "\<not> isWs (hd s)" "\<And>c. c \<in> set s \<Longrightarrow> isWs c \<Longrightarrow> c = 32" "noDoubleSpace s"
  shows "cleanName (take 20 s)"
  using assms by (auto simp: cleanName_def noDoubleSpace_take hd_take dest: in_set_takeD)

lemma cleanName_Player: "cleanName (jslit ''Player'')"
  by (simp add: cleanName_def jslit_def isWs_def)

lemma clampName_clean:
  assumes "clampName v = Inr n"
  shows "cleanName n"
proof -
  have "\<exists>t. trimVal v = Inr t \<and> (t \<noteq> [] \<longrightarrow> \<not> isWs (hd t))"
    using assms by (cases v) (auto simp: clampName_def hd_trim)
  then obtain t where t: "trimVal v = Inr t" "t \<noteq> [] \<longrightarrow> \<not> isWs (hd t)" by blast
  show ?thesis
  proof (cases "t = []")
    case True
    with t assms have "n = jslit ''Player''"
      by (simp add: clampName_def cfg_simps)
    then show ?thesis using cleanName_Player by simp
  next
    case False
    with t assms have n: "n = take 20 (collapseWs t)"
      by (simp add: clampName_def cfg_simps)
    show ?thesis
      unfolding n using False t
      by (intro cleanName_take) (auto simp: hd_collapseWs noDoubleSpace_collapseWs dest: collapseWs_ws)
  qed
qed

lemma clampName_nonempty: "clampName v = Inr n \<Longrightarrow> n \<noteq> []"
  using clampName_clean by (auto simp: cleanName_def)

lemma clampName_error:
  "clampName v = Inl e \<longleftrightarrow> e = TypeError \<and> \<not> nullish v \<and> (\<forall>s. v \<noteq> JStr s)"
  by (cases v) (auto simp: clampName_def Let_def)

lemma clampChat_length: "clampChat v = Inr t \<Longrightarrow> length t \<le> 80"
  by (cases "trimVal v") (auto simp: clampChat_def cfg_simps)

lemma clampChat_error:
  "clampChat v = Inl e \<longleftrightarrow> e = TypeError \<and> \<not> nullish v \<and> (\<forall>s. v \<noteq> JStr s)"
  by (cases v) (auto simp: clampChat_def Let_def)

end
