(* ===== verification/Server_State.thy ===== *)
theory Server_State
  imports Protocol
begin

text \<open>
  \<open>state.ts\<close>: the in-memory state of the server and the event stream.

  JavaScript runs each piece of code between two \<open>await\<close>s to completion. The model keeps the
  pieces apart: an operation runs up to its first \<open>await\<close> and leaves what follows as a task
  in \<open>tasks\<close>; \<open>'k\<close> is the type of the continuations (\<open>Game\<close> and \<open>Gateway\<close> fix it).
  \<open>Date.now()\<close>, \<open>Math.random()\<close> and \<open>crypto.randomUUID()\<close> are streams of an environment,
  read at the counters \<open>clk\<close>, \<open>rnd\<close> and \<open>uid\<close> of the state, so that every call of the source
  is one reading. Client objects are shared between the \<open>clients\<close> map and the closures of the
  sockets, so they live in a heap and both sides hold references.
\<close>

section \<open>Environment\<close>

record env =
  e_now :: "nat \<Rightarrow> int"
  e_rand :: "nat \<Rightarrow> real"
  e_uuid :: "nat \<Rightarrow> jsstr"
  e_seed :: nat
  e_bindText :: "jsval \<Rightarrow> jsstr option"

text \<open>What the platform documents of its clock and of its random numbers.\<close>

definition clock_mono :: "env \<Rightarrow> bool" where
  "clock_mono E \<longleftrightarrow> (\<forall>i j. i \<le> j \<longrightarrow> e_now E i \<le> e_now E j)"

definition rand_unit :: "env \<Rightarrow> bool" where
  "rand_unit E \<longleftrightarrow> (\<forall>i. 0 \<le> e_rand E i \<and> e_rand E i < 1)"

text \<open>
  An environment for the witnesses: a clock that advances by one millisecond per reading,
  \<open>Math.random()\<close> constantly one half, identifiers of eight units, and a driver that binds
  strings to text columns.
\<close>

definition ex_env :: env where
  "ex_env = \<lparr>e_now = (\<lambda>n. 1000 + int n), e_rand = (\<lambda>_. 1 / 2),
     e_uuid = (\<lambda>n. word_of_nat n # replicate 7 48), e_seed = 7,
     e_bindText = (\<lambda>v. case v of JStr t \<Rightarrow> Some t | _ \<Rightarrow> None)\<rparr>"

section \<open>State\<close>

record wsclient =
  wc_id :: jsstr
  wc_name :: jsval
  wc_ws :: nat
  wc_connectedAt :: int
  wc_bucketStart :: int
  wc_bucketCount :: int
  wc_lastStateAt :: int

datatype 'k task =
    TBroadcast server_msg 'k
  | TBroadcastDrop server_msg
  | TSend nat server_msg 'k
  | TCont 'k

record 'k server =
  clk :: nat
  rnd :: nat
  uid :: nat
  latestSeq :: nat
  lastSeenSeq :: nat
  events :: "world_event list"
  playersCache :: "(jsstr, snapshot) jsmap"
  heap :: "wsclient list"
  clients :: "(jsstr, nat) jsmap"
  pendingStates :: "(jsstr, pending_state) jsmap"
  stateSyncStarted :: bool
  stateTickStarted :: bool
  tasks :: "'k task list"
  outbox :: "(nat \<times> server_msg) list"

section \<open>Readings of the environment\<close>

definition date_now :: "env \<Rightarrow> ('k, 'z) server_scheme \<Rightarrow> int \<times> ('k, 'z) server_scheme" where
  "date_now E s = (e_now E (clk s), s\<lparr>clk := Suc (clk s)\<rparr>)"

definition math_random :: "env \<Rightarrow> ('k, 'z) server_scheme \<Rightarrow> real \<times> ('k, 'z) server_scheme" where
  "math_random E s = (e_rand E (rnd s), s\<lparr>rnd := Suc (rnd s)\<rparr>)"

definition random_uuid :: "env \<Rightarrow> ('k, 'z) server_scheme \<Rightarrow> jsstr \<times> ('k, 'z) server_scheme" where
  "random_uuid E s = (e_uuid E (uid s), s\<lparr>uid := Suc (uid s)\<rparr>)"

section \<open>The event stream\<close>

fun pruneLoop :: "int \<Rightarrow> world_event list \<Rightarrow> world_event list" where
  "pruneLoop cutoff [] = []"
| "pruneLoop cutoff (e # es) = (if ev_at e < cutoff then pruneLoop cutoff es else e # es)"

definition pruneEvents :: "int \<Rightarrow> world_event list \<Rightarrow> world_event list" where
  "pruneEvents now es = pruneLoop (now - EVENT_MS TTL) es"

text \<open>\<open>const prev = playersCache.get(id); if (!prev) return; playersCache.set(id, f(prev))\<close>.\<close>

definition updPlayer ::
  "jsstr \<Rightarrow> (snapshot \<Rightarrow> snapshot) \<Rightarrow> (jsstr, snapshot) jsmap \<Rightarrow> (jsstr, snapshot) jsmap" where
  "updPlayer k f c = (case map_get c k of None \<Rightarrow> c | Some prev \<Rightarrow> map_set k (f prev) c)"

fun applyBody :: "int \<Rightarrow> ev_body \<Rightarrow> (jsstr, snapshot) jsmap \<Rightarrow> (jsstr, snapshot) jsmap" where
  "applyBody tm (EvJoin p) c = map_set (ps_id p) p c"
| "applyBody tm (EvLeave k nm) c = map_delete k c"
| "applyBody tm (EvState k pos rotY vel crouch) c =
     updPlayer k (\<lambda>prev. prev\<lparr>ps_pos := pos, ps_rotY := rotY, ps_vel := vel,
       ps_crouch := crouch, ps_updatedAt := tm\<rparr>) c"
| "applyBody tm (EvRename k nm) c =
     updPlayer k (\<lambda>prev. prev\<lparr>ps_name := JStr nm, ps_updatedAt := tm\<rparr>) c"
| "applyBody tm (EvRespawn k pos hp) c =
     updPlayer k (\<lambda>prev. prev\<lparr>ps_pos := pos, ps_hp := hp, ps_deadUntil := Some 0,
       ps_updatedAt := tm\<rparr>) c"
| "applyBody tm (EvHit attacker victim impulse victimHp shotId) c =
     updPlayer victim (\<lambda>prev. prev\<lparr>ps_hp := victimHp, ps_updatedAt := tm\<rparr>) c"
| "applyBody tm (EvDeath victim victimName attacker attackerName shotId respawnAt) c =
     updPlayer victim (\<lambda>prev. prev\<lparr>ps_hp := 0, ps_deadUntil := Some respawnAt,
       ps_updatedAt := tm\<rparr>) c"
| "applyBody tm (EvChat k nm txt) c = c"
| "applyBody tm (EvSnowball shot owner origin dir speed) c = c"

definition applyEventToCache ::
  "world_event \<Rightarrow> (jsstr, snapshot) jsmap \<Rightarrow> (jsstr, snapshot) jsmap" where
  "applyEventToCache e c = applyBody (ev_at e) (ev_of e) c"

definition appendEventInMem ::
  "env \<Rightarrow> ev_body \<Rightarrow> 'k \<Rightarrow> ('k, 'z) server_scheme \<Rightarrow> ('k, 'z) server_scheme" where
  "appendEventInMem E ev k s =
     (let seq = Suc (latestSeq s);
          (tm, s) = date_now E (s\<lparr>latestSeq := seq\<rparr>);
          full = \<lparr>ev_seq = seq, ev_at = tm, ev_of = ev\<rparr>;
          s = s\<lparr>lastSeenSeq := latestSeq s\<rparr>;
          s = s\<lparr>events := pruneEvents tm (events s @ [full])\<rparr>;
          s = s\<lparr>playersCache := applyEventToCache full (playersCache s)\<rparr>
      in s\<lparr>tasks := tasks s @ [TBroadcast (MsgEvent full) k]\<rparr>)"

section \<open>Sending\<close>

text \<open>The loop of \<open>broadcast\<close>, which runs after the frame has been encrypted.\<close>

definition broadcastLoop :: "server_msg \<Rightarrow> ('k, 'z) server_scheme \<Rightarrow> ('k, 'z) server_scheme" where
  "broadcastLoop msg s =
     s\<lparr>outbox := outbox s @ map (\<lambda>r. (wc_ws (heap s ! r), msg)) (map_values (clients s))\<rparr>"

definition DROP_BUFFER_BYTES :: nat where
  "DROP_BUFFER_BYTES = 256000"

text \<open>
  The loop of \<open>broadcastDroppable\<close>; \<open>buf\<close> gives the \<open>bufferedAmount\<close> of each socket, where
  the platform has one.
\<close>

definition broadcastDropLoop ::
  "(nat \<Rightarrow> nat option) \<Rightarrow> server_msg \<Rightarrow> ('k, 'z) server_scheme \<Rightarrow> ('k, 'z) server_scheme" where
  "broadcastDropLoop buf msg s =
     s\<lparr>outbox := outbox s @ map (\<lambda>r. (wc_ws (heap s ! r), msg))
         (filter (\<lambda>r. \<not> (case buf (wc_ws (heap s ! r)) of None \<Rightarrow> False
                          | Some n \<Rightarrow> n > DROP_BUFFER_BYTES))
           (map_values (clients s)))\<rparr>"

section \<open>Timers and limits\<close>

text \<open>The interval that removes players without a connection.\<close>

definition cleanupPlayers :: "env \<Rightarrow> ('k, 'z) server_scheme \<Rightarrow> ('k, 'z) server_scheme" where
  "cleanupPlayers E s =
     (let (now, s) = date_now E s
      in s\<lparr>playersCache := filter (\<lambda>(id, snap). map_has (clients s) id \<or>
             \<not> (now - ps_updatedAt snap > CLEANUP_IDLE_MS CONFIG)) (playersCache s)\<rparr>)"

definition rateLimitOk :: "wsclient \<Rightarrow> int \<Rightarrow> bool \<times> wsclient" where
  "rateLimitOk c now =
     (let c = (if now - wc_bucketStart c > windowMs (RATE CONFIG)
               then c\<lparr>wc_bucketStart := now, wc_bucketCount := 0\<rparr> else c);
          c = c\<lparr>wc_bucketCount := wc_bucketCount c + 1\<rparr>
      in (wc_bucketCount c \<le> maxMsgs (RATE CONFIG), c))"

definition stateFreqOk :: "wsclient \<Rightarrow> int \<Rightarrow> bool \<times> wsclient" where
  "stateFreqOk c now =
     (let minInterval = 1000 / STATE_HZ CONFIG
      in if real_of_int (now - wc_lastStateAt c) < minInterval * (3 / 4) then (False, c)
         else (True, c\<lparr>wc_lastStateAt := now\<rparr>))"

definition enqueuePendingState ::
  "pending_state \<Rightarrow> ('k, 'z) server_scheme \<Rightarrow> ('k, 'z) server_scheme" where
  "enqueuePendingState p s = s\<lparr>pendingStates := map_set (pn_id p) p (pendingStates s)\<rparr>"

definition startStateSyncOnce :: "('k, 'z) server_scheme \<Rightarrow> ('k, 'z) server_scheme" where
  "startStateSyncOnce s = (if stateSyncStarted s then s else s\<lparr>stateSyncStarted := True\<rparr>)"

definition startStateTickOnce :: "('k, 'z) server_scheme \<Rightarrow> ('k, 'z) server_scheme" where
  "startStateTickOnce s = (if stateTickStarted s then s else s\<lparr>stateTickStarted := True\<rparr>)"

text \<open>One turn of the two endless loops, up to the \<open>await\<close> of the broadcast.\<close>

definition stateSyncTurn :: "('k, 'z) server_scheme \<Rightarrow> ('k, 'z) server_scheme" where
  "stateSyncTurn s =
     (if clients s = [] then s
      else s\<lparr>tasks := tasks s @ [TBroadcastDrop
             (MsgSnapshot (WORLD CONFIG) (map_values (playersCache s)) (lastSeenSeq s))]\<rparr>)"

definition stateTickTurn :: "env \<Rightarrow> ('k, 'z) server_scheme \<Rightarrow> ('k, 'z) server_scheme" where
  "stateTickTurn E s =
     (if clients s = [] then s
      else if pendingStates s = [] then s
      else (let list = map_values (pendingStates s);
                s = s\<lparr>pendingStates := []\<rparr>;
                (tm, s) = date_now E s
            in s\<lparr>tasks := tasks s @ [TBroadcastDrop (MsgStates tm list)]\<rparr>))"

section \<open>Lemmas on the operations\<close>

lemma date_now_sel [simp]: "fst (date_now E s) = e_now E (clk s)"
  by (simp add: date_now_def)

text \<open>What \<open>appendEventInMem\<close> does to each part of the state.\<close>

lemma append_fields [simp]:
  fixes s :: "('k, 'z) server_scheme"
  shows "clk (appendEventInMem E ev k s) = Suc (clk s)"
    and "rnd (appendEventInMem E ev k s) = rnd s"
    and "uid (appendEventInMem E ev k s) = uid s"
    and "latestSeq (appendEventInMem E ev k s) = Suc (latestSeq s)"
    and "lastSeenSeq (appendEventInMem E ev k s) = Suc (latestSeq s)"
    and "events (appendEventInMem E ev k s) = pruneEvents (e_now E (clk s))
       (events s @ [\<lparr>ev_seq = Suc (latestSeq s), ev_at = e_now E (clk s), ev_of = ev\<rparr>])"
    and "playersCache (appendEventInMem E ev k s) = applyBody (e_now E (clk s)) ev (playersCache s)"
    and "heap (appendEventInMem E ev k s) = heap s"
    and "clients (appendEventInMem E ev k s) = clients s"
    and "pendingStates (appendEventInMem E ev k s) = pendingStates s"
    and "tasks (appendEventInMem E ev k s) = tasks s @ [TBroadcast (MsgEvent
       \<lparr>ev_seq = Suc (latestSeq s), ev_at = e_now E (clk s), ev_of = ev\<rparr>) k]"
    and "outbox (appendEventInMem E ev k s) = outbox s"
    and "server.more (appendEventInMem E ev k s) = server.more s"
  by (simp_all add: appendEventInMem_def date_now_def applyEventToCache_def Let_def)

lemma updPlayer_get:
  "map_get (updPlayer k f c) k' = (if k' = k then map_option f (map_get c k) else map_get c k')"
  by (auto simp: updPlayer_def split: option.splits)

lemma updPlayer_keys [simp]: "map_keys (updPlayer k f c) = map_keys c"
  by (auto simp: updPlayer_def map_keys_set map_has_get split: option.splits)

lemma updPlayer_has [simp]: "map_has (updPlayer k f c) k' = map_has c k'"
  by (simp add: map_has_keys)

lemma updPlayer_ok [simp]: "map_ok (updPlayer k f c) = map_ok c"
  by (simp add: map_ok_def)

lemma applyBody_ok [simp, intro]: "map_ok c \<Longrightarrow> map_ok (applyBody tm ev c)"
  by (cases ev) auto

text \<open>Only a join adds a player and only a leave removes one.\<close>

lemma applyBody_has:
  "map_has (applyBody tm ev c) k \<longleftrightarrow>
     (case ev of EvJoin p \<Rightarrow> k = ps_id p \<or> map_has c k
      | EvLeave k' nm \<Rightarrow> k \<noteq> k' \<and> map_has c k
      | _ \<Rightarrow> map_has c k)"
  by (cases ev) (auto simp: map_has_keys jsmap_simps)

subsection \<open>Invariants of cache entries\<close>

text \<open>
  The contract between the event stream and its clients: a predicate \<open>P\<close> on cache entries and
  a predicate \<open>Q\<close> on events such that an event accepted by \<open>Q\<close> keeps \<open>P\<close>.
\<close>

locale entry_inv =
  fixes P :: "jsstr \<Rightarrow> snapshot \<Rightarrow> bool" and Q :: "int \<Rightarrow> ev_body \<Rightarrow> bool"
  assumes on_join: "Q tm (EvJoin p) \<Longrightarrow> P (ps_id p) p"
    and on_state: "Q tm (EvState k pos rotY vel cr) \<Longrightarrow> P k p \<Longrightarrow>
      P k (p\<lparr>ps_pos := pos, ps_rotY := rotY, ps_vel := vel, ps_crouch := cr, ps_updatedAt := tm\<rparr>)"
    and on_rename: "Q tm (EvRename k nm) \<Longrightarrow> P k p \<Longrightarrow>
      P k (p\<lparr>ps_name := JStr nm, ps_updatedAt := tm\<rparr>)"
    and on_respawn: "Q tm (EvRespawn k pos hp) \<Longrightarrow> P k p \<Longrightarrow>
      P k (p\<lparr>ps_pos := pos, ps_hp := hp, ps_deadUntil := Some 0, ps_updatedAt := tm\<rparr>)"
    and on_hit: "Q tm (EvHit a k i hp sh) \<Longrightarrow> P k p \<Longrightarrow> P k (p\<lparr>ps_hp := hp, ps_updatedAt := tm\<rparr>)"
    and on_death: "Q tm (EvDeath k vn a an sh r) \<Longrightarrow> P k p \<Longrightarrow>
      P k (p\<lparr>ps_hp := 0, ps_deadUntil := Some r, ps_updatedAt := tm\<rparr>)"
begin

lemma upd_inv:
  "map_all P c \<Longrightarrow> (\<And>p. map_get c k = Some p \<Longrightarrow> P k p \<Longrightarrow> P k (f p)) \<Longrightarrow> map_all P (updPlayer k f c)"
  by (auto simp: updPlayer_def split: option.splits intro: map_allD)

lemma apply_inv: "map_all P c \<Longrightarrow> Q tm ev \<Longrightarrow> map_all P (applyBody tm ev c)"
  by (cases ev)
    (auto intro!: upd_inv intro: on_join on_state on_rename on_respawn on_hit on_death)

lemma append_inv:
  "map_all P (playersCache s) \<Longrightarrow> Q (e_now E (clk s)) ev \<Longrightarrow>
   map_all P (playersCache (appendEventInMem E ev k s))"
  by (simp add: apply_inv)

lemma cleanup_inv: "map_all P (playersCache s) \<Longrightarrow> map_all P (playersCache (cleanupPlayers E s))"
  by (auto simp: cleanupPlayers_def date_now_def Let_def)

end

subsection \<open>Sequence numbers and the sliding window\<close>

lemma pruneLoop_suffix: "\<exists>ys. es = ys @ pruneLoop c es"
proof (induction es)
  case (Cons e es)
  then obtain ys where "es = ys @ pruneLoop c es" by blast
  then show ?case by (auto intro: exI [of _ "[]"] exI [of _ "e # ys"])
qed simp

lemma pruneLoop_filter:
  "sorted (map ev_at es) \<Longrightarrow> pruneLoop c es = filter (\<lambda>e. c \<le> ev_at e) es"
  by (induction es) (auto intro!: filter_True [symmetric])

text \<open>The log is a gap-free window of the sequence that ends at the latest number.\<close>

definition seq_window :: "nat \<Rightarrow> world_event list \<Rightarrow> bool" where
  "seq_window n es \<longleftrightarrow> length es \<le> n \<and> map ev_seq es = [Suc n - length es..<Suc n]"

lemma seq_window_snoc:
  "seq_window n es \<Longrightarrow> ev_seq e = Suc n \<Longrightarrow> seq_window (Suc n) (es @ [e])"
  by (simp add: seq_window_def)

lemma seq_window_suffix:
  assumes "seq_window n (ys @ es)"
  shows "seq_window n es"
proof -
  from assms have len: "length ys + length es \<le> n"
    and eq: "map ev_seq (ys @ es) = [Suc n - (length ys + length es)..<Suc n]"
    by (simp_all add: seq_window_def)
  have "map ev_seq es = drop (length ys) (map ev_seq (ys @ es))" by simp
  also have "\<dots> = [Suc n - (length ys + length es) + length ys..<Suc n]"
    unfolding eq by (rule drop_upt)
  also have "Suc n - (length ys + length es) + length ys = Suc n - length es"
    using len by simp
  finally show ?thesis using len by (simp add: seq_window_def)
qed

definition stream_ok :: "env \<Rightarrow> ('k, 'z) server_scheme \<Rightarrow> bool" where
  "stream_ok E s \<longleftrightarrow> lastSeenSeq s = latestSeq s \<and> seq_window (latestSeq s) (events s) \<and>
     sorted (map ev_at (events s)) \<and> (\<forall>e \<in> set (events s). ev_at e \<le> e_now E (clk s)) \<and>
     (\<forall>e \<in> set (events s). ev_at (last (events s)) - EVENT_MS TTL \<le> ev_at e)"

lemma prune_seq_window: "seq_window n es \<Longrightarrow> seq_window n (pruneEvents c es)"
  unfolding pruneEvents_def
  by (metis pruneLoop_suffix seq_window_suffix)

lemma append_stream_ok:
  assumes "stream_ok E s" "clock_mono E"
  shows "stream_ok E (appendEventInMem E ev k s)"
proof -
  let ?t = "e_now E (clk s)"
  let ?e = "\<lparr>ev_seq = Suc (latestSeq s), ev_at = ?t, ev_of = ev\<rparr>"
  have srt: "sorted (map ev_at (events s @ [?e]))"
    using assms(1) by (auto simp: stream_ok_def sorted_append)
  have le: "?t \<le> e_now E (Suc (clk s))"
    using assms(2) by (simp add: clock_mono_def)
  have "seq_window (Suc (latestSeq s)) (events s @ [?e])"
    using assms(1) by (intro seq_window_snoc) (simp_all add: stream_ok_def)
  then have "seq_window (Suc (latestSeq s)) (pruneEvents ?t (events s @ [?e]))"
    by (rule prune_seq_window)
  moreover have "sorted (map ev_at (pruneEvents ?t (events s @ [?e])))"
    by (simp only: pruneEvents_def pruneLoop_filter [OF srt] sorted_filter [OF srt])
  moreover have "\<forall>e \<in> set (events s @ [?e]). ev_at e \<le> e_now E (Suc (clk s))"
    using assms(1) le by (fastforce simp: stream_ok_def)
  then have "\<forall>e \<in> set (pruneEvents ?t (events s @ [?e])). ev_at e \<le> e_now E (Suc (clk s))"
    by (simp only: pruneEvents_def pruneLoop_filter [OF srt]) simp
  moreover have "\<forall>e \<in> set (pruneEvents ?t (events s @ [?e])).
      ev_at (last (pruneEvents ?t (events s @ [?e]))) - EVENT_MS TTL \<le> ev_at e"
    by (simp only: pruneEvents_def pruneLoop_filter [OF srt]) (simp add: cfg_simps)
  ultimately show ?thesis
    by (simp add: stream_ok_def)
qed

end
