(* ===== verification/Traffic_Limits.thy ===== *)
theory Traffic_Limits
  imports Server_State
begin

text \<open>
  What the limiters and the merged state broadcast of \<open>state.ts\<close> guarantee over whole
  sequences of messages: the fixed-window rate limit, the minimal distance of accepted state
  messages, and the frame that holds the latest state of each player once.
\<close>

section \<open>Runs\<close>

text \<open>Concrete data for the witnesses: a server with one connected client.\<close>

definition ex_server :: "unit server" where
  "ex_server = \<lparr>clk = 0, rnd = 0, uid = 0, latestSeq = 0, lastSeenSeq = 0, events = [],
     playersCache = [], heap = [], clients = [(jslit ''a'', 0)], pendingStates = [],
     stateSyncStarted = True, stateTickStarted = True, tasks = [], outbox = []\<rparr>"

definition ex_pending :: "string \<Rightarrow> int \<Rightarrow> pending_state" where
  "ex_pending i t = \<lparr>pn_id = jslit i, pn_pos = vec 0 0 0, pn_rotY = 0, pn_vel = vec 0 0 0,
     pn_crouch = False, pn_updatedAt = t, pn_pingMs = None\<rparr>"


text \<open>The verdict of \<open>rateLimitOk\<close> for each message of one client, in order of arrival.\<close>

fun rateRun :: "wsclient \<Rightarrow> int list \<Rightarrow> (int \<times> bool) list" where
  "rateRun c [] = []"
| "rateRun c (t # ts) = (let (ok, c') = rateLimitOk c t in (t, ok) # rateRun c' ts)"

definition acceptedIn :: "int \<Rightarrow> int \<Rightarrow> wsclient \<Rightarrow> int list \<Rightarrow> nat" where
  "acceptedIn a b c ts = length (filter (\<lambda>(t, ok). ok \<and> a \<le> t \<and> t \<le> b) (rateRun c ts))"

text \<open>The times of the state messages that pass \<open>stateFreqOk\<close>.\<close>

fun freqRun :: "wsclient \<Rightarrow> int list \<Rightarrow> int list" where
  "freqRun c [] = []"
| "freqRun c (t # ts) =
     (let (ok, c') = stateFreqOk c t in (if ok then [t] else []) @ freqRun c' ts)"

section \<open>The fixed-window limiter\<close>

lemma rateLimitOk_new:
  "10000 < t - wc_bucketStart c \<Longrightarrow>
   rateLimitOk c t = (True, c\<lparr>wc_bucketStart := t, wc_bucketCount := 1\<rparr>)"
  by (simp add: rateLimitOk_def cfg_simps)

lemma rateLimitOk_same:
  "t - wc_bucketStart c \<le> 10000 \<Longrightarrow>
   rateLimitOk c t =
     (wc_bucketCount c + 1 \<le> 1200, c\<lparr>wc_bucketCount := wc_bucketCount c + 1\<rparr>)"
  by (simp add: rateLimitOk_def cfg_simps)

lemma acceptedIn_Nil [simp]: "acceptedIn a b c [] = 0"
  by (simp add: acceptedIn_def)

lemma acceptedIn_Cons:
  "acceptedIn a b c (t # ts) =
     (if fst (rateLimitOk c t) \<and> a \<le> t \<and> t \<le> b then 1 else 0) +
     acceptedIn a b (snd (rateLimitOk c t)) ts"
  by (auto simp: acceptedIn_def split: prod.split)

lemma acceptedIn_late: "\<forall>t \<in> set ts. b < t \<Longrightarrow> acceptedIn a b c ts = 0"
  by (induction ts arbitrary: c) (auto simp: acceptedIn_Cons)

text \<open>Inside one bucket, what is left of it is the bound.\<close>

lemma acceptedIn_one_bucket:
  assumes "b \<le> a + 10000"
  shows "sorted ts \<Longrightarrow> a \<le> wc_bucketStart c \<Longrightarrow> acceptedIn a b c ts \<le> nat (1200 - wc_bucketCount c)"
proof (induction ts arbitrary: c)
  case (Cons t ts)
  show ?case
  proof (cases "10000 < t - wc_bucketStart c")
    case True
    with assms Cons.prems have "\<forall>u \<in> set (t # ts). b < u" by force
    then show ?thesis using acceptedIn_late by (simp del: set_simps)
  next
    case False
    then have "acceptedIn a b c (t # ts) \<le> (if wc_bucketCount c + 1 \<le> 1200 then 1 else 0) +
        nat (1200 - (wc_bucketCount c + 1))"
      using Cons.IH [of "c\<lparr>wc_bucketCount := wc_bucketCount c + 1\<rparr>"] Cons.prems
      by (auto simp: acceptedIn_Cons rateLimitOk_same)
    also have "\<dots> \<le> nat (1200 - wc_bucketCount c)" by auto
    finally show ?thesis .
  qed
qed simp

text \<open>Once the interval has begun, at most one further bucket lies in it.\<close>

lemma acceptedIn_two_buckets:
  assumes "b \<le> a + 10000"
  shows "sorted ts \<Longrightarrow> \<forall>t \<in> set ts. a \<le> t \<Longrightarrow>
    acceptedIn a b c ts \<le> nat (1200 - wc_bucketCount c) + 1200"
proof (induction ts arbitrary: c)
  case (Cons t ts)
  show ?case
  proof (cases "10000 < t - wc_bucketStart c")
    case True
    let ?c = "c\<lparr>wc_bucketStart := t, wc_bucketCount := 1\<rparr>"
    have "acceptedIn a b ?c ts \<le> nat (1200 - wc_bucketCount ?c)"
      using Cons.prems by (intro acceptedIn_one_bucket [OF assms]) auto
    with True show ?thesis by (simp add: acceptedIn_Cons rateLimitOk_new)
  next
    case False
    then have "acceptedIn a b c (t # ts) \<le> (if wc_bucketCount c + 1 \<le> 1200 then 1 else 0) +
        (nat (1200 - (wc_bucketCount c + 1)) + 1200)"
      using Cons.IH [of "c\<lparr>wc_bucketCount := wc_bucketCount c + 1\<rparr>"] Cons.prems
      by (auto simp: acceptedIn_Cons rateLimitOk_same)
    also have "\<dots> \<le> nat (1200 - wc_bucketCount c) + 1200" by auto
    finally show ?thesis .
  qed
qed simp

lemma rateLimitOk_count: "0 \<le> wc_bucketCount c \<Longrightarrow> 0 \<le> wc_bucketCount (snd (rateLimitOk c t))"
  by (simp add: rateLimitOk_def Let_def)

section \<open>Spacing of state messages\<close>

lemma stateFreqOk_iff:
  "stateFreqOk c t = (if t - wc_lastStateAt c < 38 then (False, c)
                      else (True, c\<lparr>wc_lastStateAt := t\<rparr>))"
proof -
  have "real_of_int (t - wc_lastStateAt c) < 75 / 2 \<longleftrightarrow> t - wc_lastStateAt c < 38"
  proof
    assume "real_of_int (t - wc_lastStateAt c) < 75 / 2"
    then have "real_of_int (t - wc_lastStateAt c) < real_of_int 38" by simp
    then show "t - wc_lastStateAt c < 38" by (simp only: of_int_less_iff)
  next
    assume "t - wc_lastStateAt c < 38"
    then have "t - wc_lastStateAt c \<le> 37" by simp
    then have "real_of_int (t - wc_lastStateAt c) \<le> real_of_int 37" by (simp only: of_int_le_iff)
    then show "real_of_int (t - wc_lastStateAt c) < 75 / 2" by simp
  qed
  then show ?thesis by (simp add: stateFreqOk_def cfg_simps)
qed

lemma freqRun_lower: "t \<in> set (freqRun c ts) \<Longrightarrow> wc_lastStateAt c + 38 \<le> t"
proof (induction ts arbitrary: c)
  case (Cons u ts)
  then show ?case by (fastforce simp: stateFreqOk_iff split: if_splits)
qed simp

section \<open>The merged frame\<close>

definition enqueueAll :: "pending_state list \<Rightarrow> ('k, 'z) server_scheme \<Rightarrow> ('k, 'z) server_scheme" where
  "enqueueAll ps s = fold enqueuePendingState ps s"

lemma enqueueAll_pending:
  "pendingStates (enqueueAll ps s) = fold (\<lambda>p. map_set (pn_id p) p) ps (pendingStates s)"
  unfolding enqueueAll_def by (induction ps arbitrary: s) (simp_all add: enqueuePendingState_def)

lemma enqueueAll_frame [simp]:
  "clients (enqueueAll ps s) = clients s" "tasks (enqueueAll ps s) = tasks s"
  unfolding enqueueAll_def by (induction ps arbitrary: s) (simp_all add: enqueuePendingState_def)

lemma fold_set_get:
  "map_get (fold (\<lambda>p. map_set (pn_id p) p) ps m) k =
     (case find (\<lambda>q. pn_id q = k) (rev ps) of Some q \<Rightarrow> Some q | None \<Rightarrow> map_get m k)"
proof (induction ps rule: rev_induct)
  case (snoc p ps)
  then show ?case by (auto split: option.splits)
qed simp

lemma fold_set_ok: "map_ok m \<Longrightarrow> map_ok (fold (\<lambda>p. map_set (pn_id p) p) ps m)"
  by (induction ps arbitrary: m) auto

lemma find_pn_id: "find (\<lambda>q. pn_id q = k) ps = Some q \<Longrightarrow> pn_id q = k \<and> q \<in> set ps"
  by (auto simp: find_Some_iff)

text \<open>Of several states of one player, only the last reaches the frame, and it does so once.\<close>

lemma merged_entries:
  fixes ps :: "pending_state list"
  defines "m \<equiv> fold (\<lambda>p. map_set (pn_id p) p) ps []"
  shows "distinct (map pn_id (map_values m))"
    and "set (map_values m) = {p. find (\<lambda>q. pn_id q = pn_id p) (rev ps) = Some p}"
proof -
  have ok: "map_ok m" unfolding m_def by (rule fold_set_ok) simp
  have get: "map_get m k = find (\<lambda>q. pn_id q = k) (rev ps)" for k
    unfolding m_def by (simp add: fold_set_get split: option.split)
  have key: "pn_id v = k" if "(k, v) \<in> set m" for k v
    using that ok get [of k] find_pn_id by (metis map_get_iff)
  have "map pn_id (map_values m) = map_keys m"
    unfolding map_values_def map_keys_def using key by (auto simp: map_eq_conv)
  then show "distinct (map pn_id (map_values m))"
    using ok by (simp add: map_ok_def)
  show "set (map_values m) = {p. find (\<lambda>q. pn_id q = pn_id p) (rev ps) = Some p}"
  proof (intro set_eqI iffI)
    fix p assume "p \<in> set (map_values m)"
    then obtain k where k: "(k, p) \<in> set m" by (auto simp: map_values_in)
    then have "map_get m k = Some p" using ok by (simp add: map_get_iff)
    then show "p \<in> {p. find (\<lambda>q. pn_id q = pn_id p) (rev ps) = Some p}"
      using get key [OF k] by simp
  next
    fix p assume "p \<in> {p. find (\<lambda>q. pn_id q = pn_id p) (rev ps) = Some p}"
    then have "map_get m (pn_id p) = Some p" using get by simp
    then show "p \<in> set (map_values m)" by (auto simp: map_values_in dest: map_get_in)
  qed
qed

section \<open>Properties\<close>

text \<open>
  Claim C26. The fixed-window limiter: whatever the arrival times of a client's messages, in any
  interval of ten seconds at most 2400 of them (two full buckets of 1200) are accepted.
\<close>

theorem rate_limit_bound:
  assumes "sorted ts" and "0 \<le> wc_bucketCount c" and "b \<le> a + windowMs (RATE CONFIG)"
  shows "int (acceptedIn a b c ts) \<le> 2 * maxMsgs (RATE CONFIG)"
proof -
  have b: "b \<le> a + 10000" using assms(3) by (simp add: cfg_simps)
  have "acceptedIn a b c ts \<le> 2400"
    using assms(1,2)
  proof (induction ts arbitrary: c)
    case (Cons t ts)
    show ?case
    proof (cases "t < a")
      case True
      then show ?thesis
        using Cons.IH [of "snd (rateLimitOk c t)"] Cons.prems rateLimitOk_count
        by (simp add: acceptedIn_Cons)
    next
      case False
      then have "acceptedIn a b c (t # ts) \<le> nat (1200 - wc_bucketCount c) + 1200"
        using Cons.prems by (intro acceptedIn_two_buckets [OF b]) auto
      then show ?thesis using Cons.prems(2) by linarith
    qed
  qed simp
  then show ?thesis by (simp add: cfg_simps)
qed

theorem rate_limit_bound_witness:
  "int (acceptedIn 0 10000 \<lparr>wc_id = [], wc_name = JUndef, wc_ws = 0, wc_connectedAt = 0,
     wc_bucketStart = 0, wc_bucketCount = 0, wc_lastStateAt = 0\<rparr> [0, 5, 10001]) \<le> 2400"
proof -
  let ?c = "\<lparr>wc_id = [], wc_name = JUndef, wc_ws = 0, wc_connectedAt = 0,
     wc_bucketStart = 0, wc_bucketCount = 0, wc_lastStateAt = 0\<rparr>"
  have "int (acceptedIn 0 10000 ?c [0, 5, 10001]) \<le> 2 * maxMsgs (RATE CONFIG)"
    by (rule rate_limit_bound) (simp_all add: cfg_simps)
  then show ?thesis by (simp add: cfg_simps)
qed

text \<open>
  State messages that pass the frequency check are at least 38 ms apart (three quarters
  of the 50 ms period, rounded up to the millisecond), whatever arrives in between.
\<close>

lemma state_messages_spaced:
  "sorted_wrt (\<lambda>t t'. t + 38 \<le> t') (freqRun c ts)"
proof (induction ts arbitrary: c)
  case (Cons t ts)
  then show ?case
    by (fastforce simp: stateFreqOk_iff dest: freqRun_lower)
qed simp

text \<open>
  Claim C27. The merged broadcast: after any sequence of enqueued states, one turn of the loop
  with a client connected hands out one frame in which each player occurs exactly once, with
  the last state enqueued for that player, and leaves nothing pending.
\<close>

theorem states_frame_latest_once:
  assumes "pendingStates s = []" and "clients s \<noteq> []" and "ps \<noteq> []"
  shows "\<exists>tm list. tasks (stateTickTurn E (enqueueAll ps s)) =
             tasks s @ [TBroadcastDrop (MsgStates tm list)] \<and>
           distinct (map pn_id list) \<and>
           set list = {p. find (\<lambda>q. pn_id q = pn_id p) (rev ps) = Some p} \<and>
           pendingStates (stateTickTurn E (enqueueAll ps s)) = []"
proof -
  let ?m = "fold (\<lambda>p. map_set (pn_id p) p) ps []"
  have m: "pendingStates (enqueueAll ps s) = ?m"
    using assms(1) by (simp add: enqueueAll_pending)
  have "find (\<lambda>q. pn_id q = pn_id (last ps)) (rev ps) = Some (last ps)"
    using assms(3) by (cases ps rule: rev_cases) auto
  then have "?m \<noteq> []"
    using fold_set_get [of ps "[]" "pn_id (last ps)"] by auto
  then show ?thesis
    using assms(2) m merged_entries [of ps]
    by (auto simp: stateTickTurn_def date_now_def)
qed

theorem states_frame_latest_once_witness:
  "\<exists>tm list. tasks (stateTickTurn ex_env (enqueueAll [ex_pending ''a'' 1, ex_pending ''a'' 2] ex_server)) =
       [TBroadcastDrop (MsgStates tm list)] \<and> set list = {ex_pending ''a'' 2}"
proof -
  let ?ps = "[ex_pending ''a'' 1, ex_pending ''a'' 2]"
  obtain tm list where l: "tasks (stateTickTurn ex_env (enqueueAll ?ps ex_server)) =
             tasks ex_server @ [TBroadcastDrop (MsgStates tm list)]"
     "set list = {q. find (\<lambda>r. pn_id r = pn_id q) (rev ?ps) = Some q}"
    using states_frame_latest_once [of ex_server ?ps ex_env] by (auto simp: ex_server_def)
  have "set list = {ex_pending ''a'' 2}"
    unfolding l(2) by (auto simp: ex_pending_def)
  then show ?thesis using l(1) by (auto simp: ex_server_def)
qed

end
