(* ===== verification/Storage.thy ===== *)
theory Storage
  imports Server_State "HOL-Library.Multiset"
begin

text \<open>
  \<open>storage.ts\<close>: kill records and player statistics in SQLite.

  A table is a list of rows. The database engine is not part of the repository; what the code
  relies on is written into the model as the SQL standard documents it: a primary key conflict
  or a \<open>NULL\<close> in a \<open>NOT NULL\<close> column throws and leaves the table unchanged, an upsert adds to
  the row of the same key, \<open>DELETE\<close> removes the matching rows. The order of rows with equal
  sort keys is unspecified, so \<open>ORDER BY\<close> is a parameter of the queries (\<open>orders_by\<close> states
  what it does). How the driver binds a JavaScript value to a text column is the parameter
  \<open>e_bindText\<close> of the environment: \<open>None\<close> is \<open>NULL\<close>.
\<close>

section \<open>Tables\<close>

record kill_record =
  kr_id :: jsstr
  kr_attackerId :: jsstr
  kr_attackerName :: jsstr
  kr_victimId :: jsstr
  kr_victimName :: jsstr
  kr_shotId :: jsstr
  kr_timestamp :: int

record player_stats =
  st_playerName :: jsstr
  st_kills :: int
  st_deaths :: int
  st_lastSeen :: int
  st_lastPlayerId :: jsstr

record database =
  kills :: "kill_record list"
  player_stats_tab :: "player_stats list"

text \<open>The argument of \<open>recordKill\<close>: a kill record without \<open>id\<close> and \<open>timestamp\<close>.\<close>

record kill_request =
  kq_attackerId :: jsstr
  kq_attackerName :: jsval
  kq_victimId :: jsstr
  kq_victimName :: jsval
  kq_shotId :: jsstr

record 'k gstate = "'k server" +
  db :: database

section \<open>Statements\<close>

definition insertKillStmt :: "kill_record \<Rightarrow> database \<Rightarrow> js_err + database" where
  "insertKillStmt r d =
     (if kr_id r \<in> set (map kr_id (kills d)) then Inl ConstraintError
      else Inr (d\<lparr>kills := kills d @ [r]\<rparr>))"

fun upsertRow ::
  "jsstr \<Rightarrow> int \<Rightarrow> int \<Rightarrow> int \<Rightarrow> jsstr \<Rightarrow> player_stats list \<Rightarrow> player_stats list" where
  "upsertRow name k dt ts pid [] =
     [\<lparr>st_playerName = name, st_kills = k, st_deaths = dt, st_lastSeen = ts, st_lastPlayerId = pid\<rparr>]"
| "upsertRow name k dt ts pid (r # rs) =
     (if st_playerName r = name
      then r\<lparr>st_kills := st_kills r + k, st_deaths := st_deaths r + dt,
             st_lastSeen := ts, st_lastPlayerId := pid\<rparr> # rs
      else r # upsertRow name k dt ts pid rs)"

definition upsertStatsStmt ::
  "jsstr \<Rightarrow> int \<Rightarrow> int \<Rightarrow> int \<Rightarrow> jsstr \<Rightarrow> database \<Rightarrow> database" where
  "upsertStatsStmt name k dt ts pid d =
     d\<lparr>player_stats_tab := upsertRow name k dt ts pid (player_stats_tab d)\<rparr>"

definition getStatsStmt :: "jsstr \<Rightarrow> database \<Rightarrow> player_stats option" where
  "getStatsStmt name d = find (\<lambda>r. st_playerName r = name) (player_stats_tab d)"

text \<open>\<open>LIMIT n\<close>: a negative limit means no limit.\<close>

definition sqlLimit :: "int \<Rightarrow> 'a list \<Rightarrow> 'a list" where
  "sqlLimit n xs = (if n < 0 then xs else take (nat n) xs)"

definition getRecentKillsStmt ::
  "(kill_record list \<Rightarrow> kill_record list) \<Rightarrow> int \<Rightarrow> database \<Rightarrow> kill_record list" where
  "getRecentKillsStmt ord limit d = sqlLimit limit (ord (kills d))"

definition getLeaderboardStmt ::
  "(player_stats list \<Rightarrow> player_stats list) \<Rightarrow> int \<Rightarrow> database \<Rightarrow> player_stats list" where
  "getLeaderboardStmt ord limit d = sqlLimit limit (ord (player_stats_tab d))"

text \<open>
  \<open>SELECT attacker_name, COUNT(*) \<dots> WHERE timestamp > since GROUP BY attacker_name\<close>; the third
  column of the statement is not read.
\<close>

definition killsSince :: "real \<Rightarrow> database \<Rightarrow> kill_record list" where
  "killsSince since d = filter (\<lambda>r. real_of_int (kr_timestamp r) > since) (kills d)"

definition groupKills :: "kill_record list \<Rightarrow> (jsstr \<times> nat) list" where
  "groupKills rs =
     map (\<lambda>n. (n, length (filter (\<lambda>r. kr_attackerName r = n) rs)))
       (remdups (map kr_attackerName rs))"

definition getLeaderboardByTimeStmt ::
  "((jsstr \<times> nat) list \<Rightarrow> (jsstr \<times> nat) list) \<Rightarrow> real \<Rightarrow> int \<Rightarrow> database \<Rightarrow> (jsstr \<times> nat) list" where
  "getLeaderboardByTimeStmt ord since limit d = sqlLimit limit (ord (groupKills (killsSince since d)))"

text \<open>The statement returns the number of rows it has deleted.\<close>

definition cleanupStmt :: "int \<Rightarrow> database \<Rightarrow> nat \<times> database" where
  "cleanupStmt cutoff d =
     (let rest = filter (\<lambda>r. \<not> kr_timestamp r < cutoff) (kills d)
      in (length (kills d) - length rest, d\<lparr>kills := rest\<rparr>))"

section \<open>Operations\<close>

definition recordKill ::
  "env \<Rightarrow> kill_request \<Rightarrow> ('k, 'z) gstate_scheme \<Rightarrow> (js_err + kill_record) \<times> ('k, 'z) gstate_scheme"
where
  "recordKill E q s =
     (let (id, s) = random_uuid E s;
          (timestamp, s) = date_now E s
      in case (e_bindText E (kq_attackerName q), e_bindText E (kq_victimName q)) of
           (Some an, Some vn) \<Rightarrow>
             (let r = \<lparr>kr_id = id, kr_attackerId = kq_attackerId q, kr_attackerName = an,
                       kr_victimId = kq_victimId q, kr_victimName = vn, kr_shotId = kq_shotId q,
                       kr_timestamp = timestamp\<rparr>
              in case insertKillStmt r (db s) of
                   Inl e \<Rightarrow> (Inl e, s)
                 | Inr d \<Rightarrow>
                     (let d = upsertStatsStmt an 1 0 timestamp (kq_attackerId q) d;
                          d = upsertStatsStmt vn 0 1 timestamp (kq_victimId q) d
                      in (Inr r, s\<lparr>db := d\<rparr>)))
         | _ \<Rightarrow> (Inl ConstraintError, s))"

definition getPlayerStats :: "jsstr \<Rightarrow> database \<Rightarrow> player_stats option" where
  "getPlayerStats name d = getStatsStmt name d"

definition getRecentKills ::
  "(kill_record list \<Rightarrow> kill_record list) \<Rightarrow> int \<Rightarrow> database \<Rightarrow> kill_record list" where
  "getRecentKills ord limit d = getRecentKillsStmt ord limit d"

definition getLeaderboard ::
  "(player_stats list \<Rightarrow> player_stats list) \<Rightarrow> int \<Rightarrow> database \<Rightarrow> player_stats list" where
  "getLeaderboard ord limit d = getLeaderboardStmt ord limit d"

definition getLeaderboardByTime ::
  "((jsstr \<times> nat) list \<Rightarrow> (jsstr \<times> nat) list) \<Rightarrow> int \<Rightarrow> real \<Rightarrow> int \<Rightarrow> database \<Rightarrow> (jsstr \<times> nat) list"
where
  "getLeaderboardByTime ord now hours limit d =
     (let since = real_of_int now - hours * 60 * 60 * 1000
      in getLeaderboardByTimeStmt ord since limit d)"

definition cleanupOldKills :: "int \<Rightarrow> database \<Rightarrow> nat \<times> database" where
  "cleanupOldKills now d = (let cutoff = now - 30 * 24 * 60 * 60 * 1000 in cleanupStmt cutoff d)"

lemmas stmt_defs = getStatsStmt_def getRecentKillsStmt_def getLeaderboardStmt_def getLeaderboardByTimeStmt_def cleanupStmt_def

text \<open>The number of kills of one name since a time, as a reference for the aggregated query.\<close>

definition killCount :: "jsstr \<Rightarrow> real \<Rightarrow> database \<Rightarrow> nat" where
  "killCount n since d = length (filter (\<lambda>r. kr_attackerName r = n) (killsSince since d))"

text \<open>What \<open>ORDER BY key DESC\<close> does.\<close>

definition orders_by :: "('a \<Rightarrow> int) \<Rightarrow> ('a list \<Rightarrow> 'a list) \<Rightarrow> bool" where
  "orders_by key ord \<longleftrightarrow>
     (\<forall>xs. mset (ord xs) = mset xs \<and> sorted_wrt (\<lambda>x y. key y \<le> key x) (ord xs))"

section \<open>Lemmas\<close>

text \<open>Total kills and deaths per name, zero for a name without a row.\<close>

definition killsOf :: "jsstr \<Rightarrow> database \<Rightarrow> int" where
  "killsOf n d = (case getPlayerStats n d of None \<Rightarrow> 0 | Some r \<Rightarrow> st_kills r)"

definition deathsOf :: "jsstr \<Rightarrow> database \<Rightarrow> int" where
  "deathsOf n d = (case getPlayerStats n d of None \<Rightarrow> 0 | Some r \<Rightarrow> st_deaths r)"

definition rowsBy :: "jsstr \<Rightarrow> database \<Rightarrow> int" where
  "rowsBy n d = int (length (filter (\<lambda>r. kr_attackerName r = n) (kills d)))"

definition rowsOf :: "jsstr \<Rightarrow> database \<Rightarrow> int" where
  "rowsOf n d = int (length (filter (\<lambda>r. kr_victimName r = n) (kills d)))"

lemma find_upsertRow:
  "find (\<lambda>r. st_playerName r = n) (upsertRow name k dt ts pid rs) =
     (if n = name
      then Some (case find (\<lambda>r. st_playerName r = name) rs of
             None \<Rightarrow> \<lparr>st_playerName = name, st_kills = k, st_deaths = dt, st_lastSeen = ts,
                      st_lastPlayerId = pid\<rparr>
           | Some r \<Rightarrow> r\<lparr>st_kills := st_kills r + k, st_deaths := st_deaths r + dt,
                         st_lastSeen := ts, st_lastPlayerId := pid\<rparr>)
      else find (\<lambda>r. st_playerName r = n) rs)"
  by (induction rs) auto

lemma killsOf_upsert:
  "killsOf n (upsertStatsStmt name k dt ts pid d) = killsOf n d + (if n = name then k else 0)"
  by (auto simp: killsOf_def getPlayerStats_def stmt_defs upsertStatsStmt_def find_upsertRow
      split: option.splits)

lemma deathsOf_upsert:
  "deathsOf n (upsertStatsStmt name k dt ts pid d) = deathsOf n d + (if n = name then dt else 0)"
  by (auto simp: deathsOf_def getPlayerStats_def stmt_defs upsertStatsStmt_def find_upsertRow
      split: option.splits)

lemma upsert_kills [simp]: "kills (upsertStatsStmt name k dt ts pid d) = kills d"
  by (simp add: upsertStatsStmt_def)

lemma killsOf_kills [simp]: "killsOf n (d\<lparr>kills := ks\<rparr>) = killsOf n d"
  by (simp add: killsOf_def getPlayerStats_def stmt_defs)

lemma deathsOf_kills [simp]: "deathsOf n (d\<lparr>kills := ks\<rparr>) = deathsOf n d"
  by (simp add: deathsOf_def getPlayerStats_def stmt_defs)

text \<open>Either everything is written, or the call throws and the database is as before.\<close>

lemma recordKill_cases:
  assumes "recordKill E q s = (res, s')"
  obtains (fail) e where "res = Inl e" "db s' = db s"
    | (ok) r d where "res = Inr r" "insertKillStmt r (db s) = Inr d"
        "db s' = upsertStatsStmt (kr_victimName r) 0 1 (kr_timestamp r) (kr_victimId r)
                  (upsertStatsStmt (kr_attackerName r) 1 0 (kr_timestamp r) (kr_attackerId r) d)"
        "e_bindText E (kq_attackerName q) = Some (kr_attackerName r)"
        "e_bindText E (kq_victimName q) = Some (kr_victimName r)"
        "kr_timestamp r = e_now E (clk s)" "kr_id r = e_uuid E (uid s)"
proof -
  let ?r = "\<lambda>an vn. \<lparr>kr_id = e_uuid E (uid s), kr_attackerId = kq_attackerId q,
    kr_attackerName = an, kr_victimId = kq_victimId q, kr_victimName = vn,
    kr_shotId = kq_shotId q, kr_timestamp = e_now E (clk s)\<rparr>"
  note unfold = recordKill_def random_uuid_def date_now_def Let_def
  consider (null) "e_bindText E (kq_attackerName q) = None \<or> e_bindText E (kq_victimName q) = None"
    | (dup) an vn e where "e_bindText E (kq_attackerName q) = Some an"
        "e_bindText E (kq_victimName q) = Some vn" "insertKillStmt (?r an vn) (db s) = Inl e"
    | (ins) an vn d where "e_bindText E (kq_attackerName q) = Some an"
        "e_bindText E (kq_victimName q) = Some vn" "insertKillStmt (?r an vn) (db s) = Inr d"
    by (cases "e_bindText E (kq_attackerName q)"; cases "e_bindText E (kq_victimName q)")
      (auto, metis sum.exhaust)
  then show ?thesis
  proof cases
    case null
    with assms show ?thesis by (intro fail) (auto simp: unfold split: option.splits)
  next
    case dup
    with assms show ?thesis by (intro fail) (auto simp: unfold)
  next
    case ins
    show ?thesis
      by (rule ok [of "?r an vn" d]) (use assms ins in \<open>simp_all add: unfold, auto\<close>)
  qed
qed

lemma recordKill_frame:
  assumes "recordKill E q s = (res, s')"
  shows "server.truncate s' = (server.truncate s)\<lparr>uid := Suc (uid s), clk := Suc (clk s)\<rparr>"
  using assms
  by (auto simp: recordKill_def random_uuid_def date_now_def Let_def server.defs
      split: option.splits sum.splits if_splits)

lemma insertKillStmt_Inr: "insertKillStmt r d = Inr d' \<Longrightarrow> d' = d\<lparr>kills := kills d @ [r]\<rparr>"
  by (auto simp: insertKillStmt_def split: if_splits)

text \<open>
  The invariant of the database: identifiers are unique, names are unique in the statistics,
  and the statistics count at least the kill records that are still there.
\<close>

definition db_ok :: "database \<Rightarrow> bool" where
  "db_ok d \<longleftrightarrow> distinct (map kr_id (kills d)) \<and>
     distinct (map st_playerName (player_stats_tab d)) \<and>
     (\<forall>n. rowsBy n d \<le> killsOf n d \<and> rowsOf n d \<le> deathsOf n d)"

lemma upsertRow_names:
  "map st_playerName (upsertRow name k dt ts pid rs) =
     (if name \<in> set (map st_playerName rs) then map st_playerName rs
      else map st_playerName rs @ [name])"
  by (induction rs) auto

lemma upsert_distinct:
  "distinct (map st_playerName (player_stats_tab d)) \<Longrightarrow>
   distinct (map st_playerName (player_stats_tab (upsertStatsStmt name k dt ts pid d)))"
  by (auto simp: upsertStatsStmt_def upsertRow_names)

lemma recordKill_ok: "db_ok (db s) \<Longrightarrow> recordKill E q s = (res, s') \<Longrightarrow> db_ok (db s')"
proof (erule recordKill_cases, goal_cases)
  case (1 e)
  then show ?case by simp
next
  case (2 r d)
  then have d: "d = (db s)\<lparr>kills := kills (db s) @ [r]\<rparr>" and
    nid: "kr_id r \<notin> set (map kr_id (kills (db s)))"
    by (auto simp: insertKillStmt_def split: if_splits)
  from 2 nid show ?case
    by (auto simp: db_ok_def d upsert_distinct killsOf_upsert deathsOf_upsert rowsBy_def rowsOf_def)
qed

lemma cleanup_ok: "db_ok d \<Longrightarrow> db_ok (snd (cleanupOldKills now d))"
proof -
  assume ok: "db_ok d"
  have le: "length (filter P (filter Q xs)) \<le> length (filter P xs)" for P Q :: "kill_record \<Rightarrow> bool" and xs
    by (induction xs) auto
  have "rowsBy n (snd (cleanupOldKills now d)) \<le> rowsBy n d"
    "rowsOf n (snd (cleanupOldKills now d)) \<le> rowsOf n d" for n
    unfolding rowsBy_def rowsOf_def by (simp_all add: cleanupOldKills_def stmt_defs Let_def le del: filter_filter)
  moreover have "killsOf n (snd (cleanupOldKills now d)) = killsOf n d"
    "deathsOf n (snd (cleanupOldKills now d)) = deathsOf n d" for n
    by (simp_all add: cleanupOldKills_def stmt_defs Let_def)
  moreover have "distinct (map kr_id (kills (snd (cleanupOldKills now d))))"
    using ok by (simp add: cleanupOldKills_def stmt_defs Let_def db_ok_def distinct_map_filter)
  moreover have "player_stats_tab (snd (cleanupOldKills now d)) = player_stats_tab d"
    by (simp add: cleanupOldKills_def stmt_defs Let_def)
  ultimately show ?thesis
    using ok unfolding db_ok_def by (metis order_trans)
qed

section \<open>Histories of the database\<close>

text \<open>The two writers of the tables: recorded kills and the hourly clean-up.\<close>

inductive db_step :: "env \<Rightarrow> ('k, 'z) gstate_scheme \<Rightarrow> ('k, 'z) gstate_scheme \<Rightarrow> bool" for E where
  step_kill: "recordKill E q s = (res, s') \<Longrightarrow> db_step E s s'"
| step_cleanup: "db_step E s (s\<lparr>db := snd (cleanupOldKills now (db s))\<rparr>)"

interpretation dbs: safety "db_step E" "\<lambda>s. db_ok (db s)" for E
  by unfold_locales (auto elim!: db_step.cases intro: recordKill_ok cleanup_ok)

lemma orders_by_sort_key: "orders_by key (sort_key (\<lambda>x. - key x))"
proof -
  have "sorted_wrt (\<lambda>x y. key y \<le> key x) (sort_key (\<lambda>x. - key x) xs)" for xs
    using sorted_sort_key [of "\<lambda>x. - key x" xs] by (simp add: sorted_map)
  then show ?thesis by (simp add: orders_by_def)
qed

lemma groupKills_fst: "map fst (groupKills rs) = remdups (map kr_attackerName rs)"
  by (simp add: groupKills_def comp_def)

lemma groupKills_mem:
  "(n, k) \<in> set (groupKills rs) \<longleftrightarrow>
     0 < k \<and> k = length (filter (\<lambda>r. kr_attackerName r = n) rs)"
  by (auto simp: groupKills_def filter_empty_conv)

text \<open>The first rows of a sorted table dominate the rows that are cut off.\<close>

lemma sqlLimit_top:
  assumes "sorted_wrt (\<lambda>x y. key y \<le> key x) xs" "x \<in> set (sqlLimit n xs)"
    "y \<in> set xs" "y \<notin> set (sqlLimit n xs)"
  shows "(key y :: int) \<le> key x"
proof -
  from assms(2-4) have n: "\<not> n < 0" by (auto simp: sqlLimit_def)
  then have "y \<in> set (drop (nat n) xs)" "x \<in> set (take (nat n) xs)"
    using assms(2-4) by (auto simp: sqlLimit_def) (metis Un_iff append_take_drop_id set_append)
  with assms(1) show ?thesis
    by (metis append_take_drop_id sorted_wrt_append)
qed

lemma set_sqlLimit: "set (sqlLimit n xs) \<subseteq> set xs"
  by (auto simp: sqlLimit_def dest: in_set_takeD)

lemma distinct_sqlLimit: "distinct xs \<Longrightarrow> distinct (sqlLimit n xs)"
  by (simp add: sqlLimit_def)

lemma sorted_wrt_sqlLimit: "sorted_wrt P xs \<Longrightarrow> sorted_wrt P (sqlLimit n xs)"
  by (simp add: sqlLimit_def sorted_wrt_take)

lemma map_sqlLimit: "map f (sqlLimit n xs) = sqlLimit n (map f xs)"
  by (simp add: sqlLimit_def take_map)

definition ex_kill :: "string \<Rightarrow> string \<Rightarrow> int \<Rightarrow> kill_record" where
  "ex_kill i n t = \<lparr>kr_id = jslit i, kr_attackerId = jslit ''p'', kr_attackerName = jslit n,
     kr_victimId = jslit ''v'', kr_victimName = jslit ''v'', kr_shotId = jslit ''s'', kr_timestamp = t\<rparr>"

definition ex_db :: database where
  "ex_db = \<lparr>kills = [ex_kill ''1'' ''a'' 5, ex_kill ''2'' ''b'' 6, ex_kill ''3'' ''b'' 7],
     player_stats_tab = []\<rparr>"

definition ex_gstate :: "unit gstate" where
  "ex_gstate = \<lparr>clk = 0, rnd = 0, uid = 0, latestSeq = 0, lastSeenSeq = 0, events = [],
     playersCache = [], heap = [], clients = [], pendingStates = [],
     stateSyncStarted = False, stateTickStarted = False, tasks = [], outbox = [],
     db = \<lparr>kills = [], player_stats_tab = []\<rparr>\<rparr>"

definition ex_request :: kill_request where
  "ex_request = \<lparr>kq_attackerId = jslit ''p'', kq_attackerName = JStr (jslit ''a''),
     kq_victimId = jslit ''q'', kq_victimName = JStr (jslit ''b''), kq_shotId = jslit ''s''\<rparr>"

section \<open>Properties\<close>

text \<open>
  Recording a kill is all or nothing: on success exactly one kill is credited to the
  attacker's name, one death to the victim's name, and one record is appended; when the call
  throws, the database is unchanged.
\<close>

lemma recordKill_counts:
  assumes "recordKill E q s = (res, s')"
  shows "case res of
      Inl e \<Rightarrow> db s' = db s
    | Inr r \<Rightarrow> kills (db s') = kills (db s) @ [r] \<and>
        (\<forall>n. killsOf n (db s') = killsOf n (db s) + (if n = kr_attackerName r then 1 else 0) \<and>
             deathsOf n (db s') = deathsOf n (db s) + (if n = kr_victimName r then 1 else 0))"
  using assms
proof (cases rule: recordKill_cases)
  case fail
  then show ?thesis by simp
next
  case (ok r d)
  then show ?thesis
    by (auto simp: killsOf_upsert deathsOf_upsert dest: insertKillStmt_Inr)
qed

text \<open>
  Claim C23. In every database reachable from empty tables through recorded kills and clean-ups, for
  every name the all-time kills and deaths of the statistics are at least the number of kill
  records of that name that are still stored, and identifiers and names are unique.
\<close>

theorem statistics_cover_records:
  assumes "reach (db_step E) s0 s" and "kills (db s0) = []" and "player_stats_tab (db s0) = []"
  shows "rowsBy n (db s) \<le> killsOf n (db s) \<and> rowsOf n (db s) \<le> deathsOf n (db s) \<and>
    distinct (map kr_id (kills (db s))) \<and>
    distinct (map st_playerName (player_stats_tab (db s)))"
proof -
  have "db_ok (db s0)"
    using assms(2,3) by (simp add: db_ok_def rowsBy_def rowsOf_def killsOf_def deathsOf_def getPlayerStats_def stmt_defs)
  with assms(1) have "db_ok (db s)" by (rule dbs.reach_inv)
  then show ?thesis by (simp add: db_ok_def)
qed

theorem statistics_cover_records_witness:
  "rowsBy (jslit ''a'') (db (snd (recordKill ex_env ex_request ex_gstate)))
     \<le> killsOf (jslit ''a'') (db (snd (recordKill ex_env ex_request ex_gstate)))"
proof -
  have "reach (db_step ex_env) ex_gstate (snd (recordKill ex_env ex_request ex_gstate))"
    by (rule reach_step [OF reach_refl], rule step_kill [of _ ex_request, OF prod.collapse [symmetric]])
  from statistics_cover_records [OF this] show ?thesis by (simp add: ex_gstate_def)
qed



text \<open>
  Claim C25. The clean-up never changes a leaderboard of the last 30 days or less (the client asks for
  24 hours and for 7 days): it removes only records that no such query counts.
\<close>

theorem cleanup_preserves_leaderboards:
  assumes "hours \<le> 720" and "now \<le> later"
  shows "getLeaderboardByTime ord later hours limit (snd (cleanupOldKills now d)) =
         getLeaderboardByTime ord later hours limit d"
proof -
  have keep: "\<not> kr_timestamp r < now - 2592000000"
    if "real_of_int (kr_timestamp r) > real_of_int later - hours * 60 * 60 * 1000" for r
  proof -
    have "real_of_int later - hours * 60 * 60 * 1000 \<ge> real_of_int (now - 2592000000)"
      using assms by simp
    with that have "real_of_int (kr_timestamp r) > real_of_int (now - 2592000000)" by linarith
    then have "now - 2592000000 < kr_timestamp r" by (simp only: of_int_less_iff)
    then show ?thesis by simp
  qed
  have "killsSince (real_of_int later - hours * 60 * 60 * 1000) (snd (cleanupOldKills now d)) =
        killsSince (real_of_int later - hours * 60 * 60 * 1000) d"
    unfolding killsSince_def cleanupOldKills_def stmt_defs Let_def
    using keep by (auto intro!: filter_cong)
  then show ?thesis by (simp add: getLeaderboardByTime_def stmt_defs)
qed

theorem cleanup_preserves_leaderboards_witness:
  "getLeaderboardByTime id 3000000000 24 10 (snd (cleanupOldKills 3000000000 ex_db)) =
   getLeaderboardByTime id 3000000000 24 10 ex_db"
  by (rule cleanup_preserves_leaderboards) simp_all

end
