(* ===== verification/Game.thy ===== *)
theory Game
  imports Geometry Text_Utils Storage
begin

text \<open>
  \<open>game.ts\<close>: the handlers of the server. Each handler is cut at its \<open>await\<close>s; \<open>cont\<close> lists
  what may follow an \<open>await\<close> (the constructors for connections and bots belong to \<open>ws.ts\<close> and
  \<open>bot.ts\<close>). A handler that throws returns the error beside the state it leaves.
\<close>

section \<open>State\<close>

datatype cont =
    KDone
  | KHello nat snapshot int
  | KWelcome nat int
  | KCloseDuplicate nat
  | KRespawned pending_state
  | KSnowResolve jsstr jsstr vec3 vec3
  | KSnowDeath jsstr jsstr snapshot int int
  | KBotsRest "jsstr list" int
  | KBotResolve jsstr snapshot "jsstr list" int jsstr vec3 vec3
  | KBotDeath jsstr snapshot "jsstr list" int jsstr snapshot int int int
  | KBotShot jsstr snapshot "jsstr list" int int

record game = "cont gstate" +
  seenShots :: "(jsstr, int) jsmap"

definition SHOT_DEDUP_MS :: int where
  "SHOT_DEDUP_MS = 10000"

declare SHOT_DEDUP_MS_def [cfg_simps]

section \<open>Shot identifiers\<close>

definition seenShotBefore :: "env \<Rightarrow> jsstr \<Rightarrow> 'z game_scheme \<Rightarrow> bool \<times> 'z game_scheme" where
  "seenShotBefore E shotId s =
     (let (now, s) = date_now E s
      in case map_get (seenShots s) shotId of
           Some ex \<Rightarrow>
             (if ex \<noteq> 0 \<and> ex > now then (True, s)
              else (False, s\<lparr>seenShots := map_set shotId (now + SHOT_DEDUP_MS) (seenShots s)\<rparr>))
         | None \<Rightarrow> (False, s\<lparr>seenShots := map_set shotId (now + SHOT_DEDUP_MS) (seenShots s)\<rparr>))"

definition cleanupShots :: "env \<Rightarrow> 'z game_scheme \<Rightarrow> 'z game_scheme" where
  "cleanupShots E s =
     (let (now, s) = date_now E s
      in s\<lparr>seenShots := filter (\<lambda>(id, ex). \<not> ex \<le> now) (seenShots s)\<rparr>)"

section \<open>Joining, renaming, chatting\<close>

text \<open>\<open>{ x: (Math.random() - 0.5) * 40, y: 0, z: (Math.random() - 0.5) * 40 }\<close>.\<close>

definition spawnPos :: "env \<Rightarrow> ('k, 'z) server_scheme \<Rightarrow> vec3 \<times> ('k, 'z) server_scheme" where
  "spawnPos E s =
     (let (r1, s) = math_random E s;
          (r2, s) = math_random E s
      in (vec ((r1 - 1 / 2) * 40) 0 ((r2 - 1 / 2) * 40), s))"

definition serverOnHello :: "env \<Rightarrow> jsval \<Rightarrow> 'z game_scheme \<Rightarrow> (js_err + snapshot) \<times> 'z game_scheme" where
  "serverOnHello E name s =
     (let (now, s) = date_now E s;
          (spawn, s) = spawnPos E s;
          (id, s) = random_uuid E s
      in case clampName name of
           Inl e \<Rightarrow> (Inl e, s)
         | Inr nm \<Rightarrow>
             (Inr \<lparr>ps_id = id, ps_name = JStr nm, ps_pos = spawn, ps_rotY = 0,
                   ps_vel = vec 0 0 0, ps_hp = 100, ps_crouch = False, ps_deadUntil = Some 0,
                   ps_updatedAt = now, ps_pingMs = None\<rparr>, s))"

definition serverHandleRename ::
  "env \<Rightarrow> jsstr \<Rightarrow> jsval \<Rightarrow> 'z game_scheme \<Rightarrow> js_err option \<times> 'z game_scheme" where
  "serverHandleRename E clientId newRawName s =
     (case clampName newRawName of
        Inl e \<Rightarrow> (Some e, s)
      | Inr newName \<Rightarrow>
          (if newName = [] then (None, s)
           else (let s = (case map_get (playersCache s) clientId of
                            None \<Rightarrow> s
                          | Some prev \<Rightarrow>
                              (let (now, s) = date_now E s
                               in s\<lparr>playersCache := map_set clientId
                                    (prev\<lparr>ps_name := JStr newName, ps_updatedAt := now\<rparr>)
                                    (playersCache s)\<rparr>))
                 in (None, appendEventInMem E (EvRename clientId newName) KDone s))))"

definition serverHandleChat ::
  "env \<Rightarrow> jsstr \<Rightarrow> jsval \<Rightarrow> jsval \<Rightarrow> 'z game_scheme \<Rightarrow> js_err option \<times> 'z game_scheme" where
  "serverHandleChat E clientId name msg s =
     (case clampChat (getp msg ''text'') of
        Inl e \<Rightarrow> (Some e, s)
      | Inr txt \<Rightarrow>
          (if txt = [] then (None, s)
           else (None, appendEventInMem E (EvChat clientId name txt) KDone s)))"

section \<open>State reports\<close>

text \<open>The server's bound on reported positions.\<close>

definition outsideMap :: "vec3 \<Rightarrow> bool" where
  "outsideMap p \<longleftrightarrow>
     \<bar>vx p\<bar> > MAP_HALF CONFIG + 5 \<or> \<bar>vz p\<bar> > MAP_HALF CONFIG + 5 \<or> \<bar>vy p\<bar> > 5000"

definition serverHandleState ::
  "env \<Rightarrow> jsstr \<Rightarrow> jsval \<Rightarrow> jsval \<Rightarrow> 'z game_scheme \<Rightarrow> 'z game_scheme" where
  "serverHandleState E clientId name msg s =
     (if \<not> isFiniteVec3 (getp msg ''pos'') \<or> \<not> isFinite (getp msg ''rotY'') then s
      else
        let pos = vecOf (getp msg ''pos'');
            rotY = numOf (getp msg ''rotY'');
            vel = (if isFiniteVec3 (getp msg ''vel'') then vecOf (getp msg ''vel'') else vec 0 0 0);
            crouch = truthy (getp msg ''crouch'')
        in if outsideMap pos then s
           else
             let (now, s) = date_now E s;
                 prev = map_get (playersCache s) clientId
             in case prev of
                  Some p \<Rightarrow>
                    if ps_hp p \<le> 0 \<and> deadUntil0 p > now then s
                    else if ps_hp p \<le> 0 \<and> deadUntil0 p \<le> now then
                      let (spawn, s) = spawnPos E s;
                          revived = p\<lparr>ps_pos := spawn, ps_rotY := rotY, ps_vel := vec 0 0 0,
                                      ps_hp := 100, ps_crouch := False, ps_deadUntil := Some 0,
                                      ps_updatedAt := now,
                                      ps_pingMs := numberOr (getp msg ''pingMs'') (ps_pingMs p)\<rparr>;
                          s = s\<lparr>playersCache := map_set clientId revived (playersCache s)\<rparr>
                      in appendEventInMem E (EvRespawn clientId spawn 100)
                           (KRespawned \<lparr>pn_id = clientId, pn_pos = ps_pos revived,
                              pn_rotY = ps_rotY revived, pn_vel = ps_vel revived,
                              pn_crouch = ps_crouch revived, pn_updatedAt = ps_updatedAt revived,
                              pn_pingMs = None\<rparr>) s
                    else
                      let next = \<lparr>ps_id = clientId, ps_name = name, ps_pos = pos, ps_rotY = rotY,
                                  ps_vel = vel, ps_hp = ps_hp p, ps_crouch = crouch,
                                  ps_deadUntil = Some (deadUntil0 p), ps_updatedAt = now,
                                  ps_pingMs = numberOr (getp msg ''pingMs'') (ps_pingMs p)\<rparr>
                      in enqueuePendingState
                           \<lparr>pn_id = clientId, pn_pos = pos, pn_rotY = rotY, pn_vel = vel,
                            pn_crouch = crouch, pn_updatedAt = now,
                            pn_pingMs = numberOr (getp msg ''pingMs'') (ps_pingMs p)\<rparr>
                           (s\<lparr>playersCache := map_set clientId next (playersCache s)\<rparr>)
                | None \<Rightarrow>
                    let next = \<lparr>ps_id = clientId, ps_name = name, ps_pos = pos, ps_rotY = rotY,
                                ps_vel = vel, ps_hp = 100, ps_crouch = crouch,
                                ps_deadUntil = Some 0, ps_updatedAt = now,
                                ps_pingMs = numberOr (getp msg ''pingMs'') None\<rparr>
                    in enqueuePendingState
                         \<lparr>pn_id = clientId, pn_pos = pos, pn_rotY = rotY, pn_vel = vel,
                          pn_crouch = crouch, pn_updatedAt = now,
                          pn_pingMs = numberOr (getp msg ''pingMs'') None\<rparr>
                         (s\<lparr>playersCache := map_set clientId next (playersCache s)\<rparr>))"

section \<open>Snowballs\<close>

text \<open>\<open>dt = T / steps\<close>.\<close>

definition simDt :: real where
  "simDt = snowballLifeSec (GAME CONFIG) / real (snowballSimSteps (GAME CONFIG))"

text \<open>The inner loop from step \<open>i\<close> on, with \<open>n\<close> iterations left.\<close>

fun hitScan :: "vec3 \<Rightarrow> vec3 \<Rightarrow> vec3 \<Rightarrow> nat \<Rightarrow> nat \<Rightarrow> real option" where
  "hitScan origin v0 target i 0 = None"
| "hitScan origin v0 target i (Suc n) =
     (let t = real i * simDt;
          pos = snowballPosAt origin v0 t
      in if vy pos < 0 then None
         else if intersectsPlayerCylinder pos target then Some t
         else hitScan origin v0 target (Suc i) n)"

definition hitTime :: "vec3 \<Rightarrow> vec3 \<Rightarrow> vec3 \<Rightarrow> real option" where
  "hitTime origin v0 target = hitScan origin v0 target 0 (Suc (snowballSimSteps (GAME CONFIG)))"

text \<open>
  The outer loop over the players. \<open>Date.now()\<close> is read only for a player without hit points.
\<close>

fun victimLoop ::
  "env \<Rightarrow> jsstr \<Rightarrow> vec3 \<Rightarrow> vec3 \<Rightarrow> snapshot list \<Rightarrow> (snapshot \<times> real) option \<Rightarrow>
   ('k, 'z) server_scheme \<Rightarrow> (snapshot \<times> real) option \<times> ('k, 'z) server_scheme" where
  "victimLoop E self origin v0 [] best s = (best, s)"
| "victimLoop E self origin v0 (p # ps) best s =
     (if ps_id p = self then victimLoop E self origin v0 ps best s
      else
        let (skip, s) = (if ps_hp p \<le> 0
                         then (let (now, s) = date_now E s in (deadUntil0 p > now, s))
                         else (False, s))
        in if skip then victimLoop E self origin v0 ps best s
           else
             let best = (case hitTime origin v0 (ps_pos p) of
                           None \<Rightarrow> best
                         | Some t \<Rightarrow> (case best of
                             None \<Rightarrow> Some (p, t)
                           | Some (q, u) \<Rightarrow> if t < u then Some (p, t) else best))
             in victimLoop E self origin v0 ps best s)"

text \<open>\<open>isUuidLike(msg.id) ? msg.id : crypto.randomUUID()\<close>.\<close>

definition shotIdOf :: "env \<Rightarrow> jsval \<Rightarrow> ('k, 'z) server_scheme \<Rightarrow> jsstr \<times> ('k, 'z) server_scheme" where
  "shotIdOf E v s =
     (case v of
        JStr i \<Rightarrow> if isUuidLike (JStr i) then (i, s) else random_uuid E s
      | _ \<Rightarrow> random_uuid E s)"

text \<open>The handler up to the broadcast of the shot.\<close>

definition serverHandleSnowball :: "env \<Rightarrow> jsstr \<Rightarrow> jsval \<Rightarrow> 'z game_scheme \<Rightarrow> 'z game_scheme" where
  "serverHandleSnowball E clientId msg s =
     (if \<not> isFiniteVec3 (getp msg ''dir'') then s
      else
        let (shotId, s) = shotIdOf E (getp msg ''id'') s;
            (seen, s) = seenShotBefore E shotId s
        in if seen then s
           else (case map_get (playersCache s) clientId of
                   None \<Rightarrow> s
                 | Some snap \<Rightarrow>
                     let dir = norm_vec (vecOf (getp msg ''dir''));
                         origin = vec (vx (ps_pos snap)) (vy (ps_pos snap) + 13 / 10) (vz (ps_pos snap))
                     in appendEventInMem E
                          (EvSnowball shotId clientId origin dir (snowballSpeed (GAME CONFIG)))
                          (KSnowResolve clientId shotId dir origin) s))"

text \<open>The knock-back a hit gives to its victim.\<close>

definition finalImpulse :: "vec3 \<Rightarrow> vec3" where
  "finalImpulse v0 =
     vec3Mul (vec3Normalize (vec (vx v0) (knockUp (GAME CONFIG)) (vz v0)))
       (knockbackForce (GAME CONFIG))"

text \<open>The damage of a hit, up to the broadcast of the hit.\<close>

definition applyHit ::
  "env \<Rightarrow> jsstr \<Rightarrow> jsstr \<Rightarrow> vec3 \<Rightarrow> snapshot \<Rightarrow> (int \<Rightarrow> int \<Rightarrow> int \<Rightarrow> cont) \<Rightarrow>
   'z game_scheme \<Rightarrow> 'z game_scheme" where
  "applyHit E attackerId shotId v0 victim k s =
     (let (now, s) = date_now E s;
          respawnAt = now + respawnMs (GAME CONFIG);
          newHp = max 0 (ps_hp victim - damage (GAME CONFIG));
          updatedVictim = victim\<lparr>ps_hp := newHp,
             ps_deadUntil := Some (if newHp = 0 then respawnAt else deadUntil0 victim),
             ps_updatedAt := now\<rparr>;
          s = s\<lparr>playersCache := map_set (ps_id victim) updatedVictim (playersCache s)\<rparr>
      in appendEventInMem E
           (EvHit attackerId (ps_id victim) (finalImpulse v0) newHp shotId)
           (k newHp respawnAt now) s)"

text \<open>The handler between the broadcast of the shot and the broadcast of the hit.\<close>

definition snowResolve ::
  "env \<Rightarrow> jsstr \<Rightarrow> jsstr \<Rightarrow> vec3 \<Rightarrow> vec3 \<Rightarrow> 'z game_scheme \<Rightarrow> 'z game_scheme" where
  "snowResolve E clientId shotId dir origin s =
     (let players = map_values (playersCache s);
          v0 = vec3Mul dir (snowballSpeed (GAME CONFIG));
          (best, s) = victimLoop E clientId origin v0 players None s
      in case best of
           None \<Rightarrow> s
         | Some (victim, t) \<Rightarrow>
             applyHit E clientId shotId v0 victim
               (\<lambda>newHp respawnAt now. KSnowDeath clientId shotId victim newHp respawnAt) s)"

text \<open>\<open>attacker?.name || "Unknown"\<close>.\<close>

definition attackerNameOf :: "snapshot option \<Rightarrow> jsval" where
  "attackerNameOf a =
     (case a of None \<Rightarrow> JStr (jslit ''Unknown'')
      | Some p \<Rightarrow> if truthy (ps_name p) then ps_name p else JStr (jslit ''Unknown''))"

text \<open>The handler after the broadcast of the hit.\<close>

definition snowDeath ::
  "env \<Rightarrow> jsstr \<Rightarrow> jsstr \<Rightarrow> snapshot \<Rightarrow> int \<Rightarrow> int \<Rightarrow> 'z game_scheme \<Rightarrow> js_err option \<times> 'z game_scheme"
where
  "snowDeath E clientId shotId victim newHp respawnAt s =
     (if newHp = 0 then
        let attackerName = attackerNameOf (map_get (playersCache s) clientId);
            (res, s) = recordKill E
              \<lparr>kq_attackerId = clientId, kq_attackerName = attackerName,
               kq_victimId = ps_id victim, kq_victimName = ps_name victim, kq_shotId = shotId\<rparr> s
        in case res of
             Inl e \<Rightarrow> (Some e, s)
           | Inr _ \<Rightarrow> (None, appendEventInMem E
               (EvDeath (ps_id victim) (ps_name victim) clientId attackerName shotId respawnAt)
               KDone s)
      else (None, s))"

section \<open>Lemmas on hit detection\<close>

lemma simDt_eq: "simDt = 1 / 20"
  by (simp add: simDt_def cfg_simps)

lemma clock_le: "clock_mono E \<Longrightarrow> i \<le> j \<Longrightarrow> e_now E i \<le> e_now E j"
  by (simp add: clock_mono_def)

text \<open>
  The specification of the simulation: \<open>t\<close> is the first sampling time at which the ball is
  inside the cylinder, and the ball has not been below the ground before.
\<close>

definition first_contact :: "vec3 \<Rightarrow> vec3 \<Rightarrow> vec3 \<Rightarrow> real \<Rightarrow> bool" where
  "first_contact origin v0 target t \<longleftrightarrow>
     (\<exists>i \<le> 60. t = real i / 20 \<and>
        intersectsPlayerCylinder (snowballPosAt origin v0 t) target \<and>
        (\<forall>j \<le> i. 0 \<le> vy (snowballPosAt origin v0 (real j / 20))) \<and>
        (\<forall>j < i. \<not> intersectsPlayerCylinder (snowballPosAt origin v0 (real j / 20)) target))"

lemma hitScan_iff:
  "hitScan origin v0 target i n = Some t \<longleftrightarrow>
     (\<exists>m \<ge> i. m < i + n \<and> t = real m * simDt \<and>
        intersectsPlayerCylinder (snowballPosAt origin v0 t) target \<and>
        (\<forall>j. i \<le> j \<and> j \<le> m \<longrightarrow> 0 \<le> vy (snowballPosAt origin v0 (real j * simDt))) \<and>
        (\<forall>j. i \<le> j \<and> j < m \<longrightarrow>
           \<not> intersectsPlayerCylinder (snowballPosAt origin v0 (real j * simDt)) target))"
  (is "?l i n \<longleftrightarrow> (\<exists>m \<ge> i. ?r i n m)")
proof (induction n arbitrary: i)
  case (Suc n)
  let ?p = "snowballPosAt origin v0 (real i * simDt)"
  consider "vy ?p < 0" | "0 \<le> vy ?p" "intersectsPlayerCylinder ?p target"
    | "0 \<le> vy ?p" "\<not> intersectsPlayerCylinder ?p target" by linarith
  then show ?case
  proof cases
    case 1
    then show ?thesis by (auto simp: not_le intro: exI [of _ i])
  next
    case 2
    have "m = i" if "m \<ge> i" "?r i (Suc n) m" for m
      using that 2(2) by (metis le_neq_implies_less order_refl)
    moreover have "?r i (Suc n) i" if "t = real i * simDt"
      using that 2 by (auto simp: dest: le_antisym)
    ultimately show ?thesis using 2 by auto
  next
    case 3
    have "(\<exists>m \<ge> i. ?r i (Suc n) m) \<longleftrightarrow> (\<exists>m \<ge> Suc i. ?r (Suc i) n m)"
    proof
      assume "\<exists>m \<ge> i. ?r i (Suc n) m"
      then obtain m where m: "m \<ge> i" "?r i (Suc n) m" by blast
      then have "m \<noteq> i" using 3(2) by auto
      then show "\<exists>m \<ge> Suc i. ?r (Suc i) n m" using m by (intro exI [of _ m]) auto
    next
      assume "\<exists>m \<ge> Suc i. ?r (Suc i) n m"
      then obtain m where m: "m \<ge> Suc i" "?r (Suc i) n m" by blast
      have "?r i (Suc n) m"
        using m 3 by (auto simp: not_less_eq_eq le_Suc_eq dest: le_antisym; metis le_antisym not_less_eq_eq)
      then show "\<exists>m \<ge> i. ?r i (Suc n) m" using m(1) by (intro exI [of _ m]) auto
    qed
    then show ?thesis using 3 Suc.IH [of "Suc i"] by simp
  qed
qed auto

lemma hitTime_iff: "hitTime origin v0 target = Some t \<longleftrightarrow> first_contact origin v0 target t"
  unfolding hitTime_def hitScan_iff first_contact_def
  by (auto simp: simDt_eq cfg_simps less_Suc_eq_le)

subsection \<open>The choice of the victim\<close>

text \<open>Who a ball of \<open>self\<close> may hit at time \<open>now\<close>.\<close>

definition targetable :: "int \<Rightarrow> jsstr \<Rightarrow> snapshot \<Rightarrow> bool" where
  "targetable now self p \<longleftrightarrow> ps_id p \<noteq> self \<and> (0 < ps_hp p \<or> deadUntil0 p \<le> now)"

lemma targetable_mono: "targetable t self p \<Longrightarrow> t \<le> t' \<Longrightarrow> targetable t' self p"
  by (auto simp: targetable_def)

definition better :: "snapshot \<Rightarrow> real option \<Rightarrow> (snapshot \<times> real) option \<Rightarrow> (snapshot \<times> real) option" where
  "better p h best =
     (case h of
        None \<Rightarrow> best
      | Some t \<Rightarrow> (case best of
          None \<Rightarrow> Some (p, t)
        | Some (q, u) \<Rightarrow> if t < u then Some (p, t) else best))"

text \<open>\<open>b\<close> is at most as late as \<open>u\<close>.\<close>

definition reaches :: "(snapshot \<times> real) option \<Rightarrow> real \<Rightarrow> bool" where
  "reaches b u \<longleftrightarrow> (\<exists>p t. b = Some (p, t) \<and> t \<le> u)"

lemma reaches_better: "h = Some u \<Longrightarrow> reaches (better p h best) u"
  by (auto simp: reaches_def better_def split: option.splits)

lemma reaches_better_mono: "reaches best u \<Longrightarrow> reaches (better p h best) u"
  by (auto simp: reaches_def better_def split: option.splits)

lemma victimLoop_Cons:
  "victimLoop E self origin v0 (p # ps) best s =
     (if ps_id p = self then victimLoop E self origin v0 ps best s
      else let s' = (if ps_hp p \<le> 0 then s\<lparr>clk := Suc (clk s)\<rparr> else s)
           in victimLoop E self origin v0 ps
                (if targetable (e_now E (clk s)) self p
                 then better p (hitTime origin v0 (ps_pos p)) best else best) s')"
  by (auto simp: date_now_def better_def targetable_def not_less Let_def)

declare victimLoop.simps(2) [simp del]

lemma victimLoop_state:
  "\<exists>n. snd (victimLoop E self origin v0 ps best s) = s\<lparr>clk := clk s + n\<rparr>"
proof (induction ps arbitrary: best s)
  case Nil
  show ?case by (simp add: exI [of _ 0])
next
  case (Cons p ps)
  have "\<exists>n. snd (victimLoop E self origin v0 ps b (s\<lparr>clk := Suc (clk s)\<rparr>)) = s\<lparr>clk := clk s + n\<rparr>" for b
    using Cons.IH [of b "s\<lparr>clk := Suc (clk s)\<rparr>"] by (auto intro: exI [of _ "Suc _"])
  then show ?case using Cons.IH by (auto simp: victimLoop_Cons Let_def)
qed

lemma victimLoop_from:
  assumes "clock_mono E" and "fst (victimLoop E self origin v0 ps best s) = Some (p, t)"
    and "best \<noteq> Some (p, t)"
  shows "p \<in> set ps \<and> targetable (e_now E (clk (snd (victimLoop E self origin v0 ps best s)))) self p \<and>
    hitTime origin v0 (ps_pos p) = Some t"
  using assms(2,3)
proof (induction ps arbitrary: best s)
  case (Cons q ps)
  let ?s = "if ps_hp q \<le> 0 then s\<lparr>clk := Suc (clk s)\<rparr> else s"
  let ?b = "if targetable (e_now E (clk s)) self q
            then better q (hitTime origin v0 (ps_pos q)) best else best"
  show ?case
  proof (cases "ps_id q = self")
    case True
    then show ?thesis using Cons by (auto simp: victimLoop_Cons)
  next
    case False
    then have eq: "victimLoop E self origin v0 (q # ps) best s = victimLoop E self origin v0 ps ?b ?s"
      by (simp add: victimLoop_Cons Let_def)
    show ?thesis
    proof (cases "?b = Some (p, t)")
      case True
      then have q: "q = p" "hitTime origin v0 (ps_pos p) = Some t" "targetable (e_now E (clk s)) self p"
        using Cons.prems(2) by (auto simp: better_def split: if_splits option.splits)
      obtain n where "snd (victimLoop E self origin v0 ps ?b ?s) = ?s\<lparr>clk := clk ?s + n\<rparr>"
        using victimLoop_state by blast
      then have "clk s \<le> clk (snd (victimLoop E self origin v0 ps ?b ?s))" by (simp split: if_splits)
      then show ?thesis
        unfolding eq using q targetable_mono clock_le [OF assms(1)] by fastforce
    next
      case False
      then show ?thesis using Cons unfolding eq by fastforce
    qed
  qed
qed simp

lemma victimLoop_reaches:
  assumes "reaches best u"
  shows "reaches (fst (victimLoop E self origin v0 ps best s)) u"
  using assms
  by (induction ps arbitrary: best s) (auto simp: victimLoop_Cons Let_def reaches_better_mono)

lemma victimLoop_min:
  assumes "clock_mono E" and "q \<in> set ps" and "targetable (e_now E (clk s)) self q"
    and "hitTime origin v0 (ps_pos q) = Some u"
  shows "reaches (fst (victimLoop E self origin v0 ps best s)) u"
  using assms(2,3)
proof (induction ps arbitrary: best s)
  case (Cons p ps)
  let ?s = "if ps_hp p \<le> 0 then s\<lparr>clk := Suc (clk s)\<rparr> else s"
  have later: "targetable (e_now E (clk ?s)) self q"
    using Cons.prems(2) clock_le [OF assms(1), of "clk s" "Suc (clk s)"] targetable_mono by auto
  show ?case
  proof (cases "p = q")
    case True
    then show ?thesis
      using Cons.prems(2) assms(4)
      by (auto simp: victimLoop_Cons Let_def targetable_def intro!: victimLoop_reaches reaches_better)
  next
    case False
    then show ?thesis
      using Cons.IH [OF _ later] Cons.IH [OF _ Cons.prems(2)] Cons.prems(1)
      by (auto simp: victimLoop_Cons Let_def)
  qed
qed simp

section \<open>Well-formed data\<close>

text \<open>
  What the server guarantees of every player it lists: the entry stands under its own
  identifier, the hit points are one of 0, 10, ..., 100, and the position is inside the bound
  that reported positions are checked against.
\<close>

definition snap_ok :: "jsstr \<Rightarrow> snapshot \<Rightarrow> bool" where
  "snap_ok k p \<longleftrightarrow>
     ps_id p = k \<and> 0 \<le> ps_hp p \<and> ps_hp p \<le> 100 \<and> 10 dvd ps_hp p \<and> \<not> outsideMap (ps_pos p)"

definition join_ok :: "snapshot \<Rightarrow> bool" where
  "join_ok p \<longleftrightarrow> snap_ok (ps_id p) p \<and> ps_hp p = 100 \<and> (\<exists>n. ps_name p = JStr n \<and> cleanName n)"

definition pend_ok :: "jsstr \<Rightarrow> pending_state \<Rightarrow> bool" where
  "pend_ok k q \<longleftrightarrow> pn_id q = k \<and> \<not> outsideMap (pn_pos q)"

fun ev_ok :: "ev_body \<Rightarrow> bool" where
  "ev_ok (EvJoin p) \<longleftrightarrow> join_ok p"
| "ev_ok (EvLeave k nm) \<longleftrightarrow> True"
| "ev_ok (EvChat k nm txt) \<longleftrightarrow> txt \<noteq> [] \<and> length txt \<le> 80"
| "ev_ok (EvState k pos rotY vel crouch) \<longleftrightarrow> \<not> outsideMap pos"
| "ev_ok (EvSnowball shot owner origin dir speed) \<longleftrightarrow>
     speed = 25 \<and> (vec3Len dir = 1 \<or> vec3Len dir = 0)"
| "ev_ok (EvHit attacker victim impulse victimHp shotId) \<longleftrightarrow>
     attacker \<noteq> victim \<and> 0 \<le> victimHp \<and> victimHp \<le> 90 \<and> 10 dvd victimHp \<and> vec3Len impulse = 26"
| "ev_ok (EvRename k nm) \<longleftrightarrow> cleanName nm"
| "ev_ok (EvDeath victim victimName attacker attackerName shotId respawnAt) \<longleftrightarrow> attacker \<noteq> victim"
| "ev_ok (EvRespawn k pos hp) \<longleftrightarrow> hp = 100 \<and> \<not> outsideMap pos"

fun cont_ok :: "cont \<Rightarrow> bool" where
  "cont_ok (KHello sock snap now) \<longleftrightarrow> join_ok snap"
| "cont_ok (KRespawned q) \<longleftrightarrow> pend_ok (pn_id q) q"
| "cont_ok (KSnowDeath clientId shotId victim newHp respawnAt) \<longleftrightarrow> ps_id victim \<noteq> clientId"
| "cont_ok (KBotResolve bid snap rest now shotId dir origin) \<longleftrightarrow> snap_ok bid snap"
| "cont_ok (KBotDeath bid snap rest now shotId victim newHp respawnAt shotAt) \<longleftrightarrow>
     snap_ok bid snap \<and> ps_id victim \<noteq> bid"
| "cont_ok (KBotShot bid snap rest now shotAt) \<longleftrightarrow> snap_ok bid snap"
| "cont_ok _ \<longleftrightarrow> True"

text \<open>What a client may rely on in a message of the server.\<close>

fun msg_ok :: "server_msg \<Rightarrow> bool" where
  "msg_ok (MsgSnapshot w ps n) \<longleftrightarrow> (\<forall>p \<in> set ps. snap_ok (ps_id p) p) \<and> distinct (map ps_id ps)"
| "msg_ok (MsgEvent e) \<longleftrightarrow> ev_ok (ev_of e)"
| "msg_ok (MsgStates tm qs) \<longleftrightarrow> (\<forall>q \<in> set qs. pend_ok (pn_id q) q) \<and> distinct (map pn_id qs)"
| "msg_ok _ \<longleftrightarrow> True"

fun task_ok :: "cont task \<Rightarrow> bool" where
  "task_ok (TBroadcast msg k) \<longleftrightarrow> msg_ok msg \<and> cont_ok k"
| "task_ok (TBroadcastDrop msg) \<longleftrightarrow> msg_ok msg"
| "task_ok (TSend sock msg k) \<longleftrightarrow> msg_ok msg \<and> cont_ok k"
| "task_ok (TCont k) \<longleftrightarrow> cont_ok k"

text \<open>
  The invariant of the game state: the event stream is well formed, all data is, everything that
  is on its way is, and every connected player is listed.
\<close>

definition ginv :: "env \<Rightarrow> 'z game_scheme \<Rightarrow> bool" where
  "ginv E s \<longleftrightarrow> stream_ok E s \<and>
     map_ok (playersCache s) \<and> map_all snap_ok (playersCache s) \<and>
     map_ok (pendingStates s) \<and> map_all pend_ok (pendingStates s) \<and>
     (\<forall>e \<in> set (events s). ev_ok (ev_of e)) \<and>
     (\<forall>t \<in> set (tasks s). task_ok t) \<and>
     (\<forall>(sock, m) \<in> set (outbox s). msg_ok m) \<and>
     (\<forall>k. map_has (clients s) k \<longrightarrow> map_has (playersCache s) k)"

interpretation cache: entry_inv snap_ok "\<lambda>tm. ev_ok"
  by unfold_locales (auto simp: snap_ok_def join_ok_def)

lemma values_ids: "map_all snap_ok c \<Longrightarrow> map ps_id (map_values c) = map_keys c"
  by (induction c) (auto simp: map_values_def map_keys_def map_all_def snap_ok_def)

lemma snapshot_msg_ok: "map_ok c \<Longrightarrow> map_all snap_ok c \<Longrightarrow> msg_ok (MsgSnapshot w (map_values c) n)"
  by (auto simp: values_ids map_ok_def dest!: map_all_valuesD) (auto simp: snap_ok_def)

lemma states_msg_ok: "map_ok c \<Longrightarrow> map_all pend_ok c \<Longrightarrow> msg_ok (MsgStates tm (map_values c))"
proof -
  assume a: "map_ok c" "map_all pend_ok c"
  have "map pn_id (map_values c) = map_keys c"
    using a(2) by (induction c) (auto simp: map_values_def map_keys_def map_all_def pend_ok_def)
  then show ?thesis
    using a by (auto simp: map_ok_def dest!: map_all_valuesD) (auto simp: pend_ok_def)
qed

text \<open>The invariant looks at the server part of the state only, and at the clock monotonically.\<close>

lemma ginv_frame:
  assumes "ginv E s" "clock_mono E" "clk s \<le> clk t" "latestSeq t = latestSeq s"
    "lastSeenSeq t = lastSeenSeq s" "events t = events s"
    "map_ok (playersCache t)" "map_all snap_ok (playersCache t)"
    "map_ok (pendingStates t)" "map_all pend_ok (pendingStates t)"
    "\<forall>x \<in> set (tasks t). task_ok x" "\<forall>(sock, m) \<in> set (outbox t). msg_ok m"
    "\<forall>k. map_has (clients t) k \<longrightarrow> map_has (playersCache t) k"
  shows "ginv E t"
proof -
  have "\<forall>e \<in> set (events s). ev_at e \<le> e_now E (clk t)"
    using assms(1) clock_le [OF assms(2,3)] by (force simp: ginv_def stream_ok_def)
  then show ?thesis
    using assms by (simp add: ginv_def stream_ok_def)
qed

lemma ginv_fields:
  assumes "ginv E s"
  shows "stream_ok E s" "map_ok (playersCache s)" "map_all snap_ok (playersCache s)"
    "map_ok (pendingStates s)" "map_all pend_ok (pendingStates s)"
    "\<forall>x \<in> set (tasks s). task_ok x" "\<forall>(sock, m) \<in> set (outbox s). msg_ok m"
    "\<forall>k. map_has (clients s) k \<longrightarrow> map_has (playersCache s) k"
    "\<forall>e \<in> set (events s). ev_ok (ev_of e)"
  using assms by (simp_all add: ginv_def)

text \<open>A leave is appended after the client has been removed.\<close>

definition leave_ready :: "ev_body \<Rightarrow> (jsstr, nat) jsmap \<Rightarrow> bool" where
  "leave_ready ev cl \<longleftrightarrow> (\<forall>k nm. ev = EvLeave k nm \<longrightarrow> \<not> map_has cl k)"

lemma append_ginv:
  assumes "ginv E s" "clock_mono E" "ev_ok ev" "cont_ok k" "leave_ready ev (clients s)"
  shows "ginv E (appendEventInMem E ev k s)"
proof -
  let ?e = "\<lparr>ev_seq = Suc (latestSeq s), ev_at = e_now E (clk s), ev_of = ev\<rparr>"
  have "\<forall>e \<in> set (pruneEvents (e_now E (clk s)) (events s @ [?e])). ev_ok (ev_of e)"
  proof
    fix e assume "e \<in> set (pruneEvents (e_now E (clk s)) (events s @ [?e]))"
    then have "e \<in> set (events s @ [?e])"
      unfolding pruneEvents_def by (metis pruneLoop_suffix Un_iff set_append)
    then show "ev_ok (ev_of e)" using assms(1,3) by (auto simp: ginv_def)
  qed
  moreover have "\<forall>k. map_has (clients s) k \<longrightarrow> map_has (applyBody (e_now E (clk s)) ev (playersCache s)) k"
    using assms(1,5) by (cases ev) (auto simp: ginv_def leave_ready_def applyBody_has)
  ultimately show ?thesis
    using assms append_stream_ok [OF ginv_fields(1) [OF assms(1)] assms(2), of ev k]
    by (simp add: ginv_def cache.apply_inv applyBody_ok)
qed

section \<open>Preservation\<close>

text \<open>Writing a well-formed entry, and reading the clock, the random numbers or identifiers.\<close>

lemma ginv_write:
  assumes "ginv E s" "clock_mono E" "clk s \<le> clk t" "latestSeq t = latestSeq s"
    "lastSeenSeq t = lastSeenSeq s" "events t = events s" "snap_ok k p"
    "playersCache t = map_set k p (playersCache s)" "pendingStates t = pendingStates s"
    "tasks t = tasks s" "outbox t = outbox s" "clients t = clients s"
  shows "ginv E t"
  using ginv_fields [OF assms(1)] assms(7-)
  by (intro ginv_frame [OF assms(1-6)]) (auto intro: map_all_set)

lemma ginv_keep:
  assumes "ginv E s" "clock_mono E" "clk s \<le> clk t" "latestSeq t = latestSeq s"
    "lastSeenSeq t = lastSeenSeq s" "events t = events s"
    "playersCache t = playersCache s" "pendingStates t = pendingStates s"
    "tasks t = tasks s" "outbox t = outbox s" "clients t = clients s"
  shows "ginv E t"
  using ginv_fields [OF assms(1)] assms(7-)
  by (intro ginv_frame [OF assms(1-6)]) auto

lemma ginv_task:
  assumes "ginv E s" "clock_mono E" "clk s \<le> clk t" "latestSeq t = latestSeq s"
    "lastSeenSeq t = lastSeenSeq s" "events t = events s"
    "playersCache t = playersCache s" "pendingStates t = pendingStates s"
    "tasks t = tasks s @ [x]" "task_ok x" "outbox t = outbox s" "clients t = clients s"
  shows "ginv E t"
  using ginv_fields [OF assms(1)] assms(7-)
  by (intro ginv_frame [OF assms(1-6)]) auto

lemma ginv_enqueue:
  assumes "ginv E s" "clock_mono E" "pend_ok (pn_id q) q"
  shows "ginv E (enqueuePendingState q s)"
  using ginv_fields [OF assms(1)] assms(3)
  by (intro ginv_frame [OF assms(1,2)]) (auto simp: enqueuePendingState_def intro: map_all_set)

lemma spawnPos_eq:
  "spawnPos E s = (vec ((e_rand E (rnd s) - 1 / 2) * 40) 0 ((e_rand E (Suc (rnd s)) - 1 / 2) * 40),
     s\<lparr>rnd := Suc (Suc (rnd s))\<rparr>)"
  by (simp add: spawnPos_def math_random_def)

lemma spawn_inside:
  assumes "rand_unit E"
  shows "\<bar>vx (fst (spawnPos E s))\<bar> \<le> 20 \<and> vy (fst (spawnPos E s)) = 0 \<and> \<bar>vz (fst (spawnPos E s))\<bar> \<le> 20"
proof -
  have "\<bar>(e_rand E i - 1 / 2) * 40\<bar> \<le> 20" for i
    using assms by (auto simp: rand_unit_def abs_le_iff dest!: spec [of _ i])
  then show ?thesis by (simp add: spawnPos_eq)
qed

lemma spawn_not_outside: "rand_unit E \<Longrightarrow> \<not> outsideMap (fst (spawnPos E s))"
  using spawn_inside [of E s] by (auto simp: outsideMap_def cfg_simps)

lemma serverOnHello_eq:
  "serverOnHello E name s =
     (case clampName name of
        Inl e \<Rightarrow> (Inl e, s\<lparr>clk := Suc (clk s), rnd := Suc (Suc (rnd s)), uid := Suc (uid s)\<rparr>)
      | Inr nm \<Rightarrow>
          (Inr \<lparr>ps_id = e_uuid E (uid s), ps_name = JStr nm, ps_pos = fst (spawnPos E s), ps_rotY = 0,
                ps_vel = vec 0 0 0, ps_hp = 100, ps_crouch = False, ps_deadUntil = Some 0,
                ps_updatedAt = e_now E (clk s), ps_pingMs = None\<rparr>,
           s\<lparr>clk := Suc (clk s), rnd := Suc (Suc (rnd s)), uid := Suc (uid s)\<rparr>))"
  by (simp add: serverOnHello_def date_now_def spawnPos_eq random_uuid_def split: sum.split)

lemma serverOnHello_join:
  assumes "rand_unit E" "serverOnHello E name s = (Inr snap, s')"
  shows "join_ok snap"
  using assms spawn_not_outside [OF assms(1), of s]
  by (auto simp: serverOnHello_eq join_ok_def snap_ok_def clampName_clean split: sum.splits)

lemma serverOnHello_ginv:
  assumes "ginv E s" "clock_mono E"
  shows "ginv E (snd (serverOnHello E name s))"
  by (rule ginv_keep [OF assms]) (auto simp: serverOnHello_eq split: sum.splits)

lemma rename_ginv:
  assumes "ginv E s" "clock_mono E"
  shows "ginv E (snd (serverHandleRename E c nm s))"
proof (cases "clampName nm")
  case (Inl e)
  then show ?thesis using assms by (simp add: serverHandleRename_def)
next
  case (Inr n)
  then have "n \<noteq> []" "cleanName n" using clampName_nonempty clampName_clean by blast+
  show ?thesis
  proof (cases "map_get (playersCache s) c")
    case None
    then show ?thesis
      using Inr \<open>n \<noteq> []\<close> \<open>cleanName n\<close> assms
      by (simp add: serverHandleRename_def append_ginv leave_ready_def)
  next
    case (Some p)
    then have "snap_ok c p" using map_allD ginv_fields(3) [OF assms(1)] by metis
    let ?p = "p\<lparr>ps_name := JStr n, ps_updatedAt := e_now E (clk s)\<rparr>"
    have "snap_ok c ?p" using \<open>snap_ok c p\<close> by (simp add: snap_ok_def)
    then have "ginv E (s\<lparr>clk := Suc (clk s), playersCache := map_set c ?p (playersCache s)\<rparr>)"
      by (intro ginv_write [OF assms, where k = c and p = ?p]) auto
    then show ?thesis
      using Inr Some \<open>n \<noteq> []\<close> \<open>cleanName n\<close> assms(2)
      by (simp add: serverHandleRename_def date_now_def append_ginv leave_ready_def)
  qed
qed

lemma chat_ginv:
  assumes "ginv E s" "clock_mono E"
  shows "ginv E (snd (serverHandleChat E c nm msg s))"
  using assms
  by (auto simp: serverHandleChat_def leave_ready_def clampChat_length intro!: append_ginv split: sum.split)

text \<open>The reports the state handler accepts.\<close>

definition validState :: "jsval \<Rightarrow> bool" where
  "validState msg \<longleftrightarrow> isFiniteVec3 (getp msg ''pos'') \<and> isFinite (getp msg ''rotY'') \<and>
     \<not> outsideMap (vecOf (getp msg ''pos''))"

text \<open>The entry a report writes for a player that is alive (or unknown).\<close>

definition reported :: "jsstr \<Rightarrow> jsval \<Rightarrow> jsval \<Rightarrow> int \<Rightarrow> snapshot option \<Rightarrow> snapshot" where
  "reported clientId name msg now prev =
     \<lparr>ps_id = clientId, ps_name = name, ps_pos = vecOf (getp msg ''pos''),
      ps_rotY = numOf (getp msg ''rotY''),
      ps_vel = (if isFiniteVec3 (getp msg ''vel'') then vecOf (getp msg ''vel'') else vec 0 0 0),
      ps_hp = (case prev of None \<Rightarrow> 100 | Some p \<Rightarrow> ps_hp p),
      ps_crouch = truthy (getp msg ''crouch''),
      ps_deadUntil = Some (case prev of None \<Rightarrow> 0 | Some p \<Rightarrow> deadUntil0 p), ps_updatedAt = now,
      ps_pingMs = numberOr (getp msg ''pingMs'') (Option.bind prev ps_pingMs)\<rparr>"

text \<open>The pending state that goes with an entry.\<close>

definition pendingOf :: "snapshot \<Rightarrow> pending_state" where
  "pendingOf p = \<lparr>pn_id = ps_id p, pn_pos = ps_pos p, pn_rotY = ps_rotY p, pn_vel = ps_vel p,
     pn_crouch = ps_crouch p, pn_updatedAt = ps_updatedAt p, pn_pingMs = ps_pingMs p\<rparr>"

lemma state_invalid: "\<not> validState msg \<Longrightarrow> serverHandleState E c nm msg s = s"
  by (auto simp: serverHandleState_def validState_def Let_def)

lemma state_frozen:
  assumes "map_get (playersCache s) c = Some p" "ps_hp p \<le> 0" "e_now E (clk s) < deadUntil0 p"
    "validState msg"
  shows "serverHandleState E c nm msg s = s\<lparr>clk := Suc (clk s)\<rparr>"
  using assms by (simp add: serverHandleState_def validState_def date_now_def Let_def)

lemma state_alive:
  assumes "validState msg"
    and "\<And>p. map_get (playersCache s) c = Some p \<Longrightarrow> 0 < ps_hp p"
  shows "serverHandleState E c nm msg s =
     (let p = reported c nm msg (e_now E (clk s)) (map_get (playersCache s) c)
      in enqueuePendingState (pendingOf p)
           (s\<lparr>clk := Suc (clk s), playersCache := map_set c p (playersCache s)\<rparr>))"
  using assms
  by (cases "map_get (playersCache s) c")
    (auto simp: serverHandleState_def validState_def date_now_def Let_def reported_def pendingOf_def)

text \<open>The entry a report writes for a player that is due to come back.\<close>

definition revivedEntry :: "env \<Rightarrow> jsval \<Rightarrow> ('k, 'z) server_scheme \<Rightarrow> snapshot \<Rightarrow> snapshot" where
  "revivedEntry E msg s p =
     p\<lparr>ps_pos := fst (spawnPos E s), ps_rotY := numOf (getp msg ''rotY''), ps_vel := vec 0 0 0,
       ps_hp := 100, ps_crouch := False, ps_deadUntil := Some 0, ps_updatedAt := e_now E (clk s),
       ps_pingMs := numberOr (getp msg ''pingMs'') (ps_pingMs p)\<rparr>"

lemma state_respawn:
  assumes "validState msg" "map_get (playersCache s) c = Some p" "ps_hp p \<le> 0"
    "deadUntil0 p \<le> e_now E (clk s)"
  shows "serverHandleState E c nm msg s =
     (let r = revivedEntry E msg s p
      in appendEventInMem E (EvRespawn c (ps_pos r) 100)
           (KRespawned ((pendingOf r)\<lparr>pn_id := c, pn_pingMs := None\<rparr>))
           (s\<lparr>clk := Suc (clk s), rnd := Suc (Suc (rnd s)),
              playersCache := map_set c r (playersCache s)\<rparr>))"
  using assms
  by (simp add: serverHandleState_def validState_def date_now_def Let_def revivedEntry_def
      pendingOf_def spawnPos_eq)

lemma reported_ok:
  assumes "validState msg" "\<And>p. prev = Some p \<Longrightarrow> snap_ok c p"
  shows "snap_ok c (reported c nm msg now prev)"
  using assms by (auto simp: reported_def snap_ok_def validState_def split: option.split)

lemma state_ginv:
  assumes "ginv E s" "clock_mono E" "rand_unit E"
  shows "ginv E (serverHandleState E c nm msg s)"
proof -
  have ok: "snap_ok c p" if "map_get (playersCache s) c = Some p" for p
    using map_allD [OF ginv_fields(3) [OF assms(1)] that] .
  consider (invalid) "\<not> validState msg"
    | (alive) "validState msg" "\<And>p. map_get (playersCache s) c = Some p \<Longrightarrow> 0 < ps_hp p"
    | (frozen) p where "validState msg" "map_get (playersCache s) c = Some p" "ps_hp p \<le> 0"
        "e_now E (clk s) < deadUntil0 p"
    | (due) p where "validState msg" "map_get (playersCache s) c = Some p" "ps_hp p \<le> 0"
        "deadUntil0 p \<le> e_now E (clk s)"
    by (metis linorder_not_le)
  then show ?thesis
  proof cases
    case invalid
    then show ?thesis using assms(1) by (simp add: state_invalid)
  next
    case alive
    let ?p = "reported c nm msg (e_now E (clk s)) (map_get (playersCache s) c)"
    have p: "snap_ok c ?p" using reported_ok [OF alive(1)] ok by blast
    then have "pend_ok (pn_id (pendingOf ?p)) (pendingOf ?p)"
      by (simp add: pend_ok_def pendingOf_def snap_ok_def)
    moreover have "ginv E (s\<lparr>clk := Suc (clk s), playersCache := map_set c ?p (playersCache s)\<rparr>)"
      by (rule ginv_write [OF assms(1,2), where k = c and p = ?p]) (simp_all add: p)
    moreover have "serverHandleState E c nm msg s = enqueuePendingState (pendingOf ?p)
        (s\<lparr>clk := Suc (clk s), playersCache := map_set c ?p (playersCache s)\<rparr>)"
      using alive by (subst state_alive) (simp_all add: Let_def)
    ultimately show ?thesis
      using assms(2) by (simp add: ginv_enqueue)
  next
    case frozen
    then show ?thesis
      using ginv_keep [OF assms(1,2), of "s\<lparr>clk := Suc (clk s)\<rparr>"] by (simp add: state_frozen)
  next
    case due
    let ?r = "revivedEntry E msg s p"
    have r: "snap_ok c ?r" "\<not> outsideMap (ps_pos ?r)"
      using ok [OF due(2)] spawn_not_outside [OF assms(3)] by (simp_all add: snap_ok_def revivedEntry_def)
    then have "cont_ok (KRespawned ((pendingOf ?r)\<lparr>pn_id := c, pn_pingMs := None\<rparr>))"
      by (simp add: pend_ok_def pendingOf_def)
    moreover have "ginv E (s\<lparr>clk := Suc (clk s), rnd := Suc (Suc (rnd s)),
              playersCache := map_set c ?r (playersCache s)\<rparr>)"
      by (rule ginv_write [OF assms(1,2), where k = c and p = ?r]) (simp_all add: r)
    ultimately show ?thesis
      using assms(2) r state_respawn [OF due] by (simp add: Let_def append_ginv leave_ready_def)
  qed
qed

lemma finalImpulse_length: "vec3Len (finalImpulse v0) = 26"
proof -
  have "vec (vx v0) (12 / 10) (vz v0) \<noteq> vec 0 0 0"
    by (simp add: vec_eq_iff)
  then show ?thesis
    using vec3Len_norm [of "vec (vx v0) (12 / 10) (vz v0)"]
    by (simp add: finalImpulse_def vec3Len_mul norm_vec_eq_normalize [symmetric] cfg_simps)
qed

lemma seenShotBefore_cases:
  "seenShotBefore E i s =
     (let now = e_now E (clk s)
      in if \<exists>ex. map_get (seenShots s) i = Some ex \<and> ex \<noteq> 0 \<and> now < ex
         then (True, s\<lparr>clk := Suc (clk s)\<rparr>)
         else (False, s\<lparr>clk := Suc (clk s),
                seenShots := map_set i (now + 10000) (seenShots s)\<rparr>))"
  by (auto simp: seenShotBefore_def date_now_def cfg_simps Let_def split: option.split)

lemma snowball_ginv:
  assumes "ginv E s" "clock_mono E"
  shows "ginv E (serverHandleSnowball E c msg s)"
proof -
  obtain i s1 where c: "shotIdOf E (getp msg ''id'') s = (i, s1)" by (metis surj_pair)
  have s1: "s1 = s \<or> s1 = s\<lparr>uid := Suc (uid s)\<rparr>"
    using c by (cases "getp msg ''id''") (auto simp: shotIdOf_def random_uuid_def split: if_splits)
  obtain b s2 where b: "seenShotBefore E i s1 = (b, s2)" by (metis surj_pair)
  have g: "ginv E s2"
    using s1 b by (intro ginv_keep [OF assms]) (auto simp: seenShotBefore_cases Let_def split: if_splits)
  have dir: "vec3Len (norm_vec v) = 1 \<or> vec3Len (norm_vec v) = 0" for v
    by (simp add: vec3Len_norm)
  have speed: "snowballSpeed (GAME CONFIG) = 25" by (simp add: cfg_simps)
  have "ginv E (appendEventInMem E (EvSnowball i c o1 (norm_vec v) (snowballSpeed (GAME CONFIG)))
      (KSnowResolve c i (norm_vec v) o1) s2)" for o1 v
    using dir speed by (intro append_ginv g assms(2)) (simp_all add: leave_ready_def)
  then show ?thesis
    using assms(1) g by (simp add: serverHandleSnowball_def c b Let_def split: option.split)
qed

text \<open>The entry a hit at time \<open>now\<close> leaves of its victim.\<close>

definition hitEntry :: "int \<Rightarrow> snapshot \<Rightarrow> snapshot" where
  "hitEntry now v =
     v\<lparr>ps_hp := max 0 (ps_hp v - 10),
       ps_deadUntil := Some (if max 0 (ps_hp v - 10) = 0 then now + 3000 else deadUntil0 v),
       ps_updatedAt := now\<rparr>"

lemma hitEntry_ok: "snap_ok k v \<Longrightarrow> snap_ok k (hitEntry now v)"
  by (auto simp: snap_ok_def hitEntry_def max_def)

lemma applyHit_eq:
  "applyHit E a shot v0 v k s =
     (let now = e_now E (clk s)
      in appendEventInMem E (EvHit a (ps_id v) (finalImpulse v0) (ps_hp (hitEntry now v)) shot)
           (k (ps_hp (hitEntry now v)) (now + 3000) now)
           (s\<lparr>clk := Suc (clk s),
              playersCache := map_set (ps_id v) (hitEntry now v) (playersCache s)\<rparr>))"
proof -
  have c: "damage (GAME CONFIG) = 10" "respawnMs (GAME CONFIG) = 3000" by (simp_all add: cfg_simps)
  show ?thesis
    unfolding applyHit_def date_now_def Let_def c hitEntry_def by simp
qed

lemma applyHit_ginv:
  assumes "ginv E s" "clock_mono E" "snap_ok (ps_id v) v" "ps_id v \<noteq> a"
    "\<And>hp r now. cont_ok (k hp r now)"
  shows "ginv E (applyHit E a shot v0 v k s)"
proof -
  let ?u = "hitEntry (e_now E (clk s)) v"
  have hp: "0 \<le> ps_hp ?u" "ps_hp ?u \<le> 90" "10 dvd ps_hp ?u"
    using assms(3) by (auto simp: snap_ok_def hitEntry_def max_def)
  have "ginv E (s\<lparr>clk := Suc (clk s), playersCache := map_set (ps_id v) ?u (playersCache s)\<rparr>)"
    by (rule ginv_write [OF assms(1,2), where k = "ps_id v" and p = ?u])
      (simp_all add: hitEntry_ok assms(3))
  then show ?thesis
    unfolding applyHit_eq Let_def
    using hp assms(2,4,5) by (intro append_ginv) (auto simp: leave_ready_def finalImpulse_length)
qed

text \<open>The outcome of the scan over the players, for shooters of both kinds.\<close>

lemma victimLoop_result:
  assumes "ginv E s" "clock_mono E"
    "victimLoop E self origin v0 (map_values (playersCache s)) None s = (b, s')"
  obtains (miss) n where "b = None" "s' = s\<lparr>clk := clk s + n\<rparr>" "ginv E s'"
  | (hit) n p t where "b = Some (p, t)" "s' = s\<lparr>clk := clk s + n\<rparr>" "ginv E s'"
      "snap_ok (ps_id p) p" "ps_id p \<noteq> self" "map_get (playersCache s) (ps_id p) = Some p"
proof -
  obtain n where n: "s' = s\<lparr>clk := clk s + n\<rparr>"
    using victimLoop_state [of E self origin v0 _ None s] assms(3) by (metis snd_conv)
  then have g: "ginv E s'" by (intro ginv_keep [OF assms(1,2)]) simp_all
  show thesis
  proof (cases b)
    case None
    then show thesis using miss n g by blast
  next
    case (Some pt)
    then obtain p t where b: "b = Some (p, t)" by (cases pt) auto
    have "p \<in> set (map_values (playersCache s)) \<and> targetable (e_now E (clk s')) self p"
      using victimLoop_from [OF assms(2), of self origin v0 "map_values (playersCache s)" None s p t]
        assms(3) b by simp
    then have p: "p \<in> set (map_values (playersCache s))" "ps_id p \<noteq> self"
      by (simp_all add: targetable_def)
    then obtain k where k: "(k, p) \<in> set (playersCache s)" by (auto simp: map_values_in)
    then have "snap_ok k p" using ginv_fields(3) [OF assms(1)] by (auto simp: map_all_def)
    then have "ps_id p = k" by (simp add: snap_ok_def)
    then show thesis
      using hit [OF b n g] \<open>snap_ok k p\<close> p k map_get_iff [OF ginv_fields(2) [OF assms(1)]] by simp
  qed
qed

lemma snowResolve_ginv:
  assumes "ginv E s" "clock_mono E"
  shows "ginv E (snowResolve E c shot dir origin s)"
proof -
  let ?v0 = "vec3Mul dir (snowballSpeed (GAME CONFIG))"
  obtain b s' where r: "victimLoop E c origin ?v0 (map_values (playersCache s)) None s = (b, s')"
    by (metis surj_pair)
  from assms r show ?thesis
  proof (cases rule: victimLoop_result)
    case miss
    then show ?thesis using r by (simp add: snowResolve_def)
  next
    case (hit n p t)
    have "ginv E (applyHit E c shot ?v0 p (\<lambda>newHp respawnAt now. KSnowDeath c shot p newHp respawnAt) s')"
      using hit by (intro applyHit_ginv assms(2)) simp_all
    then show ?thesis using r hit(1) by (simp add: snowResolve_def)
  qed
qed

lemma recordKill_ginv:
  assumes "ginv E s" "clock_mono E" "recordKill E q s = (res, s')"
  shows "ginv E s'"
proof -
  have t: "server.truncate s' = (server.truncate s)\<lparr>uid := Suc (uid s), clk := Suc (clk s)\<rparr>"
    using recordKill_frame [OF assms(3)] .
  show ?thesis
    using t by (intro ginv_keep [OF assms(1,2)]) (auto simp: server.defs)
qed

lemma snowDeath_ginv:
  assumes "ginv E s" "clock_mono E" "ps_id v \<noteq> c"
  shows "ginv E (snd (snowDeath E c shot v hp r s))"
proof -
  let ?q = "\<lparr>kq_attackerId = c, kq_attackerName = attackerNameOf (map_get (playersCache s) c),
               kq_victimId = ps_id v, kq_victimName = ps_name v, kq_shotId = shot\<rparr>"
  obtain res s' where q: "recordKill E ?q s = (res, s')" by (metis surj_pair)
  have "ginv E s'" using recordKill_ginv [OF assms(1,2) q] .
  then show ?thesis
    using q assms by (auto simp: snowDeath_def leave_ready_def intro!: append_ginv split: sum.split)
qed

section \<open>The life of a player\<close>

text \<open>
  The contract of the damage and respawn rules, as a machine of its own: a player is alive with a
  number of lives left (ten hit points each) or dead until a time.
\<close>

datatype life = Alive nat | Dead int

fun lifeHit :: "int \<Rightarrow> life \<Rightarrow> life" where
  "lifeHit now (Alive n) = (if n \<le> 1 then Dead (now + 3000) else Alive (n - 1))"
| "lifeHit now (Dead t) = Dead (now + 3000)"

fun lifeReport :: "int \<Rightarrow> life \<Rightarrow> life" where
  "lifeReport now (Alive n) = Alive n"
| "lifeReport now (Dead t) = (if t \<le> now then Alive 10 else Dead t)"

definition lifeOf :: "snapshot \<Rightarrow> life" where
  "lifeOf p = (if 0 < ps_hp p then Alive (nat (ps_hp p div 10)) else Dead (deadUntil0 p))"

lemma lifeOf_hit:
  assumes "snap_ok k v"
  shows "lifeOf (hitEntry now v) = lifeHit now (lifeOf v)"
proof -
  obtain h where h: "ps_hp v = 10 * h" "0 \<le> h" using assms by (auto simp: snap_ok_def elim!: dvdE)
  have d: "(10 * h - 10) div 10 = h - 1" by presburger
  consider "h = 0" | "h = 1" | "2 \<le> h" using h(2) by linarith
  then show ?thesis
    by cases (simp_all add: lifeOf_def hitEntry_def deadUntil0_def h d nat_diff_distrib' max_def)
qed

lemma hitEntry_id [simp]: "ps_id (hitEntry now v) = ps_id v"
  by (simp add: hitEntry_def)

text \<open>The broadcast of the hit changes the time stamp of the entry only.\<close>

lemma applyHit_get:
  "map_get (playersCache (applyHit E a shot v0 v k s)) x =
     (if x = ps_id v
      then Some ((hitEntry (e_now E (clk s)) v)\<lparr>ps_updatedAt := e_now E (Suc (clk s))\<rparr>)
      else map_get (playersCache s) x)"
  by (simp add: applyHit_eq Let_def updPlayer_get)

lemma lifeOf_updatedAt [simp]: "lifeOf (p\<lparr>ps_updatedAt := t\<rparr>) = lifeOf p"
  by (simp add: lifeOf_def deadUntil0_def)

text \<open>
  Claim C10. A hit follows the life machine: the victim loses one life, dies with the last one and
  is due three seconds later; every other entry of the player table is untouched.
\<close>

theorem hit_refines_life:
  assumes "snap_ok (ps_id v) v"
  shows "map_option lifeOf (map_get (playersCache (applyHit E a shot v0 v k s)) (ps_id v)) =
           Some (lifeHit (e_now E (clk s)) (lifeOf v)) \<and>
         (\<forall>x. x \<noteq> ps_id v \<longrightarrow>
           map_get (playersCache (applyHit E a shot v0 v k s)) x = map_get (playersCache s) x)"
  using lifeOf_hit [OF assms] by (simp add: applyHit_get)

definition ex_snap :: "string \<Rightarrow> int \<Rightarrow> snapshot" where
  "ex_snap k hp = \<lparr>ps_id = jslit k, ps_name = JStr (jslit k), ps_pos = vec 0 0 0, ps_rotY = 0,
     ps_vel = vec 0 0 0, ps_hp = hp, ps_crouch = False, ps_deadUntil = Some 0, ps_updatedAt = 0,
     ps_pingMs = None\<rparr>"

definition ex_game :: "(jsstr, snapshot) jsmap \<Rightarrow> game" where
  "ex_game c = \<lparr>clk = 0, rnd = 0, uid = 0, latestSeq = 0, lastSeenSeq = 0, events = [],
     playersCache = c, heap = [], clients = [], pendingStates = [],
     stateSyncStarted = False, stateTickStarted = False, tasks = [], outbox = [],
     db = \<lparr>kills = [], player_stats_tab = []\<rparr>, seenShots = []\<rparr>"

theorem hit_refines_life_witness:
  "map_option lifeOf (map_get (playersCache (applyHit ex_env [] [] (vec 1 0 0) (ex_snap ''v'' 10)
     (\<lambda>_ _ _. KDone) (ex_game [(jslit ''v'', ex_snap ''v'' 10)]))) (jslit ''v'')) = Some (Dead 4000)"
proof -
  have "snap_ok (ps_id (ex_snap ''v'' 10)) (ex_snap ''v'' 10)"
    by (simp add: ex_snap_def snap_ok_def outsideMap_def cfg_simps)
  then show ?thesis
    using hit_refines_life [of "ex_snap ''v'' 10" ex_env "[]" "[]" "vec 1 0 0" "\<lambda>_ _ _. KDone"
        "ex_game [(jslit ''v'', ex_snap ''v'' 10)]"]
    by (simp add: lifeOf_def ex_snap_def ex_env_def ex_game_def)
qed

text \<open>
  Claim C11. A valid report of a listed player follows the life machine: it moves the living, leaves
  the entry of the dead untouched until they are due, and then brings them back with full hit
  points inside the spawn area of 20 units around the centre.
\<close>

theorem report_refines_life:
  assumes "rand_unit E" "validState msg" "map_get (playersCache s) c = Some p" "snap_ok c p"
  shows "\<exists>q. map_get (playersCache (serverHandleState E c nm msg s)) c = Some q \<and>
     lifeOf q = lifeReport (e_now E (clk s)) (lifeOf p) \<and>
     (0 < ps_hp p \<longrightarrow> ps_pos q = vecOf (getp msg ''pos'')) \<and>
     (ps_hp p \<le> 0 \<and> e_now E (clk s) < deadUntil0 p \<longrightarrow> q = p) \<and>
     (ps_hp p \<le> 0 \<and> deadUntil0 p \<le> e_now E (clk s) \<longrightarrow>
        ps_hp q = 100 \<and> \<bar>vx (ps_pos q)\<bar> \<le> 20 \<and> vy (ps_pos q) = 0 \<and> \<bar>vz (ps_pos q)\<bar> \<le> 20)"
proof -
  consider "0 < ps_hp p" | "ps_hp p \<le> 0" "e_now E (clk s) < deadUntil0 p"
    | "ps_hp p \<le> 0" "deadUntil0 p \<le> e_now E (clk s)" by linarith
  then show ?thesis
  proof cases
    case 1
    then have "serverHandleState E c nm msg s =
        (let p = reported c nm msg (e_now E (clk s)) (map_get (playersCache s) c)
         in enqueuePendingState (pendingOf p)
              (s\<lparr>clk := Suc (clk s), playersCache := map_set c p (playersCache s)\<rparr>))"
      using assms(3) by (intro state_alive [OF assms(2)]) auto
    then show ?thesis
      using 1 assms(3) by (simp add: Let_def enqueuePendingState_def reported_def lifeOf_def)
  next
    case 2
    then show ?thesis using state_frozen [OF assms(3) 2 assms(2)] assms(3) by (simp add: lifeOf_def)
  next
    case 3
    then show ?thesis
      using state_respawn [OF assms(2,3) 3] spawn_inside [OF assms(1), of s]
      by (simp add: Let_def updPlayer_get revivedEntry_def lifeOf_def)
  qed
qed

definition ex_report :: jsval where
  "ex_report = (let v = JObj [(jslit ''x'', JNum (JFin 1)), (jslit ''y'', JNum (JFin 2)), (jslit ''z'', JNum (JFin 3))]
     in JObj [(jslit ''t'', JStr (jslit ''state'')), (jslit ''pos'', v), (jslit ''vel'', v), (jslit ''rotY'', JNum (JFin 0))])"

lemma ex_report_valid: "validState ex_report"
  by (simp add: validState_def ex_report_def isFiniteVec3_def vecOf_def outsideMap_def cfg_simps jslit_def Let_def)

theorem report_refines_life_witness:
  "\<exists>q. map_get (playersCache (serverHandleState ex_env (jslit ''v'') JUndef ex_report
      (ex_game [(jslit ''v'', ex_snap ''v'' 0)]))) (jslit ''v'') = Some q \<and> lifeOf q = Alive 10"
proof -
  have "rand_unit ex_env" by (simp add: rand_unit_def ex_env_def)
  moreover have "map_get (playersCache (ex_game [(jslit ''v'', ex_snap ''v'' 0)])) (jslit ''v'') = Some (ex_snap ''v'' 0)"
    by (simp add: ex_game_def map_get_def)
  moreover have "snap_ok (jslit ''v'') (ex_snap ''v'' 0)"
    by (simp add: ex_snap_def snap_ok_def outsideMap_def cfg_simps)
  moreover have "lifeReport (e_now ex_env (clk (ex_game c))) (lifeOf (ex_snap ''v'' 0)) = Alive 10" for c
    by (simp add: lifeOf_def ex_snap_def ex_env_def ex_game_def deadUntil0_def)
  ultimately show ?thesis
    using report_refines_life [OF _ ex_report_valid, of ex_env
        "ex_game [(jslit ''v'', ex_snap ''v'' 0)]" "jslit ''v''" "ex_snap ''v'' 0" JUndef] by auto
qed

section \<open>Who is hit\<close>

text \<open>The players a shot of \<open>c\<close> can hit for certain: listed, not the shooter, with hit points left.\<close>

definition exposed :: "jsstr \<Rightarrow> (jsstr, snapshot) jsmap \<Rightarrow> snapshot set" where
  "exposed c m = {p \<in> set (map_values m). ps_id p \<noteq> c \<and> 0 < ps_hp p}"


definition ex_duel :: game where
  "ex_duel = ex_game [(jslit ''a'', ex_snap ''a'' 100), (jslit ''b'', (ex_snap ''b'' 100)\<lparr>ps_pos := vec 3 0 0\<rparr>)]"

lemma ex_duel_ginv: "ginv ex_env ex_duel"
  by (simp add: ex_duel_def ex_game_def ginv_def stream_ok_def seq_window_def map_ok_def map_keys_def
      map_all_def snap_ok_def ex_snap_def outsideMap_def cfg_simps jslit_def map_has_def)

lemma ex_duel_contact: "first_contact (vec 0 (13 / 10) 0) (vec3Mul (vec 1 0 0) 25) (vec 3 0 0) (1 / 10)"
  unfolding first_contact_def intersects_iff
  by (rule exI [of _ 2])
    (auto simp: snowballPosAt_def vec3Mul_def cfg_simps le_Suc_eq less_Suc_eq numeral_2_eq_2 power2_eq_square)


section \<open>Ten hits\<close>

text \<open>A hit on the player listed under \<open>vid\<close>, if there is one.\<close>

definition hitAgain :: "env \<Rightarrow> jsstr \<Rightarrow> jsstr \<Rightarrow> vec3 \<Rightarrow> jsstr \<Rightarrow> game \<Rightarrow> game" where
  "hitAgain E a shot v0 vid s =
     (case map_get (playersCache s) vid of
        None \<Rightarrow> s
      | Some v \<Rightarrow> applyHit E a shot v0 v (\<lambda>newHp respawnAt now. KSnowDeath a shot v newHp respawnAt) s)"

lemma hitAgain_hp:
  assumes "map_get (playersCache s) vid = Some v" "ps_id v = vid"
  shows "\<exists>w. map_get (playersCache (hitAgain E a shot v0 vid s)) vid = Some w \<and> ps_id w = vid \<and>
     ps_hp w = max 0 (ps_hp v - 10)"
  using assms by (simp add: hitAgain_def applyHit_get hitEntry_def)

text \<open>
  A player with full hit points survives nine hits without a respawn in between and has
  no hit points left after the tenth: after \<open>n\<close> hits 100 - 10 n are left, and never fewer than 0.
\<close>

lemma hits_to_kill:
  assumes "map_get (playersCache s) vid = Some v" "ps_id v = vid" "ps_hp v = 100"
  shows "\<exists>w. map_get (playersCache ((hitAgain E a shot v0 vid ^^ n) s)) vid = Some w \<and>
     ps_hp w = max 0 (100 - 10 * int n) \<and> (ps_hp w = 0 \<longleftrightarrow> 10 \<le> n)"
proof -
  have "\<exists>w. map_get (playersCache ((hitAgain E a shot v0 vid ^^ n) s)) vid = Some w \<and> ps_id w = vid \<and>
     ps_hp w = max 0 (100 - 10 * int n)"
  proof (induction n)
    case (Suc n)
    then obtain w where w: "map_get (playersCache ((hitAgain E a shot v0 vid ^^ n) s)) vid = Some w"
      "ps_id w = vid" "ps_hp w = max 0 (100 - 10 * int n)" by blast
    show ?case using hitAgain_hp [OF w(1,2), of E a shot v0] w(3) by auto
  qed (use assms in simp)
  then show ?thesis by (auto simp: max_def)
qed

text \<open>
  Claim C33. A lethal hit is recorded and announced: when the driver can store both names and the new
  record identifier is unused, exactly one record naming attacker, victim and shot is appended and
  the death event is the newest of the log; a hit that leaves hit points changes nothing further.
\<close>

theorem death_recorded_and_announced:
  assumes "e_bindText E (attackerNameOf (map_get (playersCache s) c)) = Some an"
    and "e_bindText E (ps_name v) = Some vn"
    and "e_uuid E (uid s) \<notin> kr_id ` set (kills (db s))"
  shows "(\<exists>s' t. snowDeath E c shot v 0 respawnAt s = (None, s') \<and>
      kills (db s') = kills (db s) @ [\<lparr>kr_id = e_uuid E (uid s), kr_attackerId = c, kr_attackerName = an,
         kr_victimId = ps_id v, kr_victimName = vn, kr_shotId = shot, kr_timestamp = e_now E (clk s)\<rparr>] \<and>
      events s' = pruneEvents t (events s @ [\<lparr>ev_seq = Suc (latestSeq s), ev_at = t,
         ev_of = EvDeath (ps_id v) (ps_name v) c (attackerNameOf (map_get (playersCache s) c)) shot respawnAt\<rparr>]))
    \<and> (\<forall>hp > 0. snowDeath E c shot v hp respawnAt s = (None, s))"
proof -
  let ?q = "\<lparr>kq_attackerId = c, kq_attackerName = attackerNameOf (map_get (playersCache s) c),
               kq_victimId = ps_id v, kq_victimName = ps_name v, kq_shotId = shot\<rparr>"
  let ?r = "\<lparr>kr_id = e_uuid E (uid s), kr_attackerId = c, kr_attackerName = an,
         kr_victimId = ps_id v, kr_victimName = vn, kr_shotId = shot, kr_timestamp = e_now E (clk s)\<rparr>"
  obtain s' where q: "recordKill E ?q s = (Inr ?r, s')" "kills (db s') = kills (db s) @ [?r]"
      "events s' = events s" "latestSeq s' = latestSeq s"
    using assms by (simp add: recordKill_def random_uuid_def date_now_def insertKillStmt_def Let_def)
  have "db (appendEventInMem E ev k s') = db s'" for ev k
    by (simp add: appendEventInMem_def date_now_def Let_def)
  then show ?thesis using q by (auto simp: snowDeath_def)
qed

theorem death_recorded_and_announced_witness:
  "\<exists>s'. snowDeath ex_env (jslit ''a'') [] (ex_snap ''b'' 0) 0 5 ex_duel = (None, s') \<and> length (kills (db s')) = 1"
proof -
  have "e_bindText ex_env (attackerNameOf (map_get (playersCache ex_duel) (jslit ''a''))) = Some (jslit ''a'')"
    "e_bindText ex_env (ps_name (ex_snap ''b'' 0)) = Some (jslit ''b'')"
    "e_uuid ex_env (uid ex_duel) \<notin> kr_id ` set (kills (db ex_duel))"
    by (simp_all add: attackerNameOf_def ex_duel_def ex_game_def map_get_def ex_snap_def ex_env_def)
  then show ?thesis
    using death_recorded_and_announced [of ex_env ex_duel "jslit ''a''" "jslit ''a''" "ex_snap ''b'' 0" "jslit ''b''" "[]" 5]
    by (auto simp: ex_duel_def ex_game_def)
qed

end
