(* ===== verification/Terrain.thy ===== *)
theory Terrain
  imports Prelude
begin

text \<open>
  The terrain function, which the client (\<open>client_src/utils.js\<close>) and the bots (\<open>bot.ts\<close>) each
  define for themselves, and the mathematics about it. The sine, cosine and power functions are
  those of real analysis.
\<close>

section \<open>Definitions\<close>

text \<open>\<open>terrainHeight\<close> of the client; \<open>worldSeed\<close> is the seed the server sent.\<close>

definition terrainHeight :: "real \<Rightarrow> real \<Rightarrow> real \<Rightarrow> real" where
  "terrainHeight worldSeed x z =
     (let scale1 = 6 / 100;
          scale2 = 12 / 100;
          s = worldSeed * (1 / 10000);
          n1 = sin (x * scale1 + s * (1337 / 100)) + cos (z * scale1 - s * (721 / 100));
          n2 = sin ((x + 1000) * scale2 - s * (317 / 100)) - cos ((z - 500) * scale2 + s * (999 / 100));
          h = n1 * (7 / 10) + n2 * (3 / 10);
          sign = (if h \<ge> 0 then 1 else -1);
          h = sign * (\<bar>h\<bar> powr (18 / 10)) * (25 / 10)
      in h + 6)"

text \<open>\<open>terrainHeight\<close> of the bots; \<open>seed\<close> is \<open>WORLD_SEED\<close> of \<open>config.ts\<close>.\<close>

definition botTerrainHeight :: "nat \<Rightarrow> real \<Rightarrow> real \<Rightarrow> real" where
  "botTerrainHeight seed x z =
     (let scale1 = 6 / 100;
          scale2 = 12 / 100;
          s = real seed * (1 / 10000);
          n1 = sin (x * scale1 + s * (1337 / 100)) + cos (z * scale1 - s * (721 / 100));
          n2 = sin ((x + 1000) * scale2 - s * (317 / 100)) - cos ((z - 500) * scale2 + s * (999 / 100));
          h = n1 * (7 / 10) + n2 * (3 / 10);
          sign = (if h \<ge> 0 then 1 else -1);
          h = sign * (\<bar>h\<bar> powr (18 / 10)) * (25 / 10)
      in h + 6)"

text \<open>\<open>Math.atan2\<close>, with signed zeros identified.\<close>

definition atan2 :: "real \<Rightarrow> real \<Rightarrow> real" where
  "atan2 y x =
     (if x > 0 then arctan (y / x)
      else if x < 0 then (if y \<ge> 0 then arctan (y / x) + pi else arctan (y / x) - pi)
      else if y > 0 then pi / 2 else if y < 0 then - (pi / 2) else 0)"

section \<open>Lemmas\<close>

text \<open>The undulation before it is made steeper.\<close>

definition rawHeight :: "real \<Rightarrow> real \<Rightarrow> real \<Rightarrow> real" where
  "rawHeight w x z =
     (sin (x * (6 / 100) + w / 10000 * (1337 / 100)) + cos (z * (6 / 100) - w / 10000 * (721 / 100))) * (7 / 10) +
     (sin ((x + 1000) * (12 / 100) - w / 10000 * (317 / 100)) -
      cos ((z - 500) * (12 / 100) + w / 10000 * (999 / 100))) * (3 / 10)"

lemma terrainHeight_raw:
  "terrainHeight w x z =
     (if rawHeight w x z \<ge> 0 then 1 else -1) * (\<bar>rawHeight w x z\<bar> powr (18 / 10)) * (25 / 10) + 6"
  by (simp add: terrainHeight_def rawHeight_def Let_def)

lemma combine_bound:
  fixes a b c d :: real
  assumes "\<bar>a\<bar> \<le> 1" "\<bar>b\<bar> \<le> 1" "\<bar>c\<bar> \<le> 1" "\<bar>d\<bar> \<le> 1"
  shows "\<bar>(a + b) * (7 / 10) + (c - d) * (3 / 10)\<bar> \<le> 2"
  using assms unfolding abs_le_iff by (simp add: field_simps)

lemma rawHeight_abs: "\<bar>rawHeight w x z\<bar> \<le> 2"
  unfolding rawHeight_def by (intro combine_bound abs_sin_le_one abs_cos_le_one)

lemma powr_18_bound: "\<bar>h\<bar> \<le> 2 \<Longrightarrow> \<bar>h\<bar> powr (18 / 10) \<le> (4 :: real)"
proof -
  assume "\<bar>h\<bar> \<le> 2"
  then have "\<bar>h\<bar> powr (18 / 10) \<le> 2 powr (18 / 10)" by (intro powr_mono2) auto
  also have "\<dots> \<le> 2 powr 2" by (intro powr_mono) auto
  finally show ?thesis by simp
qed

lemma terrainHeight_abs: "\<bar>terrainHeight w x z - 6\<bar> \<le> 10"
  using powr_18_bound [OF rawHeight_abs [of w x z]]
  by (auto simp: terrainHeight_raw abs_mult)

lemma botTerrainHeight_eq: "botTerrainHeight n x z = terrainHeight (real n) x z"
  by (simp add: botTerrainHeight_def terrainHeight_def)

end
