(* ===== verification/Bots.thy ===== *)
theory Bots
  imports Game Terrain
begin

text \<open>
  \<open>bot.ts\<close>: the five bots. \<open>updateBots\<close> visits the bots in order and may be suspended inside a
  bot's turn (respawn, shot, hit, death); the turn is cut at these points, and what is left of
  the loop travels in the continuation together with the snapshot read at the start of the turn.

  The cached snapshot of a bot shares its position object with the bot, so a move is visible in
  the cache at once; the model writes the position through. (The velocity object is shared too;
  nothing on the server reads a cached velocity, and the model updates it at the end of the turn.)
\<close>

section \<open>State\<close>

record bot =
  b_id :: jsstr
  b_name :: jsstr
  b_pos :: vec3
  b_rotY :: real
  b_vel :: vec3
  b_hp :: int
  b_targetPos :: "vec3 option"
  b_lastShotAt :: real
  b_moveTimer :: int

record bgame = game +
  bots :: "(jsstr, bot) jsmap"

definition BOT_COUNT :: nat where "BOT_COUNT = 5"

definition BOT_NAMES :: "jsstr list" where
  "BOT_NAMES = map (\<lambda>n. [0x96EA, 0x4EBA] @ jslit n) [''Bot-1'', ''Bot-2'', ''Bot-3'', ''Bot-4'', ''Bot-5'']"

definition BOT_IDS :: "jsstr list" where
  "BOT_IDS = map jslit [''bot-0'', ''bot-1'', ''bot-2'', ''bot-3'', ''bot-4'']"

definition SHOT_INTERVAL :: int where "SHOT_INTERVAL = 10000"
definition MOVE_INTERVAL :: int where "MOVE_INTERVAL = 3000"
definition BOT_SPEED :: real where "BOT_SPEED = 3"
definition CHRISTMAS_TREE_RADIUS :: real where "CHRISTMAS_TREE_RADIUS = 25"

declare SHOT_INTERVAL_def [cfg_simps] MOVE_INTERVAL_def [cfg_simps] BOT_SPEED_def [cfg_simps]
  CHRISTMAS_TREE_RADIUS_def [cfg_simps]

section \<open>Places\<close>

text \<open>The retry loop of \<open>getRandomSpawnPos\<close> with \<open>n\<close> further attempts.\<close>

fun spawnLoop :: "env \<Rightarrow> nat \<Rightarrow> ('k, 'z) server_scheme \<Rightarrow> (real \<times> real) \<times> ('k, 'z) server_scheme" where
  "spawnLoop E n s =
     (let (r1, s) = math_random E s;
          (r2, s) = math_random E s;
          x = (r1 - 1 / 2) * (MAP_HALF CONFIG * (15 / 10));
          z = (r2 - 1 / 2) * (MAP_HALF CONFIG * (15 / 10));
          distToCenter = sqrt (x * x + z * z)
      in if distToCenter > CHRISTMAS_TREE_RADIUS then ((x, z), s)
         else (case n of 0 \<Rightarrow> ((x, z), s) | Suc n' \<Rightarrow> spawnLoop E n' s))"

declare spawnLoop.simps [simp del]

definition getRandomSpawnPos :: "env \<Rightarrow> ('k, 'z) server_scheme \<Rightarrow> vec3 \<times> ('k, 'z) server_scheme" where
  "getRandomSpawnPos E s =
     (let ((x, z), s) = spawnLoop E 49 s;
          half = MAP_HALF CONFIG;
          x = clampR (- half) half x;
          z = clampR (- half) half z
      in (vec x (botTerrainHeight (e_seed E) x z) z, s))"

text \<open>The retry loop of \<open>getRandomMoveTarget\<close> with \<open>n\<close> further attempts.\<close>

fun moveLoop ::
  "env \<Rightarrow> vec3 \<Rightarrow> real \<Rightarrow> nat \<Rightarrow> ('k, 'z) server_scheme \<Rightarrow> (real \<times> real) \<times> ('k, 'z) server_scheme" where
  "moveLoop E currentPos safeZone n s =
     (let (r1, s) = math_random E s;
          angle = r1 * pi * 2;
          (r2, s) = math_random E s;
          distance = 10 + r2 * 20;
          x = vx currentPos + cos angle * distance;
          z = vz currentPos + sin angle * distance;
          x = clampR (- safeZone) safeZone x;
          z = clampR (- safeZone) safeZone z;
          distToCenter = sqrt (x * x + z * z)
      in if distToCenter > CHRISTMAS_TREE_RADIUS then ((x, z), s)
         else (case n of 0 \<Rightarrow> ((x, z), s) | Suc n' \<Rightarrow> moveLoop E currentPos safeZone n' s))"

declare moveLoop.simps [simp del]

definition getRandomMoveTarget ::
  "env \<Rightarrow> vec3 \<Rightarrow> ('k, 'z) server_scheme \<Rightarrow> vec3 \<times> ('k, 'z) server_scheme" where
  "getRandomMoveTarget E currentPos s =
     (let half = MAP_HALF CONFIG;
          safeZone = half - 40;
          isOutsideSafeZone = (\<bar>vx currentPos\<bar> > safeZone \<or> \<bar>vz currentPos\<bar> > safeZone)
      in if isOutsideSafeZone then
           let angleToCenter = atan2 (- vz currentPos) (- vx currentPos);
               (r1, s) = math_random E s;
               distance = 40 + r1 * 30;
               x = clampR (- safeZone) safeZone (vx currentPos + cos angleToCenter * distance);
               z = clampR (- safeZone) safeZone (vz currentPos + sin angleToCenter * distance);
               distToCenter = sqrt (x * x + z * z);
               ((x, z), s) =
                 (if distToCenter < CHRISTMAS_TREE_RADIUS then
                    let (r2, s) = math_random E s;
                        offsetAngle = angleToCenter + (r2 - 1 / 2) * pi / 2;
                        x = vx currentPos + cos offsetAngle * distance;
                        z = vz currentPos + sin offsetAngle * distance
                    in ((clampR (- safeZone) safeZone x, clampR (- safeZone) safeZone z), s)
                  else ((x, z), s))
           in (vec x (botTerrainHeight (e_seed E) x z) z, s)
         else
           let ((x, z), s) = moveLoop E currentPos safeZone 19 s
           in (vec x (botTerrainHeight (e_seed E) x z) z, s))"

section \<open>Initialisation\<close>

text \<open>One turn of the loop of \<open>initBots\<close>.\<close>

definition initBot :: "env \<Rightarrow> jsstr \<times> jsstr \<Rightarrow> 'z bgame_scheme \<Rightarrow> 'z bgame_scheme" where
  "initBot E idName s =
     (let (id, name) = idName;
          (spawn, s) = getRandomSpawnPos E s;
          (r1, s) = math_random E s;
          (t1, s) = date_now E s;
          (r2, s) = math_random E s;
          (t2, s) = date_now E s;
          bot = \<lparr>b_id = id, b_name = name, b_pos = spawn, b_rotY = r1 * pi * 2,
                 b_vel = vec 0 0 0, b_hp = 100, b_targetPos = None,
                 b_lastShotAt = real_of_int t1 + r2 * real_of_int SHOT_INTERVAL,
                 b_moveTimer = t2\<rparr>;
          s = s\<lparr>bots := map_set id bot (bots s)\<rparr>;
          (t3, s) = date_now E s;
          snap = \<lparr>ps_id = id, ps_name = JStr name, ps_pos = b_pos bot, ps_rotY = b_rotY bot,
                  ps_vel = b_vel bot, ps_hp = b_hp bot, ps_crouch = False,
                  ps_deadUntil = Some 0, ps_updatedAt = t3, ps_pingMs = None\<rparr>
      in s\<lparr>playersCache := map_set id snap (playersCache s)\<rparr>)"

definition initBots :: "env \<Rightarrow> 'z bgame_scheme \<Rightarrow> 'z bgame_scheme" where
  "initBots E s = fold (initBot E) (zip BOT_IDS BOT_NAMES) s"

section \<open>Targets\<close>

text \<open>The loop of \<open>findNearestPlayer\<close>; no minimum so far stands for \<open>Infinity\<close>.\<close>

fun nearestLoop :: "vec3 \<Rightarrow> snapshot list \<Rightarrow> (snapshot \<times> real) option \<Rightarrow> (snapshot \<times> real) option" where
  "nearestLoop botPos [] best = best"
| "nearestLoop botPos (p # ps) best =
     (if startsWith (ps_id p) (jslit ''bot-'') then nearestLoop botPos ps best
      else if ps_hp p \<le> 0 then nearestLoop botPos ps best
      else
        let dx = vx (ps_pos p) - vx botPos;
            dz = vz (ps_pos p) - vz botPos;
            dist = sqrt (dx * dx + dz * dz)
        in nearestLoop botPos ps
             (case best of None \<Rightarrow> Some (p, dist)
              | Some (q, m) \<Rightarrow> if dist < m then Some (p, dist) else best))"

definition findNearestPlayer :: "vec3 \<Rightarrow> (jsstr, snapshot) jsmap \<Rightarrow> snapshot option" where
  "findNearestPlayer botPos cache = map_option fst (nearestLoop botPos (map_values cache) None)"

section \<open>Shooting\<close>

definition updBot :: "jsstr \<Rightarrow> (bot \<Rightarrow> bot) \<Rightarrow> 'z bgame_scheme \<Rightarrow> 'z bgame_scheme" where
  "updBot bid f s =
     (case map_get (bots s) bid of None \<Rightarrow> s | Some b \<Rightarrow> s\<lparr>bots := map_set bid (f b) (bots s)\<rparr>)"

text \<open>\<open>botShoot\<close> up to the broadcast of the shot.\<close>

definition botShoot ::
  "env \<Rightarrow> bot \<Rightarrow> snapshot \<Rightarrow> (jsstr \<Rightarrow> vec3 \<Rightarrow> vec3 \<Rightarrow> cont) \<Rightarrow> 'z bgame_scheme \<Rightarrow> 'z bgame_scheme" where
  "botShoot E b target k s =
     (let dx = vx (ps_pos target) - vx (b_pos b);
          dy = (vy (ps_pos target) + 1) - (vy (b_pos b) + 13 / 10);
          dz = vz (ps_pos target) - vz (b_pos b);
          dir = norm_vec (vec dx dy dz);
          origin = vec (vx (b_pos b)) (vy (b_pos b) + 13 / 10) (vz (b_pos b));
          (shotId, s) = random_uuid E s
      in appendEventInMem E
           (EvSnowball shotId (b_id b) origin dir (snowballSpeed (GAME CONFIG)))
           (k shotId dir origin) s)"

section \<open>The update loop\<close>

text \<open>The end of a turn: write the cache and the pending state from the bot's fields.\<close>

definition botFinish :: "jsstr \<Rightarrow> snapshot \<Rightarrow> int \<Rightarrow> 'z bgame_scheme \<Rightarrow> 'z bgame_scheme" where
  "botFinish bid snap now s =
     (case map_get (bots s) bid of
        None \<Rightarrow> s
      | Some b \<Rightarrow>
          let updated = snap\<lparr>ps_pos := b_pos b, ps_rotY := b_rotY b, ps_vel := b_vel b,
                             ps_updatedAt := now\<rparr>;
              s = s\<lparr>playersCache := map_set bid updated (playersCache s)\<rparr>
          in enqueuePendingState
               \<lparr>pn_id = bid, pn_pos = b_pos b, pn_rotY = b_rotY b, pn_vel = b_vel b,
                pn_crouch = False, pn_updatedAt = now, pn_pingMs = None\<rparr> s)"

text \<open>A bot that is due: back to life at a new place.\<close>

definition botRespawn ::
  "env \<Rightarrow> bot \<Rightarrow> snapshot \<Rightarrow> jsstr list \<Rightarrow> int \<Rightarrow> 'z bgame_scheme \<Rightarrow> 'z bgame_scheme" where
  "botRespawn E b snap rest now s =
     (let (spawn, s) = getRandomSpawnPos E s;
          s = updBot (b_id b) (\<lambda>b. b\<lparr>b_pos := spawn, b_hp := 100, b_vel := vec 0 0 0,
                                 b_targetPos := None\<rparr>) s;
          revived = snap\<lparr>ps_pos := spawn, ps_hp := 100, ps_deadUntil := Some 0,
                         ps_updatedAt := now\<rparr>;
          s = s\<lparr>playersCache := map_set (b_id b) revived (playersCache s)\<rparr>
      in appendEventInMem E (EvRespawn (b_id b) spawn 100) (KBotsRest rest now) s)"

text \<open>The random walk: a new target when there is none or the old one is stale, then one step.\<close>

definition botRetarget :: "env \<Rightarrow> bot \<Rightarrow> int \<Rightarrow> 'z bgame_scheme \<Rightarrow> bot \<times> 'z bgame_scheme" where
  "botRetarget E b now s =
     (if b_targetPos b = None \<or> now - b_moveTimer b > MOVE_INTERVAL then
        let (tp, s) = getRandomMoveTarget E (b_pos b) s
        in (b\<lparr>b_targetPos := Some tp, b_moveTimer := now\<rparr>, s)
      else (b, s))"

definition botMove :: "nat \<Rightarrow> bot \<Rightarrow> bot" where
  "botMove seed b =
     (case b_targetPos b of
        None \<Rightarrow> b
      | Some tp \<Rightarrow>
          let dx = vx tp - vx (b_pos b);
              dz = vz tp - vz (b_pos b);
              dist = sqrt (dx * dx + dz * dz)
          in if dist > 1 / 2 then
               let velx = dx / dist * BOT_SPEED;
                   velz = dz / dist * BOT_SPEED;
                   dt = 5 / 100;
                   half = MAP_HALF CONFIG;
                   px = clampR (- half) half (vx (b_pos b) + velx * dt);
                   pz = clampR (- half) half (vz (b_pos b) + velz * dt)
               in b\<lparr>b_vel := (b_vel b)\<lparr>vx := velx, vz := velz\<rparr>, b_rotY := atan2 dx dz,
                    b_pos := vec px (botTerrainHeight seed px pz) pz\<rparr>
             else b\<lparr>b_vel := (b_vel b)\<lparr>vx := 0, vz := 0\<rparr>, b_targetPos := None\<rparr>)"

text \<open>
  \<open>updateBots\<close> from the bot at the head of the list on. The result is the state at the first
  \<open>await\<close>, or at the end of the loop.
\<close>

fun botsLoop :: "env \<Rightarrow> int \<Rightarrow> jsstr list \<Rightarrow> 'z bgame_scheme \<Rightarrow> 'z bgame_scheme" where
  "botsLoop E now [] s = s"
| "botsLoop E now (bid # rest) s =
     (case (map_get (bots s) bid, map_get (playersCache s) bid) of
        (Some b, Some snap) \<Rightarrow>
          if ps_hp snap \<le> 0 \<and> deadUntil0 snap \<le> now then botRespawn E b snap rest now s
          else if ps_hp snap \<le> 0 then botsLoop E now rest s
          else
            let (b, s) = botRetarget E b now s;
                b = botMove (e_seed E) b;
                s = s\<lparr>bots := map_set bid b (bots s),
                      playersCache := updPlayer bid (\<lambda>p. p\<lparr>ps_pos := b_pos b\<rparr>) (playersCache s)\<rparr>
            in if real_of_int now - b_lastShotAt b > real_of_int SHOT_INTERVAL then
                 (case findNearestPlayer (b_pos b) (playersCache s) of
                    Some target \<Rightarrow>
                      let b = b\<lparr>b_rotY := atan2 (vx (ps_pos target) - vx (b_pos b))
                                              (vz (ps_pos target) - vz (b_pos b))\<rparr>;
                          s = s\<lparr>bots := map_set bid b (bots s)\<rparr>
                      in botShoot E b target
                           (\<lambda>shotId dir origin. KBotResolve bid snap rest now shotId dir origin) s
                  | None \<Rightarrow>
                      botsLoop E now rest
                        (botFinish bid snap now
                          (s\<lparr>bots := map_set bid (b\<lparr>b_lastShotAt := real_of_int now\<rparr>) (bots s)\<rparr>)))
               else botsLoop E now rest (botFinish bid snap now s)
      | _ \<Rightarrow> botsLoop E now rest s)"

declare botsLoop.simps [simp del]

definition updateBots :: "env \<Rightarrow> 'z bgame_scheme \<Rightarrow> 'z bgame_scheme" where
  "updateBots E s =
     (let (now, s) = date_now E s in botsLoop E now (map_keys (bots s)) s)"

text \<open>After \<open>await botShoot(\<dots>)\<close>: the rest of the turn and of the loop.\<close>

definition botShotDone ::
  "env \<Rightarrow> jsstr \<Rightarrow> snapshot \<Rightarrow> jsstr list \<Rightarrow> int \<Rightarrow> int \<Rightarrow> 'z bgame_scheme \<Rightarrow> 'z bgame_scheme" where
  "botShotDone E bid snap rest now shotAt s =
     botsLoop E now rest
       (botFinish bid snap now (updBot bid (\<lambda>b. b\<lparr>b_lastShotAt := real_of_int shotAt\<rparr>) s))"

text \<open>\<open>botShoot\<close> between the broadcast of the shot and that of the hit.\<close>

definition botResolve ::
  "env \<Rightarrow> jsstr \<Rightarrow> snapshot \<Rightarrow> jsstr list \<Rightarrow> int \<Rightarrow> jsstr \<Rightarrow> vec3 \<Rightarrow> vec3 \<Rightarrow> 'z bgame_scheme \<Rightarrow>
   'z bgame_scheme" where
  "botResolve E bid snap rest now shotId dir origin s =
     (let players = map_values (playersCache s);
          v0 = vec3Mul dir (snowballSpeed (GAME CONFIG));
          (best, s) = victimLoop E bid origin v0 players None s
      in case best of
           None \<Rightarrow>
             let (t, s) = date_now E s in botShotDone E bid snap rest now t s
         | Some (victim, t) \<Rightarrow>
             applyHit E bid shotId v0 victim
               (\<lambda>newHp respawnAt shotAt. KBotDeath bid snap rest now shotId victim newHp respawnAt shotAt) s)"

text \<open>\<open>botShoot\<close> after the broadcast of the hit; kills by bots are not recorded.\<close>

definition botDeath ::
  "env \<Rightarrow> jsstr \<Rightarrow> snapshot \<Rightarrow> jsstr list \<Rightarrow> int \<Rightarrow> jsstr \<Rightarrow> snapshot \<Rightarrow> int \<Rightarrow> int \<Rightarrow> int \<Rightarrow>
   'z bgame_scheme \<Rightarrow> 'z bgame_scheme" where
  "botDeath E bid snap rest now shotId victim newHp respawnAt shotAt s =
     (if newHp = 0 then
        (case map_get (bots s) bid of
           None \<Rightarrow> s
         | Some b \<Rightarrow> appendEventInMem E
             (EvDeath (ps_id victim) (ps_name victim) bid (JStr (b_name b)) shotId respawnAt)
             (KBotShot bid snap rest now shotAt) s)
      else botShotDone E bid snap rest now shotAt s)"

section \<open>Where bots can be\<close>

definition inZone :: "real \<Rightarrow> vec3 \<Rightarrow> bool" where
  "inZone h p \<longleftrightarrow> \<bar>vx p\<bar> \<le> h \<and> \<bar>vz p\<bar> \<le> h"

definition onGround :: "env \<Rightarrow> vec3 \<Rightarrow> bool" where
  "onGround E p \<longleftrightarrow> vy p = botTerrainHeight (e_seed E) (vx p) (vz p)"

text \<open>
  The invariant of a bot: it stands on the ground inside the zone that is 40 units away from the
  edge of the map, and so does its target.
\<close>

definition bot_ok :: "env \<Rightarrow> jsstr \<Rightarrow> bot \<Rightarrow> bool" where
  "bot_ok E k b \<longleftrightarrow> b_id b = k \<and> inZone 150 (b_pos b) \<and> onGround E (b_pos b) \<and>
     (\<forall>tp. b_targetPos b = Some tp \<longrightarrow> inZone 150 tp)"

lemma MAP_HALF_eq: "MAP_HALF CONFIG = 190"
  by (simp add: cfg_simps)

lemma ground_height: "onGround E p \<Longrightarrow> \<bar>vy p - 6\<bar> \<le> 10"
  by (simp add: onGround_def botTerrainHeight_eq terrainHeight_abs)

lemma zone_inside: "inZone 150 p \<Longrightarrow> onGround E p \<Longrightarrow> \<not> outsideMap p"
  using ground_height [of E p] by (auto simp: inZone_def outsideMap_def MAP_HALF_eq)

text \<open>The two samples of the \<open>i\<close>-th attempt of the spawn loop.\<close>

definition spawnSample :: "env \<Rightarrow> nat \<Rightarrow> nat \<Rightarrow> real \<times> real" where
  "spawnSample E r i = ((e_rand E (r + 2 * i) - 1 / 2) * 285, (e_rand E (Suc (r + 2 * i)) - 1 / 2) * 285)"

definition nearTree :: "real \<times> real \<Rightarrow> bool" where
  "nearTree xz \<longleftrightarrow> sqrt (fst xz * fst xz + snd xz * snd xz) \<le> 25"

lemma spawnLoop_eq:
  "spawnLoop E n s =
     (let xz = spawnSample E (rnd s) 0; s' = s\<lparr>rnd := rnd s + 2\<rparr>
      in if \<not> nearTree xz then (xz, s')
         else (case n of 0 \<Rightarrow> (xz, s') | Suc m \<Rightarrow> spawnLoop E m s'))"
  by (subst spawnLoop.simps; cases n)
    (simp_all add: math_random_def spawnSample_def nearTree_def MAP_HALF_eq CHRISTMAS_TREE_RADIUS_def
      Let_def not_le)

lemma spawnSample_shift: "spawnSample E (r + 2) i = spawnSample E r (Suc i)"
  "spawnSample E (Suc (Suc r)) i = spawnSample E r (Suc i)"
  by (simp_all add: spawnSample_def)

text \<open>The loop stops at the first sample away from the tree, and after \<open>n + 1\<close> samples.\<close>

lemma spawnLoop_spec:
  "\<exists>i \<le> n. spawnLoop E n s = (spawnSample E (rnd s) i, s\<lparr>rnd := rnd s + 2 * Suc i\<rparr>) \<and>
     (\<forall>j < i. nearTree (spawnSample E (rnd s) j)) \<and>
     (nearTree (spawnSample E (rnd s) i) \<longrightarrow> i = n)"
proof (induction n arbitrary: s)
  case 0
  show ?case by (subst spawnLoop_eq) (simp add: Let_def)
next
  case (Suc n)
  show ?case
  proof (cases "nearTree (spawnSample E (rnd s) 0)")
    case False
    then show ?thesis by (subst spawnLoop_eq) (simp add: Let_def exI [of _ 0])
  next
    case True
    obtain i where i: "i \<le> n"
      "spawnLoop E n (s\<lparr>rnd := rnd s + 2\<rparr>) =
         (spawnSample E (rnd s + 2) i, s\<lparr>rnd := rnd s + 2 + 2 * Suc i\<rparr>)"
      "\<forall>j < i. nearTree (spawnSample E (rnd s + 2) j)"
      "nearTree (spawnSample E (rnd s + 2) i) \<longrightarrow> i = n"
      using Suc.IH [of "s\<lparr>rnd := rnd s + 2\<rparr>"] by auto
    have "\<forall>j < Suc i. nearTree (spawnSample E (rnd s) j)"
      using True i(3) by (auto simp: spawnSample_shift less_Suc_eq_0_disj)
    then show ?thesis
      using True i(1,2,4) by (subst spawnLoop_eq) (auto simp: Let_def spawnSample_shift intro!: exI [of _ "Suc i"])
  qed
qed

lemma spawnSample_bound:
  assumes "rand_unit E"
  shows "\<bar>fst (spawnSample E r i)\<bar> \<le> 285 / 2 \<and> \<bar>snd (spawnSample E r i)\<bar> \<le> 285 / 2"
proof -
  have "\<bar>(e_rand E k - 1 / 2) * 285\<bar> \<le> 285 / 2" for k
  proof -
    have "0 \<le> e_rand E k" "e_rand E k < 1" using assms by (simp_all add: rand_unit_def)
    then have "\<bar>e_rand E k - 1 / 2\<bar> \<le> 1 / 2" by linarith
    then have "\<bar>e_rand E k - 1 / 2\<bar> * 285 \<le> 1 / 2 * 285" by (intro mult_right_mono) simp_all
    then show ?thesis unfolding abs_mult by simp
  qed
  then show ?thesis by (simp add: spawnSample_def)
qed

lemma getRandomSpawnPos_spec:
  assumes "rand_unit E"
  obtains n p where "getRandomSpawnPos E s = (p, s\<lparr>rnd := rnd s + n\<rparr>)" "inZone 150 p" "onGround E p"
proof -
  obtain i where i: "spawnLoop E 49 s = (spawnSample E (rnd s) i, s\<lparr>rnd := rnd s + 2 * Suc i\<rparr>)"
    using spawnLoop_spec by blast
  obtain x z where xz: "spawnSample E (rnd s) i = (x, z)" by (metis surj_pair)
  have b: "\<bar>x\<bar> \<le> 285 / 2" "\<bar>z\<bar> \<le> 285 / 2"
    using spawnSample_bound [OF assms, of "rnd s" i] xz by simp_all
  have "clampR (- 190) 190 x = x" "clampR (- 190) 190 z = z"
    using b by (auto intro!: clampR_id)
  then have "getRandomSpawnPos E s =
      (vec x (botTerrainHeight (e_seed E) x z) z, s\<lparr>rnd := rnd s + 2 * Suc i\<rparr>)"
    using i xz by (simp add: getRandomSpawnPos_def MAP_HALF_eq)
  moreover have "inZone 150 (vec x y z)" for y
    using b by (simp add: inZone_def)
  ultimately show thesis
    using that [where n = "2 * Suc i" and p = "vec x (botTerrainHeight (e_seed E) x z) z"]
    by (simp add: onGround_def)
qed

text \<open>A state that differs by random numbers drawn only.\<close>

definition drawn :: "('k, 'z) server_scheme \<Rightarrow> ('k, 'z) server_scheme \<Rightarrow> bool" where
  "drawn s s' \<longleftrightarrow> (\<exists>n. s' = s\<lparr>rnd := rnd s + n\<rparr>)"

lemma drawn_simps [simp]:
  "drawn s s" "drawn s (s\<lparr>rnd := Suc (rnd s)\<rparr>)" "drawn s (s\<lparr>rnd := Suc (Suc (rnd s))\<rparr>)"
  unfolding drawn_def by (rule exI [of _ 0], simp, rule exI [of _ 1], simp, rule exI [of _ 2], simp)

lemma drawn_trans: "drawn s t \<Longrightarrow> drawn t u \<Longrightarrow> drawn s u"
  by (auto simp: drawn_def add.assoc)

lemma moveLoop_zone:
  assumes "0 \<le> h"
  shows "drawn s (snd (moveLoop E p h n s)) \<and> \<bar>fst (fst (moveLoop E p h n s))\<bar> \<le> h \<and>
     \<bar>snd (fst (moveLoop E p h n s))\<bar> \<le> h"
proof (induction n arbitrary: s)
  case 0
  show ?case
    using assms by (subst (1 2 3) moveLoop.simps) (simp add: math_random_def Let_def clampR_abs)
next
  case (Suc n)
  let ?t = "s\<lparr>rnd := Suc (Suc (rnd s))\<rparr>"
  have "drawn s (snd (moveLoop E p h n ?t))"
    using Suc.IH [of ?t] drawn_simps(3) drawn_trans by blast
  then show ?case
    using assms Suc.IH [of ?t]
    by (subst (1 2 3) moveLoop.simps) (simp add: math_random_def Let_def clampR_abs)
qed

lemma getRandomMoveTarget_zone:
  "drawn s (snd (getRandomMoveTarget E c s)) \<and> inZone 150 (fst (getRandomMoveTarget E c s))"
proof (cases "\<bar>vx c\<bar> > 150 \<or> \<bar>vz c\<bar> > 150")
  case True
  then show ?thesis
    by (simp add: getRandomMoveTarget_def MAP_HALF_eq math_random_def Let_def inZone_def clampR_abs)
next
  case False
  then show ?thesis
    using moveLoop_zone [of 150 s E c 19]
    by (auto simp: getRandomMoveTarget_def MAP_HALF_eq inZone_def split: prod.splits)
qed

lemma between_abs:
  fixes a t c h :: real
  assumes "\<bar>a\<bar> \<le> h" "\<bar>t\<bar> \<le> h" "0 \<le> c" "c \<le> 1"
  shows "\<bar>a + c * (t - a)\<bar> \<le> h"
proof -
  have "a + c * (t - a) = (1 - c) * a + c * t" by (simp add: algebra_simps)
  moreover have "\<bar>(1 - c) * a\<bar> \<le> (1 - c) * h" "\<bar>c * t\<bar> \<le> c * h"
    using assms by (simp_all add: abs_mult mult_left_mono)
  ultimately have "\<bar>a + c * (t - a)\<bar> \<le> (1 - c) * h + c * h" by linarith
  then show ?thesis by (simp add: algebra_simps)
qed

lemma step_factor: "1 / 2 < d \<Longrightarrow> 0 \<le> 3 / 20 / d \<and> 3 / 20 / d \<le> (1 :: real)"
  by (simp add: field_simps)

lemma step_eq: "v / d * 3 * (5 / 100) = 3 / 20 / d * (v :: real)"
  by simp

text \<open>One step of the walk stays between the bot and its target.\<close>

lemma botMove_ok:
  assumes "bot_ok E k b"
  shows "bot_ok E k (botMove (e_seed E) b)"
proof (cases "b_targetPos b")
  case None
  then show ?thesis using assms by (simp add: botMove_def)
next
  case (Some tp)
  let ?dx = "vx tp - vx (b_pos b)" and ?dz = "vz tp - vz (b_pos b)"
  let ?d = "sqrt (?dx * ?dx + ?dz * ?dz)"
  have z: "inZone 150 (b_pos b)" "inZone 150 tp"
    using assms Some by (simp_all add: bot_ok_def)
  show ?thesis
  proof (cases "?d > 1 / 2")
    case True
    let ?c = "3 / 20 / ?d"
    have c: "0 \<le> ?c" "?c \<le> 1" using step_factor [OF True] by blast+
    let ?x = "vx (b_pos b) + ?c * ?dx" and ?z = "vz (b_pos b) + ?c * ?dz"
    have b: "\<bar>?x\<bar> \<le> 150" "\<bar>?z\<bar> \<le> 150"
      using z c unfolding inZone_def by (blast intro: between_abs)+
    then have cl: "clampR (- 190) 190 ?x = ?x" "clampR (- 190) 190 ?z = ?z"
      by (auto intro!: clampR_id)
    have "\<exists>v r. botMove (e_seed E) b =
        b\<lparr>b_vel := v, b_rotY := r, b_pos := vec ?x (botTerrainHeight (e_seed E) ?x ?z) ?z\<rparr>"
      unfolding botMove_def BOT_SPEED_def MAP_HALF_eq Let_def Some option.case if_P [OF True]
        step_eq cl by blast
    then obtain x z v r where eq: "botMove (e_seed E) b =
        b\<lparr>b_vel := v, b_rotY := r, b_pos := vec x (botTerrainHeight (e_seed E) x z) z\<rparr>"
      and "\<bar>x\<bar> \<le> 150" "\<bar>z\<bar> \<le> 150" using b by blast
    then show ?thesis
      using assms by (simp add: eq bot_ok_def inZone_def onGround_def)
  next
    case False
    then show ?thesis
      using Some assms by (simp add: botMove_def bot_ok_def Let_def)
  qed
qed

section \<open>Invariant\<close>

definition binv :: "env \<Rightarrow> 'z bgame_scheme \<Rightarrow> bool" where
  "binv E s \<longleftrightarrow> ginv E s \<and> map_ok (bots s) \<and> map_all (bot_ok E) (bots s)"

lemma binvI:
  "binv E s \<Longrightarrow> ginv E t \<Longrightarrow> bots t = bots s \<Longrightarrow> binv E t"
  by (simp add: binv_def)

lemma binv_updBot:
  assumes "binv E s" "clock_mono E" "\<And>b. map_get (bots s) k = Some b \<Longrightarrow> bot_ok E k b \<Longrightarrow> bot_ok E k (f b)"
  shows "binv E (updBot k f s)"
proof (cases "map_get (bots s) k")
  case None
  then show ?thesis using assms(1) by (simp add: updBot_def)
next
  case (Some b)
  have b: "map_ok (bots s)" "map_all (bot_ok E) (bots s)" and g: "ginv E s"
    using assms(1) by (simp_all add: binv_def)
  then have "bot_ok E k (f b)" using assms(3) [OF Some] map_allD [OF b(2) Some] by blast
  then have "map_all (bot_ok E) (map_set k (f b) (bots s))" using b(2) by (rule map_all_set [rotated])
  moreover have "ginv E (s\<lparr>bots := map_set k (f b) (bots s)\<rparr>)"
    by (rule ginv_keep [OF g assms(2)]) simp_all
  ultimately show ?thesis
    using Some b(1) by (simp add: updBot_def binv_def)
qed

lemma botFinish_binv:
  assumes "binv E s" "clock_mono E" "snap_ok k snap"
  shows "binv E (botFinish k snap now s)"
proof (cases "map_get (bots s) k")
  case None
  then show ?thesis using assms(1) by (simp add: botFinish_def)
next
  case (Some b)
  let ?u = "snap\<lparr>ps_pos := b_pos b, ps_rotY := b_rotY b, ps_vel := b_vel b, ps_updatedAt := now\<rparr>"
  have gs: "ginv E s" and "bot_ok E k b"
    using assms(1) map_allD [OF _ Some] by (auto simp: binv_def)
  then have in_map: "\<not> outsideMap (b_pos b)" unfolding bot_ok_def using zone_inside by blast
  then have u: "snap_ok k ?u" using assms(3) by (simp add: snap_ok_def)
  have g: "ginv E (s\<lparr>playersCache := map_set k ?u (playersCache s)\<rparr>)"
    by (rule ginv_write [OF gs assms(2) _ _ _ _ u]) simp_all
  have "ginv E (botFinish k snap now s)"
    unfolding botFinish_def Some option.case Let_def
    by (rule ginv_enqueue [OF g assms(2)]) (simp add: pend_ok_def in_map)
  moreover have "bots (botFinish k snap now s) = bots s"
    unfolding botFinish_def Some option.case Let_def enqueuePendingState_def by simp
  ultimately show ?thesis
    using assms(1) by (simp add: binv_def)
qed

lemma binv_setBot:
  assumes "binv E s" "clock_mono E" "bot_ok E k b"
  shows "binv E (s\<lparr>bots := map_set k b (bots s)\<rparr>)"
proof -
  have g: "ginv E s" and b: "map_ok (bots s)" "map_all (bot_ok E) (bots s)"
    using assms(1) by (simp_all add: binv_def)
  have "ginv E (s\<lparr>bots := map_set k b (bots s)\<rparr>)"
    by (rule ginv_keep [OF g assms(2)]) simp_all
  moreover have "map_all (bot_ok E) (map_set k b (bots s))"
    using b(2) assms(3) by (rule map_all_set)
  ultimately show ?thesis using b(1) by (simp add: binv_def)
qed

lemma binv_drawn:
  assumes "binv E s" "clock_mono E" "drawn s t"
  shows "binv E t"
proof -
  obtain n where t: "t = s\<lparr>rnd := rnd s + n\<rparr>" using assms(3) by (auto simp: drawn_def)
  have g: "ginv E s" using assms(1) by (simp add: binv_def)
  have "ginv E t" by (rule ginv_keep [OF g assms(2)]) (simp_all add: t)
  then show ?thesis by (rule binvI [OF assms(1)]) (simp add: t)
qed

text \<open>The bot and its cached position move together.\<close>

lemma binv_moved:
  assumes "binv E s" "clock_mono E" "bot_ok E k b"
  shows "binv E (s\<lparr>bots := map_set k b (bots s),
     playersCache := updPlayer k (\<lambda>p. p\<lparr>ps_pos := b_pos b\<rparr>) (playersCache s)\<rparr>)"
proof -
  let ?t = "s\<lparr>bots := map_set k b (bots s)\<rparr>"
  have t: "binv E ?t" by (rule binv_setBot [OF assms])
  then have g: "ginv E ?t" by (simp add: binv_def)
  have in_map: "\<not> outsideMap (b_pos b)"
    using assms(3) zone_inside unfolding bot_ok_def by blast
  have "map_all snap_ok (updPlayer k (\<lambda>p. p\<lparr>ps_pos := b_pos b\<rparr>) (playersCache s))"
    using ginv_fields(3) [OF g] in_map by (intro cache.upd_inv) (simp_all add: snap_ok_def)
  then have "ginv E (?t\<lparr>playersCache := updPlayer k (\<lambda>p. p\<lparr>ps_pos := b_pos b\<rparr>) (playersCache s)\<rparr>)"
    using ginv_fields [OF g] by (intro ginv_frame [OF g assms(2)]) simp_all
  then show ?thesis by (rule binvI [OF t]) simp
qed

lemma botRetarget_ok:
  assumes "bot_ok E k b" "botRetarget E b now s = (b', s')"
  shows "bot_ok E k b' \<and> drawn s s'"
  using assms getRandomMoveTarget_zone [of s E "b_pos b"]
  by (auto simp: botRetarget_def bot_ok_def split: if_splits prod.splits)

lemma botRespawn_binv:
  assumes "binv E s" "clock_mono E" "rand_unit E" "bot_ok E k b" "snap_ok k snap"
  shows "binv E (botRespawn E b snap rest now s)"
proof -
  obtain n p where p: "getRandomSpawnPos E s = (p, s\<lparr>rnd := rnd s + n\<rparr>)" "inZone 150 p" "onGround E p"
    using getRandomSpawnPos_spec [OF assms(3)] .
  let ?t = "updBot k (\<lambda>b. b\<lparr>b_pos := p, b_hp := 100, b_vel := vec 0 0 0, b_targetPos := None\<rparr>)
    (s\<lparr>rnd := rnd s + n\<rparr>)"
  let ?r = "snap\<lparr>ps_pos := p, ps_hp := 100, ps_deadUntil := Some 0, ps_updatedAt := now\<rparr>"
  have k: "b_id b = k" using assms(4) by (simp add: bot_ok_def)
  have "binv E (s\<lparr>rnd := rnd s + n\<rparr>)"
    by (rule binv_drawn [OF assms(1,2)]) (auto simp: drawn_def)
  then have t: "binv E ?t"
    by (rule binv_updBot [OF _ assms(2)]) (use p in \<open>simp_all add: bot_ok_def\<close>)
  then have gt: "ginv E ?t" by (simp add: binv_def)
  have in_map: "\<not> outsideMap p" using zone_inside p by blast
  then have r: "snap_ok k ?r" using assms(5) by (simp add: snap_ok_def)
  have "ginv E (?t\<lparr>playersCache := map_set k ?r (playersCache ?t)\<rparr>)"
    by (rule ginv_write [OF gt assms(2) _ _ _ _ r]) simp_all
  then have "ginv E (botRespawn E b snap rest now s)"
    unfolding botRespawn_def p(1) Let_def prod.case k
    using in_map by (intro append_ginv assms(2)) (simp_all add: leave_ready_def)
  moreover have "bots (botRespawn E b snap rest now s) = bots ?t"
    unfolding botRespawn_def p(1) Let_def prod.case k
    by (simp add: appendEventInMem_def date_now_def Let_def)
  ultimately show ?thesis using t by (rule binvI [rotated])
qed

lemma append_bots [simp]:
  fixes s :: "'z bgame_scheme"
  shows "bots (appendEventInMem E ev k s) = bots s"
  by (simp add: appendEventInMem_def date_now_def Let_def)

lemma botShoot_binv:
  assumes "binv E s" "clock_mono E" "\<And>i d p. cont_ok (k i d p)"
  shows "binv E (botShoot E b target k s)"
proof -
  have g: "ginv E s" using assms(1) by (simp add: binv_def)
  have "ginv E (s\<lparr>uid := Suc (uid s)\<rparr>)" by (rule ginv_keep [OF g assms(2)]) simp_all
  moreover have "snowballSpeed (GAME CONFIG) = 25" by (simp add: cfg_simps)
  ultimately have "ginv E (botShoot E b target k s)"
    unfolding botShoot_def random_uuid_def Let_def prod.case
    using assms(3) vec3Len_norm by (intro append_ginv assms(2)) (simp_all add: leave_ready_def)
  then show ?thesis
    by (rule binvI [OF assms(1)]) (simp add: botShoot_def random_uuid_def Let_def)
qed

lemma botsLoop_binv:
  fixes s :: "'z bgame_scheme"
  assumes "clock_mono E" "rand_unit E" "binv E s"
  shows "binv E (botsLoop E now ids s)"
  using assms(3)
proof (induction ids arbitrary: s)
  case Nil
  then show ?case by (simp add: botsLoop.simps)
next
  case (Cons bid rest)
  show ?case
  proof (cases "map_get (bots s) bid = None \<or> map_get (playersCache s) bid = None")
    case True
    then have "botsLoop E now (bid # rest) s = botsLoop E now rest s"
      by (auto simp: botsLoop.simps split: option.splits)
    then show ?thesis using Cons by simp
  next
    case False
    then obtain b snap where bs: "map_get (bots s) bid = Some b" "map_get (playersCache s) bid = Some snap"
      by auto
    have ok: "bot_ok E bid b" "snap_ok bid snap"
      using Cons.prems map_allD [OF _ bs(1)] map_allD [OF _ bs(2)] ginv_fields(3)
      unfolding binv_def by blast+
    consider (due) "ps_hp snap \<le> 0" "deadUntil0 snap \<le> now"
      | (dead) "ps_hp snap \<le> 0" "\<not> deadUntil0 snap \<le> now"
      | (alive) "\<not> ps_hp snap \<le> 0" by blast
    then show ?thesis
    proof cases
      case due
      then have "botsLoop E now (bid # rest) s = botRespawn E b snap rest now s"
        using bs by (simp add: botsLoop.simps)
      then show ?thesis using botRespawn_binv [OF Cons.prems assms(1,2) ok] by simp
    next
      case dead
      then have "botsLoop E now (bid # rest) s = botsLoop E now rest s"
        using bs by (simp add: botsLoop.simps)
      then show ?thesis using Cons by simp
    next
      case alive
      obtain b1 s1 where r: "botRetarget E b now s = (b1, s1)" by (metis surj_pair)
      let ?b = "botMove (e_seed E) b1"
      let ?s = "s1\<lparr>bots := map_set bid ?b (bots s1),
        playersCache := updPlayer bid (\<lambda>p. p\<lparr>ps_pos := b_pos ?b\<rparr>) (playersCache s1)\<rparr>"
      have b1: "bot_ok E bid b1" "drawn s s1" using botRetarget_ok [OF ok(1) r] by blast+
      have b: "bot_ok E bid ?b" using botMove_ok [OF b1(1)] .
      have s: "binv E ?s" using binv_moved [OF binv_drawn [OF Cons.prems assms(1) b1(2)] assms(1) b] .
      have fin: "binv E (botsLoop E now rest (botFinish bid snap now t))"
        if "binv E t" for t :: "'z bgame_scheme"
        using Cons.IH [OF botFinish_binv [OF that assms(1) ok(2)]] .
      have quiet: "binv E (?s\<lparr>bots := map_set bid (?b\<lparr>b_lastShotAt := x\<rparr>) (bots ?s)\<rparr>)"
        and turned: "binv E (?s\<lparr>bots := map_set bid (?b\<lparr>b_rotY := x\<rparr>) (bots ?s)\<rparr>)" for x
        using b by (intro binv_setBot [OF s assms(1)]; simp add: bot_ok_def)+
      have shot: "binv E (botShoot E b' target
          (\<lambda>shotId dir origin. KBotResolve bid snap rest now shotId dir origin) t)"
        if "binv E t" for b' target t
        using ok(2) by (intro botShoot_binv that assms(1)) simp
      show ?thesis
        unfolding botsLoop.simps(2) bs prod.case option.case if_not_P [OF alive] r Let_def
        using alive fin [OF s] fin [OF quiet] shot [OF turned] by (auto split: option.split)
    qed
  qed
qed

lemma updateBots_binv:
  assumes "clock_mono E" "rand_unit E" "binv E s"
  shows "binv E (updateBots E s)"
proof -
  have g: "ginv E s" using assms(3) by (simp add: binv_def)
  have "ginv E (s\<lparr>clk := Suc (clk s)\<rparr>)" by (rule ginv_keep [OF g assms(1)]) simp_all
  then have "binv E (s\<lparr>clk := Suc (clk s)\<rparr>)" by (rule binvI [OF assms(3)]) simp
  then show ?thesis
    unfolding updateBots_def date_now_def Let_def prod.case by (rule botsLoop_binv [OF assms(1,2)])
qed

lemma botShotDone_binv:
  assumes "clock_mono E" "rand_unit E" "binv E s" "snap_ok bid snap"
  shows "binv E (botShotDone E bid snap rest now shotAt s)"
proof -
  have "binv E (updBot bid (\<lambda>b. b\<lparr>b_lastShotAt := real_of_int shotAt\<rparr>) s)"
    by (rule binv_updBot [OF assms(3,1)]) (simp add: bot_ok_def)
  then show ?thesis
    unfolding botShotDone_def using botFinish_binv [OF _ assms(1,4)] botsLoop_binv [OF assms(1,2)] by blast
qed

lemma applyHit_bots [simp]:
  fixes s :: "'z bgame_scheme"
  shows "bots (applyHit E a sh v0 v k s) = bots s"
  by (simp add: applyHit_eq Let_def)

lemma botResolve_binv:
  assumes "clock_mono E" "rand_unit E" "binv E s" "snap_ok bid snap"
  shows "binv E (botResolve E bid snap rest now shotId dir origin s)"
proof -
  let ?v0 = "vec3Mul dir (snowballSpeed (GAME CONFIG))"
  have g: "ginv E s" using assms(3) by (simp add: binv_def)
  obtain b s' where r: "victimLoop E bid origin ?v0 (map_values (playersCache s)) None s = (b, s')"
    by (metis surj_pair)
  from g assms(1) r show ?thesis
  proof (cases rule: victimLoop_result)
    case (miss n)
    let ?t = "s\<lparr>clk := Suc (clk s + n)\<rparr>"
    have "ginv E ?t" by (rule ginv_keep [OF g assms(1)]) simp_all
    then have "binv E ?t" by (rule binvI [OF assms(3)]) simp
    then show ?thesis
      unfolding botResolve_def Let_def r prod.case miss option.case date_now_def
      using botShotDone_binv [OF assms(1,2) _ assms(4)] by simp
  next
    case (hit n p t)
    have "ginv E (applyHit E bid shotId ?v0 p
        (\<lambda>newHp respawnAt shotAt. KBotDeath bid snap rest now shotId p newHp respawnAt shotAt) s')"
      using hit assms(4) by (intro applyHit_ginv assms(1)) simp_all
    moreover have "bots s' = bots s" using hit(2) by simp
    ultimately show ?thesis
      unfolding botResolve_def Let_def r prod.case hit(1) option.case
      by (intro binvI [OF assms(3)]) simp_all
  qed
qed

lemma botDeath_binv:
  assumes "clock_mono E" "rand_unit E" "binv E s" "snap_ok bid snap" "ps_id victim \<noteq> bid"
  shows "binv E (botDeath E bid snap rest now shotId victim newHp respawnAt shotAt s)"
proof -
  have g: "ginv E s" using assms(3) by (simp add: binv_def)
  have "ginv E (appendEventInMem E (EvDeath (ps_id victim) (ps_name victim) bid nm shotId respawnAt)
      (KBotShot bid snap rest now shotAt) s)" for nm
    using assms(4,5) by (intro append_ginv g assms(1)) (simp_all add: leave_ready_def)
  then have "binv E (appendEventInMem E (EvDeath (ps_id victim) (ps_name victim) bid nm shotId respawnAt)
      (KBotShot bid snap rest now shotAt) s)" for nm
    by (intro binvI [OF assms(3)]) simp_all
  then show ?thesis
    unfolding botDeath_def using assms(3) botShotDone_binv [OF assms(1-4)] by (simp split: option.split)
qed

lemma initBot_binv:
  assumes "clock_mono E" "rand_unit E" "binv E s"
  shows "binv E (initBot E idName s)"
proof -
  obtain bid nm where n: "idName = (bid, nm)" by (cases idName)
  obtain m p where p: "getRandomSpawnPos E s = (p, s\<lparr>rnd := rnd s + m\<rparr>)" "inZone 150 p" "onGround E p"
    using getRandomSpawnPos_spec [OF assms(2)] .
  have in_map: "\<not> outsideMap p" using zone_inside p by blast
  obtain b snap where eq: "initBot E idName s =
      s\<lparr>rnd := Suc (Suc (rnd s + m)), bots := map_set bid b (bots s),
        clk := Suc (Suc (Suc (clk s))), playersCache := map_set bid snap (playersCache s)\<rparr>"
    and b: "b_id b = bid" "b_pos b = p" "b_targetPos b = None"
    and sn: "ps_id snap = bid" "ps_pos snap = p" "ps_hp snap = 100"
    unfolding initBot_def n p(1) Let_def prod.case math_random_def date_now_def
    by simp
  have ok: "bot_ok E bid b" "snap_ok bid snap"
    using b sn p in_map by (simp_all add: bot_ok_def snap_ok_def)
  have g: "ginv E s" and bs: "map_ok (bots s)" "map_all (bot_ok E) (bots s)"
    using assms(3) by (simp_all add: binv_def)
  have "ginv E (initBot E idName s)"
    unfolding eq by (rule ginv_write [OF g assms(1) _ _ _ _ ok(2)]) simp_all
  then show ?thesis
    using map_all_set [OF bs(2) ok(1)] bs(1) by (simp add: binv_def eq)
qed

lemma initBots_binv:
  assumes "clock_mono E" "rand_unit E" "binv E s"
  shows "binv E (initBots E s)"
proof -
  have "binv E (fold (initBot E) xs s)" for xs
    using assms(3) by (induction xs arbitrary: s) (auto intro: initBot_binv [OF assms(1,2)])
  then show ?thesis by (simp add: initBots_def)
qed

section \<open>The nearest player\<close>

text \<open>Whom a bot shoots at: players that are not bots and have hit points left.\<close>

definition botTarget :: "snapshot \<Rightarrow> bool" where
  "botTarget p \<longleftrightarrow> \<not> startsWith (ps_id p) (jslit ''bot-'') \<and> 0 < ps_hp p"

definition distXZ :: "vec3 \<Rightarrow> vec3 \<Rightarrow> real" where
  "distXZ a b = sqrt ((vx a - vx b) * (vx a - vx b) + (vz a - vz b) * (vz a - vz b))"

definition closer :: "vec3 \<Rightarrow> snapshot \<Rightarrow> (snapshot \<times> real) option \<Rightarrow> (snapshot \<times> real) option" where
  "closer c p best = better p (Some (distXZ (ps_pos p) c)) best"

lemma nearestLoop_Cons:
  "nearestLoop c (p # ps) best = nearestLoop c ps (if botTarget p then closer c p best else best)"
  by (auto simp: botTarget_def closer_def better_def distXZ_def Let_def not_le split: option.split)

declare nearestLoop.simps(2) [simp del]

lemma nearestLoop_reaches: "reaches best u \<Longrightarrow> reaches (nearestLoop c ps best) u"
  by (induction ps arbitrary: best) (auto simp: nearestLoop_Cons closer_def reaches_better_mono)

lemma nearestLoop_min:
  "q \<in> set ps \<Longrightarrow> botTarget q \<Longrightarrow> reaches (nearestLoop c ps best) (distXZ (ps_pos q) c)"
proof (induction ps arbitrary: best)
  case (Cons p ps)
  show ?case
  proof (cases "p = q")
    case True
    then show ?thesis
      using Cons.prems by (auto simp: nearestLoop_Cons closer_def intro!: nearestLoop_reaches reaches_better)
  next
    case False
    then show ?thesis using Cons by (simp add: nearestLoop_Cons)
  qed
qed simp

lemma nearestLoop_from:
  "nearestLoop c ps best = Some (p, d) \<Longrightarrow>
   best = Some (p, d) \<or> p \<in> set ps \<and> botTarget p \<and> d = distXZ (ps_pos p) c"
proof (induction ps arbitrary: best)
  case (Cons q ps)
  then show ?case
    by (fastforce simp: nearestLoop_Cons closer_def better_def split: if_splits option.splits)
qed simp

section \<open>Properties\<close>

text \<open>
  A bot spawns on the ground inside the map, at least the radius of the Christmas tree away
  from the centre unless all fifty samples of the loop fell onto the tree; it draws at most one
  hundred random numbers.
\<close>

lemma bot_spawn_place:
  assumes "rand_unit E" "getRandomSpawnPos E s = (p, s')"
  shows "\<bar>vx p\<bar> \<le> 285 / 2 \<and> \<bar>vz p\<bar> \<le> 285 / 2 \<and> vy p = botTerrainHeight (e_seed E) (vx p) (vz p) \<and>
    (25 < sqrt (vx p * vx p + vz p * vz p) \<or> (\<forall>i < 50. nearTree (spawnSample E (rnd s) i))) \<and>
    rnd s' \<le> rnd s + 100"
proof -
  obtain i where i: "i \<le> 49" "spawnLoop E 49 s = (spawnSample E (rnd s) i, s\<lparr>rnd := rnd s + 2 * Suc i\<rparr>)"
    "\<forall>j < i. nearTree (spawnSample E (rnd s) j)" "nearTree (spawnSample E (rnd s) i) \<longrightarrow> i = 49"
    using spawnLoop_spec by blast
  obtain x z where xz: "spawnSample E (rnd s) i = (x, z)" by (metis surj_pair)
  have b: "\<bar>x\<bar> \<le> 285 / 2" "\<bar>z\<bar> \<le> 285 / 2"
    using spawnSample_bound [OF assms(1), of "rnd s" i] xz by simp_all
  then have cl: "clampR (- 190) 190 x = x" "clampR (- 190) 190 z = z" by (auto intro!: clampR_id)
  have p: "p = vec x (botTerrainHeight (e_seed E) x z) z" "s' = s\<lparr>rnd := rnd s + 2 * Suc i\<rparr>"
    using assms(2) i(2) xz cl by (simp_all add: getRandomSpawnPos_def MAP_HALF_eq)
  have "\<forall>j < 50. nearTree (spawnSample E (rnd s) j)" if "nearTree (x, z)"
  proof (intro allI impI)
    fix j :: nat assume "j < 50"
    then have "j < i \<or> j = i" using that i(4) xz by auto
    then show "nearTree (spawnSample E (rnd s) j)" using i(3) that xz by auto
  qed
  moreover have "25 < sqrt (x * x + z * z)" if "\<not> nearTree (x, z)"
    using that by (simp add: nearTree_def not_le)
  ultimately show ?thesis using b p i(1) by auto
qed

text \<open>
  A bot shoots at the nearest player: the result of the search is a listed player that is
  no bot, has hit points left, and is at minimal horizontal distance among all such players; there
  is none exactly when no such player is listed.
\<close>

lemma nearest_player_minimal:
  "case findNearestPlayer c m of
     None \<Rightarrow> \<not> (\<exists>q \<in> set (map_values m). botTarget q)
   | Some p \<Rightarrow> p \<in> set (map_values m) \<and> botTarget p \<and>
       \<not> (\<exists>q \<in> set (map_values m). botTarget q \<and> distXZ (ps_pos q) c < distXZ (ps_pos p) c)"
proof (cases "nearestLoop c (map_values m) None")
  case None
  then show ?thesis
    using nearestLoop_min [of _ "map_values m" c None] by (force simp: findNearestPlayer_def reaches_def)
next
  case (Some pd)
  then obtain p d where p: "nearestLoop c (map_values m) None = Some (p, d)" by (cases pd) auto
  have "p \<in> set (map_values m) \<and> botTarget p \<and> d = distXZ (ps_pos p) c"
    using nearestLoop_from [OF p] by simp
  moreover have "d \<le> distXZ (ps_pos q) c" if "q \<in> set (map_values m)" "botTarget q" for q
    using nearestLoop_min [OF that, of c None] p by (simp add: reaches_def)
  ultimately show ?thesis using p by (auto simp: findNearestPlayer_def not_less)
qed

end
