(* ===== verification/Gateway.thy ===== *)
theory Gateway
  imports Bots
begin

text \<open>
  \<open>ws.ts\<close>: connections, message dispatch, and the server as a whole. The closure of a socket
  holds the variable \<open>client\<close> and the hello timer (\<open>conn\<close>). \<open>exec\<close> runs one macro step: an
  external event (a connection, a decoded message, a close, a timer) or one pending task; any
  order of events and tasks is a run. An exception that no handler catches ends the process, as
  an unhandled rejection does on the platform (\<open>uncaught\<close>).
\<close>

section \<open>State\<close>

record conn =
  cn_client :: "nat option"
  cn_helloTimer :: bool

record world = bgame +
  conns :: "(nat, conn) jsmap"
  closing :: "(nat \<times> nat) list"
  uncaught :: "js_err option"

section \<open>Connections\<close>

definition handleWs :: "nat \<Rightarrow> world \<Rightarrow> world" where
  "handleWs sock s =
     (let s = startStateSyncOnce s;
          s = startStateTickOnce s
      in s\<lparr>conns := map_set sock \<lparr>cn_client = None, cn_helloTimer = True\<rparr> (conns s)\<rparr>)"

definition wsClose :: "nat \<Rightarrow> nat \<Rightarrow> world \<Rightarrow> world" where
  "wsClose sock code s = s\<lparr>closing := closing s @ [(sock, code)]\<rparr>"

definition helloTimeout :: "nat \<Rightarrow> world \<Rightarrow> world" where
  "helloTimeout sock s =
     (case map_get (conns s) sock of
        Some c \<Rightarrow>
          if cn_helloTimer c
          then wsClose sock 4000 (s\<lparr>conns := map_set sock (c\<lparr>cn_helloTimer := False\<rparr>) (conns s)\<rparr>)
          else s
      | None \<Rightarrow> s)"

text \<open>\<open>wsSend\<close>: the message is serialised at the call and sent after its encryption.\<close>

definition wsSend :: "nat \<Rightarrow> server_msg \<Rightarrow> cont \<Rightarrow> world \<Rightarrow> world" where
  "wsSend sock msg k s = s\<lparr>tasks := tasks s @ [TSend sock msg k]\<rparr>"

definition raise :: "js_err option \<times> world \<Rightarrow> world" where
  "raise r = (case r of (None, s) \<Rightarrow> s | (Some e, s) \<Rightarrow> s\<lparr>uncaught := Some e\<rparr>)"

section \<open>Messages\<close>

definition isMsg :: "jsval \<Rightarrow> string \<Rightarrow> bool" where
  "isMsg msg tag \<longleftrightarrow> getp msg ''t'' = JStr (jslit tag)"

definition duplicateNameText :: jsstr where
  "duplicateNameText = [0x8BE5, 0x7528, 0x6237, 0x540D, 0x5DF2, 0x5728, 0x7EBF, 0xFF0C, 0x8BF7, 0x4F7F, 0x7528, 0x5176, 0x4ED6, 0x540D, 0x79F0, 0x6216, 0x7A0D, 0x540E, 0x518D, 0x8BD5]"

text \<open>The part of \<open>onmessage\<close> for a socket that has not said hello yet.\<close>

definition onHello :: "env \<Rightarrow> nat \<Rightarrow> conn \<Rightarrow> jsval \<Rightarrow> int \<Rightarrow> world \<Rightarrow> world" where
  "onHello E sock c msg now s =
     (if \<not> isMsg msg ''hello'' then s
      else
        let s = s\<lparr>conns := map_set sock (c\<lparr>cn_helloTimer := False\<rparr>) (conns s)\<rparr>;
            name = getp msg ''name''
        in if \<not> ALLOW_DUPLICATE_NAMES CONFIG \<and>
              (\<exists>r \<in> set (map_values (clients s)). wc_name (heap s ! r) = name)
           then wsSend sock (MsgError duplicateNameText) (KCloseDuplicate sock) s
           else (case serverOnHello E name s of
                   (Inl e, s) \<Rightarrow> s\<lparr>uncaught := Some e\<rparr>
                 | (Inr snap, s) \<Rightarrow> s\<lparr>tasks := tasks s @ [TCont (KHello sock snap now)]\<rparr>))"

text \<open>\<open>onmessage\<close> after \<open>await serverOnHello\<close>, up to the broadcast of the join.\<close>

definition afterHello :: "env \<Rightarrow> nat \<Rightarrow> snapshot \<Rightarrow> int \<Rightarrow> world \<Rightarrow> world" where
  "afterHello E sock snap now s =
     (let client = \<lparr>wc_id = ps_id snap, wc_name = ps_name snap, wc_ws = sock,
                    wc_connectedAt = now, wc_bucketStart = now, wc_bucketCount = 0,
                    wc_lastStateAt = 0\<rparr>;
          r = length (heap s);
          s = s\<lparr>heap := heap s @ [client],
                conns := (case map_get (conns s) sock of
                            None \<Rightarrow> conns s
                          | Some c \<Rightarrow> map_set sock (c\<lparr>cn_client := Some r\<rparr>) (conns s))\<rparr>;
          s = s\<lparr>clients := map_set (wc_id client) r (clients s)\<rparr>;
          s = s\<lparr>playersCache := map_set (ps_id snap) snap (playersCache s)\<rparr>
      in appendEventInMem E (EvJoin snap) (KWelcome sock now) s)"

text \<open>\<open>onmessage\<close> after the broadcast of the join.\<close>

definition sendWelcome :: "env \<Rightarrow> nat \<Rightarrow> int \<Rightarrow> world \<Rightarrow> world" where
  "sendWelcome E sock now s =
     (case Option.bind (map_get (conns s) sock) cn_client of
        Some r \<Rightarrow>
          let s = wsSend sock (MsgWelcome (wc_id (heap s ! r)) (WORLD CONFIG) now (e_seed E)) KDone s
          in wsSend sock
               (MsgSnapshot (WORLD CONFIG) (map_values (playersCache s)) (lastSeenSeq s)) KDone s
      | None \<Rightarrow> s)"

text \<open>A ping refreshes the time at which the player was last seen.\<close>

definition touchPlayer :: "env \<Rightarrow> jsstr \<Rightarrow> world \<Rightarrow> world" where
  "touchPlayer E k s =
     (case map_get (playersCache s) k of
        None \<Rightarrow> s
      | Some snap \<Rightarrow>
          let (t, s) = date_now E s
          in s\<lparr>playersCache := map_set k (snap\<lparr>ps_updatedAt := t\<rparr>) (playersCache s)\<rparr>)"

text \<open>The switch over the messages of a client that has joined.\<close>

definition dispatch :: "env \<Rightarrow> nat \<Rightarrow> jsval \<Rightarrow> int \<Rightarrow> world \<Rightarrow> world" where
  "dispatch E r msg now s =
     (let client = heap s ! r
      in if isMsg msg ''ping'' then
           let s = touchPlayer E (wc_id client) s;
               (t, s) = date_now E s
           in wsSend (wc_ws client) (MsgPong t) KDone s
         else if isMsg msg ''chat'' then
           raise (serverHandleChat E (wc_id client) (wc_name client) msg s)
         else if isMsg msg ''state'' then
           let (ok, client') = stateFreqOk client now;
               s = s\<lparr>heap := (heap s)[r := client']\<rparr>
           in if \<not> ok then s else serverHandleState E (wc_id client') (wc_name client') msg s
         else if isMsg msg ''snowball'' then
           serverHandleSnowball E (wc_id client) msg s
         else if isMsg msg ''rename'' then
           let s = s\<lparr>heap := (heap s)[r := client\<lparr>wc_name := getp msg ''name''\<rparr>]\<rparr>
           in raise (serverHandleRename E (wc_id client) (getp msg ''name'') s)
         else s)"

definition onMessage :: "env \<Rightarrow> nat \<Rightarrow> jsval option \<Rightarrow> world \<Rightarrow> world" where
  "onMessage E sock decoded s =
     (case (map_get (conns s) sock, decoded) of
        (Some c, Some msg) \<Rightarrow>
          if \<not> truthy msg then s
          else
            let (now, s) = date_now E s
            in (case cn_client c of
                  None \<Rightarrow> onHello E sock c msg now s
                | Some r \<Rightarrow>
                    let (ok, client') = rateLimitOk (heap s ! r) now;
                        s = s\<lparr>heap := (heap s)[r := client']\<rparr>
                    in if \<not> ok
                       then wsClose (wc_ws client') 4008
                              (wsSend (wc_ws client') (MsgError (jslit ''rate limited'')) KDone s)
                       else dispatch E r msg now s)
      | _ \<Rightarrow> s)"

definition onClose :: "env \<Rightarrow> nat \<Rightarrow> world \<Rightarrow> world" where
  "onClose E sock s =
     (case map_get (conns s) sock of
        None \<Rightarrow> s
      | Some c \<Rightarrow>
          let s = s\<lparr>conns := map_set sock (c\<lparr>cn_helloTimer := False\<rparr>) (conns s)\<rparr>
          in (case cn_client c of
                None \<Rightarrow> s
              | Some r \<Rightarrow>
                  let client = heap s ! r;
                      s = s\<lparr>clients := map_delete (wc_id client) (clients s)\<rparr>
                  in appendEventInMem E (EvLeave (wc_id client) (wc_name client)) KDone s))"

section \<open>Continuations and tasks\<close>

fun resume :: "env \<Rightarrow> cont \<Rightarrow> world \<Rightarrow> world" where
  "resume E KDone s = s"
| "resume E (KHello sock snap now) s = afterHello E sock snap now s"
| "resume E (KWelcome sock now) s = sendWelcome E sock now s"
| "resume E (KCloseDuplicate sock) s = wsClose sock 4001 s"
| "resume E (KRespawned p) s = enqueuePendingState p s"
| "resume E (KSnowResolve clientId shotId dir origin) s = snowResolve E clientId shotId dir origin s"
| "resume E (KSnowDeath clientId shotId victim newHp respawnAt) s =
     raise (snowDeath E clientId shotId victim newHp respawnAt s)"
| "resume E (KBotsRest rest now) s = botsLoop E now rest s"
| "resume E (KBotResolve bid snap rest now shotId dir origin) s =
     botResolve E bid snap rest now shotId dir origin s"
| "resume E (KBotDeath bid snap rest now shotId victim newHp respawnAt shotAt) s =
     botDeath E bid snap rest now shotId victim newHp respawnAt shotAt s"
| "resume E (KBotShot bid snap rest now shotAt) s = botShotDone E bid snap rest now shotAt s"

text \<open>A task runs; what waited for it becomes a task of its own.\<close>

fun runTask :: "env \<Rightarrow> (nat \<Rightarrow> nat option) \<Rightarrow> cont task \<Rightarrow> world \<Rightarrow> world" where
  "runTask E buf (TBroadcast msg k) s =
     (let s = broadcastLoop msg s in s\<lparr>tasks := tasks s @ [TCont k]\<rparr>)"
| "runTask E buf (TBroadcastDrop msg) s = broadcastDropLoop buf msg s"
| "runTask E buf (TSend sock msg k) s =
     s\<lparr>outbox := outbox s @ [(sock, msg)], tasks := tasks s @ [TCont k]\<rparr>"
| "runTask E buf (TCont k) s = resume E k s"

section \<open>The server\<close>

datatype label =
    LOpen nat
  | LMessage nat "jsval option"
  | LClose nat
  | LHelloTimeout nat
  | LTask nat "nat \<Rightarrow> nat option"
  | LCleanupPlayers
  | LCleanupShots
  | LCleanupKills
  | LStateSync
  | LStateTick
  | LBots

fun exec :: "env \<Rightarrow> label \<Rightarrow> world \<Rightarrow> world" where
  "exec E (LOpen sock) s = handleWs sock s"
| "exec E (LMessage sock v) s = onMessage E sock v s"
| "exec E (LClose sock) s = onClose E sock s"
| "exec E (LHelloTimeout sock) s = helloTimeout sock s"
| "exec E (LTask i buf) s =
     (if i < length (tasks s)
      then runTask E buf (tasks s ! i)
             (s\<lparr>tasks := take i (tasks s) @ drop (Suc i) (tasks s)\<rparr>)
      else s)"
| "exec E LCleanupPlayers s = cleanupPlayers E s"
| "exec E LCleanupShots s = cleanupShots E s"
| "exec E LCleanupKills s =
     (let (now, s) = date_now E s in s\<lparr>db := snd (cleanupOldKills now (db s))\<rparr>)"
| "exec E LStateSync s = (if stateSyncStarted s then stateSyncTurn s else s)"
| "exec E LStateTick s = (if stateTickStarted s then stateTickTurn E s else s)"
| "exec E LBots s = updateBots E s"

inductive wstep :: "env \<Rightarrow> world \<Rightarrow> world \<Rightarrow> bool" for E where
  wstep_exec: "uncaught s = None \<Longrightarrow> wstep E s (exec E l s)"

text \<open>A run given by its labels, for concrete executions.\<close>

definition runLabels :: "env \<Rightarrow> label list \<Rightarrow> world \<Rightarrow> world" where
  "runLabels E ls s = fold (\<lambda>l s. if uncaught s = None then exec E l s else s) ls s"

definition emptyWorld :: world where
  "emptyWorld = \<lparr>clk = 0, rnd = 0, uid = 0, latestSeq = 0, lastSeenSeq = 0, events = [],
     playersCache = [], heap = [], clients = [], pendingStates = [],
     stateSyncStarted = False, stateTickStarted = False, tasks = [], outbox = [],
     db = \<lparr>kills = [], player_stats_tab = []\<rparr>, seenShots = [], bots = [],
     conns = [], closing = [], uncaught = None\<rparr>"

text \<open>The state in which the server starts to serve: \<open>main.ts\<close> has initialised the bots.\<close>

definition initWorld :: "env \<Rightarrow> world" where
  "initWorld E = initBots E emptyWorld"

section \<open>The invariant of the server\<close>

text \<open>
  Every client object in the map of clients exists and stands under its own identifier; the
  sockets refer to existing client objects.
\<close>

definition refs_ok :: "world \<Rightarrow> bool" where
  "refs_ok s \<longleftrightarrow>
     map_ok (clients s) \<and> map_all (\<lambda>k r. r < length (heap s) \<and> wc_id (heap s ! r) = k) (clients s) \<and>
     map_all (\<lambda>sock c. \<forall>r. cn_client c = Some r \<longrightarrow> r < length (heap s)) (conns s)"

definition winv :: "env \<Rightarrow> world \<Rightarrow> bool" where
  "winv E s \<longleftrightarrow> binv E s \<and> refs_ok s"

lemma winvD: "winv E s \<Longrightarrow> binv E s" "winv E s \<Longrightarrow> ginv E s" "winv E s \<Longrightarrow> refs_ok s"
  by (simp_all add: winv_def binv_def)

text \<open>Steps that touch neither the clients, nor the sockets, nor the table of shots.\<close>

definition same_refs :: "world \<Rightarrow> world \<Rightarrow> bool" where
  "same_refs s t \<longleftrightarrow> clients t = clients s \<and> heap t = heap s \<and> conns t = conns s \<and>
     seenShots t = seenShots s \<and> clk s \<le> clk t"

lemma same_refs_refl [simp]: "same_refs s s"
  by (simp add: same_refs_def)

lemma winvI: "winv E s \<Longrightarrow> binv E t \<Longrightarrow> same_refs s t \<Longrightarrow> winv E t"
  by (simp add: winv_def refs_ok_def same_refs_def)

lemma append_world [simp]:
  fixes s :: world
  shows "conns (appendEventInMem E ev k s) = conns s"
    and "uncaught (appendEventInMem E ev k s) = uncaught s"
    and "closing (appendEventInMem E ev k s) = closing s"
    and "db (appendEventInMem E ev k s) = db s"
    and "seenShots (appendEventInMem E ev k s) = seenShots s"
  by (simp_all add: appendEventInMem_def date_now_def Let_def)

lemma append_same [simp]: "same_refs s t \<Longrightarrow> same_refs s (appendEventInMem E ev k t)"
  by (simp add: same_refs_def)

text \<open>Steps that leave the bots alone as well.\<close>

definition kept :: "world \<Rightarrow> world \<Rightarrow> bool" where
  "kept s t \<longleftrightarrow> same_refs s t \<and> bots t = bots s"

lemma kept_refl [simp]: "kept s s"
  by (simp add: kept_def same_refs_def)

lemma append_kept [simp]: "kept s t \<Longrightarrow> kept s (appendEventInMem E ev k t)"
  by (simp add: kept_def same_refs_def)

lemma winv_kept: "winv E s \<Longrightarrow> ginv E t \<Longrightarrow> kept s t \<Longrightarrow> winv E t"
  by (simp add: winv_def binv_def refs_ok_def kept_def same_refs_def)

lemma winv_shots [simp]: "winv E (s\<lparr>seenShots := m\<rparr>) = winv E s"
  by (simp add: winv_def binv_def refs_ok_def ginv_def stream_ok_def)

subsection \<open>The handlers keep the references\<close>

lemma kept_rename: "kept s (snd (serverHandleRename E c nm s))"
  by (auto simp: serverHandleRename_def date_now_def kept_def same_refs_def split: sum.split option.split)

lemma kept_chat: "kept s (snd (serverHandleChat E c nm msg s))"
  by (auto simp: serverHandleChat_def kept_def same_refs_def split: sum.split)

lemma kept_state: "kept s (serverHandleState E c nm msg s)"
  by (auto simp: serverHandleState_def date_now_def spawnPos_eq enqueuePendingState_def kept_def same_refs_def
      Let_def split: option.split)

lemma kept_snowball: "kept s ((serverHandleSnowball E c msg s)\<lparr>seenShots := seenShots s\<rparr>)"
proof -
  obtain i s1 where c: "shotIdOf E (getp msg ''id'') s = (i, s1)" by (metis surj_pair)
  have s1: "kept s s1"
    using c by (cases "getp msg ''id''")
      (auto simp: shotIdOf_def random_uuid_def kept_def same_refs_def split: if_splits)
  obtain b s2 where b: "seenShotBefore E i s1 = (b, s2)" by (metis surj_pair)
  have "kept s (s2\<lparr>seenShots := seenShots s\<rparr>)"
    using s1 b by (auto simp: seenShotBefore_cases kept_def same_refs_def Let_def split: if_splits)
  then show ?thesis
    by (simp add: serverHandleSnowball_def c b Let_def split: option.split) (simp add: kept_def same_refs_def)
qed

lemma kept_applyHit [simp]: "kept s t \<Longrightarrow> kept s (applyHit E a sh v0 v k t)"
  by (simp add: applyHit_eq Let_def) (simp add: kept_def same_refs_def)

lemma kept_victims:
  assumes "victimLoop E self origin v0 ps best s = (b, t)"
  shows "kept s t"
  using victimLoop_state [of E self origin v0 ps best s] assms by (auto simp: kept_def same_refs_def)

lemma kept_snowResolve: "kept s (snowResolve E c sh dir origin s)"
proof -
  obtain b t where r: "victimLoop E c origin (vec3Mul dir (snowballSpeed (GAME CONFIG)))
      (map_values (playersCache s)) None s = (b, t)"
    by (metis surj_pair)
  then have "kept s t" by (rule kept_victims)
  then show ?thesis by (simp add: snowResolve_def r split: option.split)
qed

lemma kept_recordKill:
  assumes "recordKill E q s = (res, t)"
  shows "kept s t"
  using assms
  by (auto simp: recordKill_def random_uuid_def date_now_def Let_def kept_def same_refs_def
      split: option.splits sum.splits)

lemma kept_snowDeath: "kept s (snd (snowDeath E c sh v hp r s))"
proof -
  let ?q = "\<lparr>kq_attackerId = c, kq_attackerName = attackerNameOf (map_get (playersCache s) c),
               kq_victimId = ps_id v, kq_victimName = ps_name v, kq_shotId = sh\<rparr>"
  obtain res t where q: "recordKill E ?q s = (res, t)" by (metis surj_pair)
  have "kept s t" using kept_recordKill [OF q] .
  then show ?thesis using q by (simp add: snowDeath_def split: sum.split)
qed

subsection \<open>The bots keep the references\<close>

lemma same_refs_trans: "same_refs s t \<Longrightarrow> same_refs t u \<Longrightarrow> same_refs s u"
  by (simp add: same_refs_def)

lemma same_drawn: "drawn s t \<Longrightarrow> same_refs s t" for s t :: world
  by (auto simp: drawn_def same_refs_def)

lemma same_updBot [simp]: "same_refs s (updBot k f t) = same_refs s t"
  by (simp add: updBot_def same_refs_def split: option.split)

lemma same_botFinish [simp]: "same_refs s (botFinish k snap now t) = same_refs s t"
  by (simp add: botFinish_def enqueuePendingState_def same_refs_def Let_def split: option.split)

lemma spawnPos_drawn: "drawn s (snd (getRandomSpawnPos E s))"
proof -
  obtain i where "spawnLoop E 49 s = (spawnSample E (rnd s) i, s\<lparr>rnd := rnd s + 2 * Suc i\<rparr>)"
    using spawnLoop_spec by blast
  then show ?thesis
    by (cases "spawnSample E (rnd s) i") (auto simp: getRandomSpawnPos_def drawn_def Let_def intro!: exI [of _ "2 * Suc i"])
qed

lemma same_botRespawn: "same_refs s (botRespawn E b snap rest now s)"
proof -
  obtain p t where p: "getRandomSpawnPos E s = (p, t)" by (metis surj_pair)
  then have "same_refs s t" using spawnPos_drawn [of s E] same_drawn by simp
  then show ?thesis
    unfolding botRespawn_def p Let_def prod.case
    by (simp add: updBot_def same_refs_def split: option.split)
qed

lemma same_botShoot [simp]: "same_refs s t \<Longrightarrow> same_refs s (botShoot E b target k t)"
  by (simp add: botShoot_def random_uuid_def Let_def) (simp add: same_refs_def)

lemma botRetarget_drawn: "drawn s (snd (botRetarget E b now s))"
  using getRandomMoveTarget_zone [of s E "b_pos b"] by (auto simp: botRetarget_def split: prod.splits)

lemma same_botsLoop: "same_refs s (botsLoop E now ids s)"
proof (induction ids arbitrary: s)
  case Nil
  show ?case by (simp add: botsLoop.simps)
next
  case (Cons bid rest)
  have later: "same_refs s t \<Longrightarrow> same_refs s (botsLoop E now rest t)" for s t
    using Cons.IH same_refs_trans by blast
  obtain b' t where r: "botRetarget E (the (map_get (bots s) bid)) now s = (b', t)" by (metis surj_pair)
  then have "same_refs s t" using botRetarget_drawn same_drawn by (metis snd_conv)
  then have upd: "same_refs s (t\<lparr>bots := x, playersCache := c\<rparr>)" "same_refs s (t\<lparr>bots := x, playersCache := c, bots := y\<rparr>)"
    for x c y by (simp_all add: same_refs_def)
  show ?case
    unfolding botsLoop.simps(2)
    using r same_botRespawn later upd
    by (auto simp: Let_def split: option.split)
qed

lemma same_updateBots: "same_refs s (updateBots E s)"
proof -
  have "same_refs s (s\<lparr>clk := Suc (clk s)\<rparr>)" by (simp add: same_refs_def)
  then show ?thesis
    using same_botsLoop same_refs_trans by (auto simp: updateBots_def date_now_def)
qed

lemma same_botShotDone: "same_refs s (botShotDone E bid snap rest now t1 s)"
  unfolding botShotDone_def by (rule same_refs_trans [OF _ same_botsLoop]) simp

lemma same_botResolve: "same_refs s (botResolve E bid snap rest now sh dir origin s)"
proof -
  obtain b t where r: "victimLoop E bid origin (vec3Mul dir (snowballSpeed (GAME CONFIG)))
      (map_values (playersCache s)) None s = (b, t)"
    by (metis surj_pair)
  then have t: "same_refs s t" using kept_victims by (auto simp: kept_def)
  then have "same_refs s (t\<lparr>clk := Suc (clk t)\<rparr>)" by (simp add: same_refs_def)
  then have "same_refs s (botShotDone E bid snap rest now t1 (t\<lparr>clk := Suc (clk t)\<rparr>))" for t1
    using same_botShotDone same_refs_trans by blast
  moreover have "same_refs s (applyHit E bid sh v0 v k t)" for v0 v k
    using t kept_applyHit [OF kept_refl [of t], of E bid sh v0 v k] same_refs_trans by (auto simp: kept_def)
  ultimately show ?thesis
    by (simp add: botResolve_def r date_now_def split: option.split)
qed

lemma same_botDeath: "same_refs s (botDeath E bid snap rest now sh v hp r t1 s)"
  using same_botShotDone by (simp add: botDeath_def split: option.split)

subsection \<open>Preservation by every step\<close>

lemma winv_keep:
  assumes "winv E s" "clock_mono E" "clk s \<le> clk t" "latestSeq t = latestSeq s"
    "lastSeenSeq t = lastSeenSeq s" "events t = events s"
    "playersCache t = playersCache s" "pendingStates t = pendingStates s"
    "tasks t = tasks s" "outbox t = outbox s" "kept s t"
  shows "winv E t"
  using assms(11) by (intro winv_kept [OF assms(1)] ginv_keep [OF winvD(2) [OF assms(1)] assms(2-10)])
    (simp_all add: kept_def same_refs_def)

lemma winv_heap:
  assumes "winv E s" "clock_mono E" "wc_id c = wc_id (heap s ! r)"
  shows "winv E (s\<lparr>heap := (heap s)[r := c]\<rparr>)"
proof -
  have g: "ginv E (s\<lparr>heap := (heap s)[r := c]\<rparr>)"
    by (rule ginv_keep [OF winvD(2) [OF assms(1)] assms(2)]) simp_all
  have "wc_id ((heap s)[r := c] ! i) = wc_id (heap s ! i)" for i
    using assms(3) by (cases "r < length (heap s)") (auto simp: nth_list_update list_update_beyond)
  then show ?thesis
    using assms(1) g by (simp add: winv_def binv_def refs_ok_def)
qed

lemma winv_conn:
  assumes "winv E s" "clock_mono E" "\<And>r. cn_client c = Some r \<Longrightarrow> r < length (heap s)"
  shows "winv E (s\<lparr>conns := map_set sock c (conns s)\<rparr>)"
proof -
  have g: "ginv E (s\<lparr>conns := map_set sock c (conns s)\<rparr>)"
    by (rule ginv_keep [OF winvD(2) [OF assms(1)] assms(2)]) simp_all
  have "map_all (\<lambda>sock c. \<forall>r. cn_client c = Some r \<longrightarrow> r < length (heap s)) (map_set sock c (conns s))"
    using assms(1,3) by (intro map_all_set) (auto simp: winv_def refs_ok_def)
  then show ?thesis
    using assms(1) g by (simp add: winv_def binv_def refs_ok_def)
qed

lemma winv_wsSend:
  assumes "winv E s" "clock_mono E" "msg_ok msg" "cont_ok k"
  shows "winv E (wsSend sock msg k s)"
proof -
  have "ginv E (wsSend sock msg k s)"
    unfolding wsSend_def
    by (rule ginv_task [OF winvD(2) [OF assms(1)] assms(2), where x = "TSend sock msg k"])
      (simp_all add: assms(3,4))
  then show ?thesis by (rule winv_kept [OF assms(1)]) (simp add: wsSend_def kept_def same_refs_def)
qed

lemma winv_wsClose: "winv E s \<Longrightarrow> clock_mono E \<Longrightarrow> winv E (wsClose sock code s)"
  by (erule winv_keep) (simp_all add: wsClose_def kept_def same_refs_def)

lemma winv_raise:
  assumes "winv E (snd r)" "clock_mono E"
  shows "winv E (raise r)"
proof -
  have "winv E ((snd r)\<lparr>uncaught := e\<rparr>)" for e
    by (rule winv_keep [OF assms]) (simp_all add: kept_def same_refs_def)
  then show ?thesis using assms(1) by (auto simp: raise_def split: prod.split option.split)
qed

lemma winv_conn_get:
  "winv E s \<Longrightarrow> map_get (conns s) sock = Some c \<Longrightarrow> cn_client c = Some r \<Longrightarrow> r < length (heap s)"
  unfolding winv_def refs_ok_def by (blast dest: map_allD)

lemma handleWs_winv:
  assumes "winv E s" "clock_mono E"
  shows "winv E (handleWs sock s)"
proof -
  have "winv E (startStateTickOnce (startStateSyncOnce s))"
    by (rule winv_keep [OF assms]) (simp_all add: startStateTickOnce_def startStateSyncOnce_def kept_def same_refs_def)
  then show ?thesis
    unfolding handleWs_def Let_def by (rule winv_conn [OF _ assms(2)]) simp
qed

lemma helloTimeout_winv:
  assumes "winv E s" "clock_mono E"
  shows "winv E (helloTimeout sock s)"
proof (cases "map_get (conns s) sock")
  case None
  then show ?thesis using assms(1) by (simp add: helloTimeout_def)
next
  case (Some c)
  have "winv E (s\<lparr>conns := map_set sock (c\<lparr>cn_helloTimer := False\<rparr>) (conns s)\<rparr>)"
    by (rule winv_conn [OF assms]) (use winv_conn_get [OF assms(1) Some] in simp)
  then show ?thesis
    using Some assms by (simp add: helloTimeout_def winv_wsClose)
qed

lemma onHello_winv:
  assumes "winv E s" "clock_mono E" "rand_unit E" "map_get (conns t) sock = Some c" "winv E t" "heap t = heap s"
  shows "winv E (onHello E sock c msg now s)"
proof -
  let ?s = "s\<lparr>conns := map_set sock (c\<lparr>cn_helloTimer := False\<rparr>) (conns s)\<rparr>"
  have s: "winv E ?s"
    by (rule winv_conn [OF assms(1,2)]) (use winv_conn_get [OF assms(5,4)] assms(6) in simp)
  obtain res u where r: "serverOnHello E (getp msg ''name'') ?s = (res, u)" by (metis surj_pair)
  have ge: "ginv E u" using serverOnHello_ginv [OF winvD(2) [OF s] assms(2)] r by (metis snd_conv)
  moreover have "kept ?s u" using r by (auto simp: serverOnHello_eq kept_def same_refs_def split: sum.splits)
  ultimately have u: "winv E u" using winv_kept [OF s] by blast
  have "winv E (u\<lparr>uncaught := e\<rparr>)" for e
    by (rule winv_keep [OF u assms(2)]) (simp_all add: kept_def same_refs_def)
  moreover have "winv E (u\<lparr>tasks := tasks u @ [TCont (KHello sock snap now)]\<rparr>)" if "res = Inr snap" for snap
  proof -
    have "join_ok snap" using serverOnHello_join [OF assms(3)] r that by blast
    then have "ginv E (u\<lparr>tasks := tasks u @ [TCont (KHello sock snap now)]\<rparr>)"
      by (intro ginv_task [OF winvD(2) [OF u] assms(2), where x = "TCont (KHello sock snap now)"]) simp_all
    then show ?thesis by (rule winv_kept [OF u]) (simp add: kept_def same_refs_def)
  qed
  ultimately show ?thesis
    using assms(1) r winv_wsSend [OF s assms(2)]
    by (simp add: onHello_def Let_def split: sum.split)
qed

lemma afterHello_winv:
  assumes "winv E s" "clock_mono E" "join_ok snap"
  shows "winv E (afterHello E sock snap now s)"
proof -
  define cl where "cl = \<lparr>wc_id = ps_id snap, wc_name = ps_name snap, wc_ws = sock,
     wc_connectedAt = now, wc_bucketStart = now, wc_bucketCount = 0, wc_lastStateAt = 0\<rparr>"
  define cs where "cs = (case map_get (conns s) sock of None \<Rightarrow> conns s
     | Some c \<Rightarrow> map_set sock (c\<lparr>cn_client := Some (length (heap s))\<rparr>) (conns s))"
  let ?s = "s\<lparr>heap := heap s @ [cl], conns := cs,
     clients := map_set (ps_id snap) (length (heap s)) (clients s),
     playersCache := map_set (ps_id snap) snap (playersCache s)\<rparr>"
  have eq: "afterHello E sock snap now s = appendEventInMem E (EvJoin snap) (KWelcome sock now) ?s"
    unfolding afterHello_def Let_def cl_def cs_def by simp
  note g = winvD(2) [OF assms(1)]
  have ok: "snap_ok (ps_id snap) snap" using assms(3) by (simp add: join_ok_def)
  have "ginv E ?s"
    using ginv_fields [OF g] ok by (intro ginv_frame [OF g assms(2)]) (auto intro: map_all_set)
  then have "ginv E (afterHello E sock snap now s)"
    unfolding eq using assms(3) by (intro append_ginv assms(2)) (simp_all add: leave_ready_def)
  moreover have "refs_ok ?s"
  proof -
    have r: "map_ok (clients s)"
      "map_all (\<lambda>k r. r < length (heap s) \<and> wc_id (heap s ! r) = k) (clients s)"
      "map_all (\<lambda>sock c. \<forall>r. cn_client c = Some r \<longrightarrow> r < length (heap s)) (conns s)"
      using winvD(3) [OF assms(1)] by (simp_all add: refs_ok_def)
    have "map_all (\<lambda>k r. r < Suc (length (heap s)) \<and> wc_id ((heap s @ [cl]) ! r) = k)
        (map_set (ps_id snap) (length (heap s)) (clients s))"
      using r(2) by (intro map_all_set map_all_mono [OF r(2)]) (auto simp: nth_append cl_def)
    moreover have "map_all (\<lambda>sock c. \<forall>r. cn_client c = Some r \<longrightarrow> r < Suc (length (heap s))) (conns s)"
      by (rule map_all_mono [OF r(3)]) auto
    then have "map_all (\<lambda>sock c. \<forall>r. cn_client c = Some r \<longrightarrow> r < Suc (length (heap s))) cs"
      unfolding cs_def by (auto split: option.split intro!: map_all_set)
    ultimately show ?thesis using r(1) by (simp add: refs_ok_def)
  qed
  then have "refs_ok (afterHello E sock snap now s)" by (simp add: eq refs_ok_def)
  moreover have "bots (afterHello E sock snap now s) = bots s" by (simp add: eq)
  ultimately show ?thesis using assms(1) by (simp add: winv_def binv_def)
qed

lemma sendWelcome_winv:
  assumes "winv E s" "clock_mono E"
  shows "winv E (sendWelcome E sock now s)"
proof -
  have "winv E (wsSend sock (MsgSnapshot w (map_values (playersCache (wsSend sock m KDone s))) n) KDone
      (wsSend sock m KDone s))" if "msg_ok m" for w n m
  proof -
    have t: "winv E (wsSend sock m KDone s)" by (rule winv_wsSend [OF assms that]) simp
    show ?thesis
      using winvD(2) [OF t] ginv_fields(2,3) by (intro winv_wsSend [OF t assms(2)] snapshot_msg_ok) (auto)
  qed
  then show ?thesis using assms(1) by (simp add: sendWelcome_def Let_def split: option.split)
qed

lemma onClose_winv:
  assumes "winv E s" "clock_mono E"
  shows "winv E (onClose E sock s)"
proof (cases "map_get (conns s) sock")
  case None
  then show ?thesis using assms(1) by (simp add: onClose_def)
next
  case (Some c)
  let ?s = "s\<lparr>conns := map_set sock (c\<lparr>cn_helloTimer := False\<rparr>) (conns s)\<rparr>"
  have s: "winv E ?s"
    by (rule winv_conn [OF assms]) (use winv_conn_get [OF assms(1) Some] in simp)
  note g = winvD(2) [OF s]
  have "winv E (appendEventInMem E (EvLeave k nm) KDone (?s\<lparr>clients := map_delete k (clients ?s)\<rparr>))" for k nm
  proof -
    have "ginv E (?s\<lparr>clients := map_delete k (clients ?s)\<rparr>)"
      using ginv_fields [OF g] by (intro ginv_frame [OF g assms(2)]) simp_all
    then have "ginv E (appendEventInMem E (EvLeave k nm) KDone (?s\<lparr>clients := map_delete k (clients ?s)\<rparr>))"
      by (rule append_ginv [OF _ assms(2)]) (simp_all add: leave_ready_def)
    moreover have "map_all P (map_delete k m)" if "map_all P m" for P m
      using that by blast
    ultimately show ?thesis
      using s by (auto simp: winv_def binv_def refs_ok_def)
  qed
  then show ?thesis
    using s Some by (simp add: onClose_def Let_def split: option.split)
qed

lemma ping_winv:
  assumes "winv E s" "clock_mono E" "map_get (playersCache s) k = Some p"
  shows "winv E (s\<lparr>clk := Suc (clk s), playersCache := map_set k (p\<lparr>ps_updatedAt := t\<rparr>) (playersCache s)\<rparr>)"
proof -
  note g = winvD(2) [OF assms(1)]
  have "snap_ok k p" using map_allD [OF ginv_fields(3) [OF g] assms(3)] .
  then have u: "snap_ok k (p\<lparr>ps_updatedAt := t\<rparr>)" by (simp add: snap_ok_def)
  have "ginv E (s\<lparr>clk := Suc (clk s), playersCache := map_set k (p\<lparr>ps_updatedAt := t\<rparr>) (playersCache s)\<rparr>)"
    by (rule ginv_write [OF g assms(2) _ _ _ _ u]) simp_all
  then show ?thesis by (rule winv_kept [OF assms(1)]) (simp add: kept_def same_refs_def)
qed

lemma winv_tick: "winv E s \<Longrightarrow> clock_mono E \<Longrightarrow> winv E (s\<lparr>clk := Suc (clk s)\<rparr>)"
  by (erule winv_keep) (simp_all add: kept_def same_refs_def)

lemma stateFreqOk_id: "wc_id (snd (stateFreqOk c now)) = wc_id c"
  by (simp add: stateFreqOk_def Let_def)

lemma rateLimitOk_id: "wc_id (snd (rateLimitOk c now)) = wc_id c"
  by (simp add: rateLimitOk_def Let_def)

lemma dispatch_winv:
  assumes "winv E s" "clock_mono E" "rand_unit E"
  shows "winv E (dispatch E r msg now s)"
proof -
  let ?c = "heap s ! r"
  have ping: "winv E (wsSend (wc_ws ?c) (MsgPong t) KDone (u\<lparr>clk := Suc (clk u)\<rparr>))" if "winv E u" for t u
    by (rule winv_wsSend [OF winv_tick [OF that assms(2)] assms(2)]) simp_all
  have chat: "winv E (raise (serverHandleChat E k nm msg s))" for k nm
    by (intro winv_raise assms(2) winv_kept [OF assms(1)] chat_ginv winvD(2) [OF assms(1)] kept_chat)
  have state: "winv E (serverHandleState E k nm msg u)" if "winv E u" for k nm u
    by (intro winv_kept [OF that] state_ginv assms(2,3) winvD(2) [OF that] kept_state)
  have ball: "winv E (serverHandleSnowball E k msg s)" for k
  proof -
    let ?t = "serverHandleSnowball E k msg s"
    have "ginv E ?t" by (intro snowball_ginv assms(2) winvD(2) [OF assms(1)])
    then have "ginv E (?t\<lparr>seenShots := seenShots s\<rparr>)" by (simp add: ginv_def stream_ok_def)
    then have "winv E (?t\<lparr>seenShots := seenShots s\<rparr>)" by (rule winv_kept [OF assms(1) _ kept_snowball])
    then show ?thesis by simp
  qed
  have ren: "winv E (raise (serverHandleRename E k nm u))" if "winv E u" for k nm u
    by (intro winv_raise assms(2) winv_kept [OF that] rename_ginv winvD(2) [OF that] kept_rename)
  have freq: "winv E (s\<lparr>heap := (heap s)[r := snd (stateFreqOk ?c now)]\<rparr>)"
    by (rule winv_heap [OF assms(1,2)]) (simp add: stateFreqOk_id)
  have named: "winv E (s\<lparr>heap := (heap s)[r := ?c\<lparr>wc_name := nm\<rparr>]\<rparr>)" for nm
    by (rule winv_heap [OF assms(1,2)]) simp
  have pinged: "winv E (touchPlayer E k s)" for k
    using ping_winv [OF assms(1,2)] assms(1) by (simp add: touchPlayer_def date_now_def split: option.split)
  show ?thesis
    unfolding dispatch_def Let_def case_prod_beta date_now_def fst_conv snd_conv
    using ping [OF pinged] chat state [OF freq] freq ball ren [OF named] assms(1) by simp
qed

lemma onMessage_winv:
  assumes "winv E s" "clock_mono E" "rand_unit E"
  shows "winv E (onMessage E sock v s)"
proof (cases "map_get (conns s) sock")
  case None
  then show ?thesis using assms(1) by (simp add: onMessage_def)
next
  case (Some c)
  let ?s = "s\<lparr>clk := Suc (clk s)\<rparr>"
  have s: "winv E ?s" using winv_tick assms(1,2) .
  have hello: "winv E (onHello E sock c msg now ?s)" for msg now
    by (rule onHello_winv [OF s assms(2,3) Some assms(1)]) simp
  let ?h = "\<lambda>r now. s\<lparr>clk := Suc (clk s), heap := (heap s)[r := snd (rateLimitOk (heap s ! r) now)]\<rparr>"
  have h: "winv E (?h r now)" for r now
    using winv_heap [OF s assms(2), of "snd (rateLimitOk (heap s ! r) now)" r] by (simp add: rateLimitOk_id)
  have limited: "winv E (wsClose ws 4008 (wsSend ws (MsgError m) KDone (?h r now)))" for ws m r now
    by (intro winv_wsClose winv_wsSend h assms(2)) simp_all
  have handled: "winv E (dispatch E r msg now (?h r now))" for r msg now
    by (rule dispatch_winv [OF h assms(2,3)])
  show ?thesis
    unfolding onMessage_def Some prod.case option.case date_now_def Let_def
    using assms(1) hello limited handled by (auto simp: case_prod_beta split: option.split)
qed

lemma resume_winv:
  assumes "winv E s" "clock_mono E" "rand_unit E" "cont_ok k"
  shows "winv E (resume E k s)"
proof (cases k)
  case (KRespawned q)
  then have "ginv E (enqueuePendingState q s)"
    using assms(4) by (intro ginv_enqueue winvD(2) [OF assms(1)] assms(2)) simp
  then show ?thesis
    using KRespawned winv_kept [OF assms(1)] by (simp add: enqueuePendingState_def kept_def same_refs_def)
next
  case (KSnowResolve c sh dir origin)
  then show ?thesis
    using winv_kept [OF assms(1) snowResolve_ginv kept_snowResolve] winvD(2) [OF assms(1)] assms(2) by simp
next
  case (KSnowDeath c sh v hp r)
  then have "winv E (snd (snowDeath E c sh v hp r s))"
    using winv_kept [OF assms(1) snowDeath_ginv kept_snowDeath] winvD(2) [OF assms(1)] assms(2,4) by simp
  then show ?thesis using KSnowDeath assms(2) by (simp add: winv_raise)
next
  case (KBotsRest rest now)
  then show ?thesis
    using winvI [OF assms(1) botsLoop_binv [OF assms(2,3) winvD(1) [OF assms(1)]] same_botsLoop] by simp
next
  case (KBotResolve bid snap rest now sh dir origin)
  then show ?thesis
    using winvI [OF assms(1) botResolve_binv [OF assms(2,3) winvD(1) [OF assms(1)]] same_botResolve] assms(4)
    by simp
next
  case (KBotDeath bid snap rest now sh v hp r t)
  then show ?thesis
    using winvI [OF assms(1) botDeath_binv [OF assms(2,3) winvD(1) [OF assms(1)]] same_botDeath] assms(4)
    by simp
next
  case (KBotShot bid snap rest now t)
  then show ?thesis
    using winvI [OF assms(1) botShotDone_binv [OF assms(2,3) winvD(1) [OF assms(1)]] same_botShotDone] assms(4)
    by simp
qed (use assms in \<open>simp_all add: afterHello_winv sendWelcome_winv winv_wsClose\<close>)

text \<open>Sending adds messages to the outbox; what waited becomes a task.\<close>

lemma winv_out:
  assumes "winv E s" "clock_mono E" "\<forall>(sock, m) \<in> set out. msg_ok m" "\<forall>t \<in> set ts. task_ok t"
  shows "winv E (s\<lparr>outbox := outbox s @ out, tasks := tasks s @ ts\<rparr>)"
proof -
  note g = winvD(2) [OF assms(1)]
  have "ginv E (s\<lparr>outbox := outbox s @ out, tasks := tasks s @ ts\<rparr>)"
    using ginv_fields [OF g] assms(3,4) by (intro ginv_frame [OF g assms(2)]) auto
  then show ?thesis by (rule winv_kept [OF assms(1)]) (simp add: kept_def same_refs_def)
qed

lemma runTask_winv:
  assumes "winv E s" "clock_mono E" "rand_unit E" "task_ok t"
  shows "winv E (runTask E buf t s)"
proof (cases t)
  case (TBroadcast msg k)
  then show ?thesis
    using assms(4) winv_out [OF assms(1,2), of _ "[TCont k]"] by (auto simp: broadcastLoop_def Let_def)
next
  case (TBroadcastDrop msg)
  then show ?thesis
    using assms(4) winv_out [OF assms(1,2), of _ "[]"] by (auto simp: broadcastDropLoop_def)
next
  case (TSend sock msg k)
  then show ?thesis
    using assms(4) winv_out [OF assms(1,2), of "[(sock, msg)]" "[TCont k]"] by simp
next
  case (TCont k)
  then show ?thesis using assms resume_winv by simp
qed

lemma winv_dropTask:
  assumes "winv E s" "clock_mono E"
  shows "winv E (s\<lparr>tasks := take i (tasks s) @ drop (Suc i) (tasks s)\<rparr>)"
proof -
  note g = winvD(2) [OF assms(1)]
  have "ginv E (s\<lparr>tasks := take i (tasks s) @ drop (Suc i) (tasks s)\<rparr>)"
    using ginv_fields [OF g]
    by (intro ginv_frame [OF g assms(2)]) (auto dest: in_set_takeD in_set_dropD)
  then show ?thesis by (rule winv_kept [OF assms(1)]) (simp add: kept_def same_refs_def)
qed

lemma cleanupPlayers_winv:
  assumes "winv E s" "clock_mono E"
  shows "winv E (cleanupPlayers E s)"
proof -
  note g = winvD(2) [OF assms(1)]
  have "map_has (playersCache (cleanupPlayers E s)) k" if "map_has (clients s) k" for k
    using that ginv_fields(2,8) [OF g]
    by (auto simp: cleanupPlayers_def date_now_def map_has_get map_get_filter split: option.splits)
  then have "ginv E (cleanupPlayers E s)"
    using ginv_fields [OF g] cache.cleanup_inv [of s E]
    by (intro ginv_frame [OF g assms(2)])
      (simp_all add: cleanupPlayers_def date_now_def map_ok_filter)
  then show ?thesis
    by (rule winv_kept [OF assms(1)]) (simp add: cleanupPlayers_def date_now_def kept_def same_refs_def)
qed

lemma stateSyncTurn_winv:
  assumes "winv E s" "clock_mono E"
  shows "winv E (stateSyncTurn s)"
  using winv_out [OF assms, of "[]" "[TBroadcastDrop
      (MsgSnapshot (WORLD CONFIG) (map_values (playersCache s)) (lastSeenSeq s))]"]
    assms(1) snapshot_msg_ok ginv_fields(2,3) [OF winvD(2) [OF assms(1)]]
  by (simp add: stateSyncTurn_def del: msg_ok.simps)

lemma stateTickTurn_winv:
  assumes "winv E s" "clock_mono E"
  shows "winv E (stateTickTurn E s)"
proof -
  note g = winvD(2) [OF assms(1)]
  let ?t = "s\<lparr>pendingStates := [], clk := Suc (clk s)\<rparr>"
  have "ginv E ?t" using ginv_fields [OF g] by (intro ginv_frame [OF g assms(2)]) simp_all
  then have t: "winv E ?t" by (rule winv_kept [OF assms(1)]) (simp add: kept_def same_refs_def)
  have "msg_ok (MsgStates tm (map_values (pendingStates s)))" for tm
    using states_msg_ok ginv_fields(4,5) [OF g] by blast
  then show ?thesis
    using assms(1) winv_out [OF t assms(2), of "[]" "[TBroadcastDrop
      (MsgStates (e_now E (clk s)) (map_values (pendingStates s)))]"]
    by (simp add: stateTickTurn_def date_now_def del: msg_ok.simps)
qed

lemma exec_winv:
  assumes "winv E s" "clock_mono E" "rand_unit E"
  shows "winv E (exec E l s)"
proof (cases l)
  case (LTask i buf)
  have "task_ok (tasks s ! i)" if "i < length (tasks s)"
    using that ginv_fields(6) [OF winvD(2) [OF assms(1)]] by simp
  then show ?thesis
    using LTask runTask_winv [OF winv_dropTask [OF assms(1,2)] assms(2,3)] assms(1) by simp
next
  case LCleanupShots
  have "winv E (s\<lparr>clk := Suc (clk s)\<rparr>)" using winv_tick assms(1,2) .
  then have "winv E (cleanupShots E s)" by (simp add: cleanupShots_def date_now_def)
  then show ?thesis using LCleanupShots by simp
next
  case LCleanupKills
  have "winv E (s\<lparr>clk := Suc (clk s), db := d\<rparr>)" for d
    by (rule winv_keep [OF assms(1,2)]) (simp_all add: kept_def same_refs_def)
  then show ?thesis using LCleanupKills by (simp add: date_now_def)
next
  case LBots
  then show ?thesis
    using winvI [OF assms(1) updateBots_binv [OF assms(2,3) winvD(1) [OF assms(1)]] same_updateBots] by simp
qed (use assms in \<open>simp_all add: handleWs_winv onMessage_winv onClose_winv helloTimeout_winv
      cleanupPlayers_winv stateSyncTurn_winv stateTickTurn_winv\<close>)

lemma emptyWorld_winv: "winv E emptyWorld"
  by (simp add: winv_def binv_def ginv_def refs_ok_def stream_ok_def seq_window_def emptyWorld_def map_has_def)

lemma same_initBot: "same_refs s (initBot E x s)"
proof -
  obtain p t where p: "getRandomSpawnPos E s = (p, t)" by (metis surj_pair)
  then have "same_refs s t" using spawnPos_drawn [of s E] same_drawn by simp
  then show ?thesis
    by (cases x) (simp add: initBot_def p math_random_def date_now_def same_refs_def)
qed

lemma initWorld_winv:
  assumes "clock_mono E" "rand_unit E"
  shows "winv E (initWorld E)"
proof -
  have "same_refs s (fold (initBot E) xs s)" for s xs
    by (induction xs arbitrary: s) (simp, metis fold_simps(2) same_initBot same_refs_trans)
  then show ?thesis
    unfolding initWorld_def
    using winvI [OF emptyWorld_winv initBots_binv [OF assms winvD(1) [OF emptyWorld_winv]]]
    by (simp add: initBots_def)
qed

end
