(* ===== verification/Server_Runs.thy ===== *)
theory Server_Runs
  imports Gateway
begin

text \<open>
  What holds in every run of the server: the invariant of \<open>Gateway\<close> on all reachable states,
  and the table of shots along a run. The statements quantify over all orders of messages,
  timers and pending tasks.
\<close>

section \<open>Reachable states\<close>

interpretation runs: safety "wstep E" "\<lambda>s. clock_mono E \<and> rand_unit E \<longrightarrow> winv E s" for E
  by unfold_locales (auto elim!: wstep.cases intro: exec_winv)

lemma reach_winv:
  assumes "clock_mono E" "rand_unit E" "reach (wstep E) (initWorld E) s"
  shows "winv E s"
  using runs.reach_inv [OF assms(3)] initWorld_winv assms by blast

text \<open>A list of labels is a run.\<close>

lemma reach_trans: "reach st a b \<Longrightarrow> reach st b c \<Longrightarrow> reach st a c"
  by (rotate_tac, induction rule: reach.induct) (auto intro: reach_step)

lemma reach_runLabels: "reach (wstep E) s (runLabels E ls s)"
proof (induction ls arbitrary: s)
  case Nil
  show ?case by (simp add: runLabels_def reach_refl)
next
  case (Cons l ls)
  let ?t = "if uncaught s = None then exec E l s else s"
  have "reach (wstep E) s ?t" by (auto intro: reach_step reach_refl wstep_exec)
  moreover have "runLabels E (l # ls) s = runLabels E ls ?t" by (simp add: runLabels_def)
  ultimately show ?case using Cons.IH [of ?t] reach_trans by auto
qed

lemma ex_env_ok: "clock_mono ex_env" "rand_unit ex_env"
  by (simp_all add: clock_mono_def rand_unit_def ex_env_def)

section \<open>The table of shots along a run\<close>

text \<open>An entry of the table survives as long as the clock has not reached its expiry.\<close>

definition keeps_shots :: "env \<Rightarrow> world \<Rightarrow> world \<Rightarrow> bool" where
  "keeps_shots E s t \<longleftrightarrow> clk s \<le> clk t \<and>
     (\<forall>i ex. map_get (seenShots s) i = Some ex \<and> 0 < ex \<and> e_now E (clk t) < ex \<longrightarrow>
        map_get (seenShots t) i = Some ex)"

lemma keeps_shots_refl [simp]: "keeps_shots E s s"
  by (simp add: keeps_shots_def)

lemma keeps_shots_same: "clk s \<le> clk t \<Longrightarrow> seenShots t = seenShots s \<Longrightarrow> keeps_shots E s t"
  by (simp add: keeps_shots_def)

lemma keeps_shots_refs: "same_refs s t \<Longrightarrow> keeps_shots E s t"
  by (rule keeps_shots_same) (simp_all add: same_refs_def)

lemma keeps_shots_kept: "kept s t \<Longrightarrow> keeps_shots E s t"
  by (simp add: kept_def keeps_shots_refs)

lemma keeps_shots_trans:
  assumes "clock_mono E" "keeps_shots E s t" "keeps_shots E t u"
  shows "keeps_shots E s u"
  using assms(2,3) clock_le [OF assms(1)] unfolding keeps_shots_def by (meson order.strict_trans1 order.trans)

lemma keeps_seenShotBefore:
  assumes "clock_mono E"
  shows "keeps_shots E s (snd (seenShotBefore E i s))"
  using clock_le [OF assms, of "clk s" "Suc (clk s)"]
  by (auto simp: seenShotBefore_cases keeps_shots_def Let_def)

lemma keeps_snowball:
  assumes "clock_mono E"
  shows "keeps_shots E s (serverHandleSnowball E c msg s)"
proof -
  obtain i s1 where c: "shotIdOf E (getp msg ''id'') s = (i, s1)" by (metis surj_pair)
  have s1: "keeps_shots E s s1"
    using c by (cases "getp msg ''id''")
      (auto simp: shotIdOf_def random_uuid_def keeps_shots_def split: if_splits)
  obtain b s2 where b: "seenShotBefore E i s1 = (b, s2)" by (metis surj_pair)
  have s2: "keeps_shots E s s2"
    using keeps_shots_trans [OF assms s1] keeps_seenShotBefore [OF assms, of s1 i] b by simp
  have "keeps_shots E s (appendEventInMem E ev k s2)" for ev k
    by (rule keeps_shots_trans [OF assms s2]) (simp add: keeps_shots_same)
  then show ?thesis
    using s2 by (simp add: serverHandleSnowball_def c b Let_def split: option.split)
qed

lemma keeps_raise: "keeps_shots E s (snd r) \<Longrightarrow> keeps_shots E s (raise r)"
  by (auto simp: raise_def keeps_shots_def split: prod.split option.split)

lemma keeps_dispatch:
  assumes "clock_mono E"
  shows "keeps_shots E s (dispatch E r msg now s)"
proof -
  have via: "keeps_shots E s u" if "keeps_shots E (s\<lparr>heap := h\<rparr>) u" for h u
    using that by (simp add: keeps_shots_def)
  have touch: "keeps_shots E s (touchPlayer E k s)" for k
    by (simp add: touchPlayer_def date_now_def keeps_shots_same split: option.split)
  have ping: "keeps_shots E s (wsSend ws m KDone (u\<lparr>clk := Suc (clk u)\<rparr>))" if "keeps_shots E s u" for ws m u
    by (rule keeps_shots_trans [OF assms that]) (simp add: wsSend_def keeps_shots_same)
  show ?thesis
    unfolding dispatch_def Let_def case_prod_beta date_now_def fst_conv snd_conv
    using ping [OF touch] keeps_raise [OF keeps_shots_kept [OF kept_chat]] keeps_snowball [OF assms]
      via [OF keeps_shots_kept [OF kept_state]] via [OF keeps_raise [OF keeps_shots_kept [OF kept_rename]]]
      via [OF keeps_shots_refl]
    by simp
qed

lemma keeps_onMessage:
  assumes "clock_mono E"
  shows "keeps_shots E s (onMessage E sock v s)"
proof -
  have hello: "keeps_shots E s (onHello E sock c msg now (s\<lparr>clk := Suc (clk s)\<rparr>))" for c msg now
    by (auto simp: onHello_def serverOnHello_eq wsSend_def keeps_shots_same Let_def split: sum.split prod.split)
  have via: "keeps_shots E s u" if "keeps_shots E (s\<lparr>clk := Suc (clk s), heap := h\<rparr>) u" for h u
    using that by (simp add: keeps_shots_def)
  have limited: "keeps_shots E s (wsClose ws n (wsSend ws m KDone (s\<lparr>clk := Suc (clk s), heap := h\<rparr>)))"
    for ws n m h
    by (simp add: wsClose_def wsSend_def keeps_shots_same)
  show ?thesis
    unfolding onMessage_def date_now_def Let_def
    using hello limited via [OF keeps_dispatch [OF assms]]
    by (auto simp: case_prod_beta split: option.split)
qed

lemma keeps_resume:
  assumes "clock_mono E"
  shows "keeps_shots E s (resume E k s)"
proof (cases k)
  case (KSnowDeath c sh v hp r)
  then show ?thesis using keeps_raise [OF keeps_shots_kept [OF kept_snowDeath]] by simp
qed (auto simp: afterHello_def sendWelcome_def wsSend_def wsClose_def enqueuePendingState_def
      keeps_shots_same keeps_shots_kept [OF kept_snowResolve] keeps_shots_refs [OF same_botsLoop]
      keeps_shots_refs [OF same_botResolve] keeps_shots_refs [OF same_botDeath]
      keeps_shots_refs [OF same_botShotDone] Let_def split: option.split)

lemma keeps_runTask:
  assumes "clock_mono E"
  shows "keeps_shots E s (runTask E buf t (s\<lparr>tasks := ts\<rparr>))"
proof (cases t)
  case (TCont k)
  then show ?thesis
    using keeps_resume [OF assms, of "s\<lparr>tasks := ts\<rparr>" k] by (simp add: keeps_shots_def)
qed (simp_all add: broadcastLoop_def broadcastDropLoop_def keeps_shots_same Let_def)

lemma map_get_unexpired:
  "map_get m i = Some ex \<Longrightarrow> now < ex \<Longrightarrow> map_get (filter (\<lambda>(i, ex). \<not> ex \<le> now) m) i = Some ex"
  for now :: int
  unfolding map_get_def by (induction m) (auto split: if_splits)

lemma keeps_exec:
  assumes "clock_mono E"
  shows "keeps_shots E s (exec E l s)"
proof (cases l)
  case LCleanupShots
  have "e_now E (clk s) \<le> e_now E (Suc (clk s))" using clock_le [OF assms] by simp
  then show ?thesis
    using LCleanupShots by (auto simp: cleanupShots_def date_now_def keeps_shots_def intro: map_get_unexpired)
next
  case (LTask i buf)
  then show ?thesis using keeps_runTask [OF assms] by simp
qed (auto simp: handleWs_def startStateSyncOnce_def startStateTickOnce_def onClose_def helloTimeout_def
      wsClose_def cleanupPlayers_def date_now_def stateSyncTurn_def stateTickTurn_def Let_def
      keeps_shots_same keeps_onMessage [OF assms] keeps_shots_refs [OF same_updateBots] split: option.split)

lemma keeps_reach:
  assumes "clock_mono E" "reach (wstep E) s t"
  shows "keeps_shots E s t"
  using assms(2)
proof (induction rule: reach.induct)
  case (reach_step t u)
  then show ?case using keeps_shots_trans [OF assms(1)] keeps_exec [OF assms(1)] by (auto elim!: wstep.cases)
qed simp

section \<open>Properties\<close>

text \<open>
  Claim C1. In every reachable state of the server each listed player stands under its own
  identifier, once, has one of the hit points 0, 10, ..., 100 and a position inside the map
  bound, whatever clients send and in whatever order tasks and timers run.
\<close>

theorem listed_players_wellformed:
  assumes "clock_mono E" "rand_unit E" "reach (wstep E) (initWorld E) s"
  shows "distinct (map_keys (playersCache s)) \<and>
    (\<forall>(k, p) \<in> set (playersCache s). ps_id p = k \<and> ps_hp p \<in> {0, 10, 20, 30, 40, 50, 60, 70, 80, 90, 100} \<and>
       \<bar>vx (ps_pos p)\<bar> \<le> 195 \<and> \<bar>vz (ps_pos p)\<bar> \<le> 195 \<and> \<bar>vy (ps_pos p)\<bar> \<le> 5000)"
proof -
  note g = winvD(2) [OF reach_winv [OF assms]]
  have hp: "h \<in> {0, 10, 20, 30, 40, 50, 60, 70, 80, 90, 100}"
    if "0 \<le> h" "h \<le> 100" "10 dvd h" for h :: int
    using that unfolding insert_iff empty_iff by presburger
  have "\<forall>(k, p) \<in> set (playersCache s). snap_ok k p"
    using ginv_fields(3) [OF g] by (simp add: map_all_def)
  then show ?thesis
    using ginv_fields(2) [OF g] hp
    by (fastforce simp: snap_ok_def outsideMap_def map_ok_def MAP_HALF_eq not_less)
qed

text \<open>A run of one player: connect, say hello, run the continuation, report a position.\<close>

definition ex_hello :: jsval where
  "ex_hello = JObj [(jslit ''t'', JStr (jslit ''hello'')), (jslit ''name'', JStr (jslit ''Ann''))]"

definition ex_run :: "label list" where
  "ex_run = [LOpen 0, LMessage 0 (Some ex_hello), LTask 0 (\<lambda>_. None)]"

definition ex_state :: world where
  "ex_state = runLabels ex_env ex_run (initWorld ex_env)"

text \<open>The fields of the initial state that the run looks at.\<close>

lemma initBot_idle:
  "tasks (initBot E x s) = tasks s \<and> uid (initBot E x s) = uid s \<and> outbox (initBot E x s) = outbox s \<and>
   uncaught (initBot E x s) = uncaught s \<and> latestSeq (initBot E x s) = latestSeq s" for s :: world
proof -
  obtain p t where p: "getRandomSpawnPos E s = (p, t)" by (metis surj_pair)
  then have "drawn s t" using spawnPos_drawn [of s E] by simp
  then show ?thesis
    by (cases x) (auto simp: initBot_def p math_random_def date_now_def drawn_def)
qed

lemma initWorld_idle:
  "tasks (initWorld E) = []" "uid (initWorld E) = 0" "outbox (initWorld E) = []"
  "uncaught (initWorld E) = None" "clients (initWorld E) = []" "heap (initWorld E) = []"
  "conns (initWorld E) = []" "latestSeq (initWorld E) = 0"
proof -
  have "tasks (fold (initBot E) xs s) = tasks s \<and> uid (fold (initBot E) xs s) = uid s \<and>
      outbox (fold (initBot E) xs s) = outbox s \<and> uncaught (fold (initBot E) xs s) = uncaught s \<and>
      clients (fold (initBot E) xs s) = clients s \<and> heap (fold (initBot E) xs s) = heap s \<and>
      conns (fold (initBot E) xs s) = conns s \<and> latestSeq (fold (initBot E) xs s) = latestSeq s"
    for xs and s :: world
    by (induction xs arbitrary: s)
      (use initBot_idle same_initBot in \<open>auto simp: same_refs_def\<close>)
  then show "tasks (initWorld E) = []" "uid (initWorld E) = 0" "outbox (initWorld E) = []"
    "uncaught (initWorld E) = None" "clients (initWorld E) = []" "heap (initWorld E) = []"
    "conns (initWorld E) = []" "latestSeq (initWorld E) = 0"
    by (simp_all add: initWorld_def initBots_def emptyWorld_def)
qed

definition ex_id :: jsstr where
  "ex_id = e_uuid ex_env 0"

lemma clampName_Ann: "clampName (JStr (jslit ''Ann'')) = Inr (jslit ''Ann'')"
  by (simp add: clampName_def jslit_def trim_def isWs_def cfg_simps Let_def)

text \<open>A hello of a socket without a client, and the step that completes it.\<close>

definition ex_open :: world where
  "ex_open = exec ex_env (LOpen 0) (initWorld ex_env)"

lemma ex_open_fields:
  "tasks ex_open = []" "uid ex_open = 0" "uncaught ex_open = None" "clients ex_open = []" "heap ex_open = []"
  "map_get (conns ex_open) 0 = Some \<lparr>cn_client = None, cn_helloTimer = True\<rparr>"
  using initWorld_idle
  by (simp_all add: ex_open_def handleWs_def startStateSyncOnce_def startStateTickOnce_def Let_def)

lemma hello_step:
  assumes "map_get (conns s) 0 = Some \<lparr>cn_client = None, cn_helloTimer = b\<rparr>"
    "t = exec E (LMessage 0 (Some ex_hello)) s"
  obtains snap now where "tasks t = tasks s @ [TCont (KHello 0 snap now)]" "ps_id snap = e_uuid E (uid s)"
    "uid t = Suc (uid s)" "clients t = clients s" "heap t = heap s" "uncaught t = uncaught s"
    "map_get (conns t) 0 = Some \<lparr>cn_client = None, cn_helloTimer = False\<rparr>" "ps_name snap = JStr (jslit ''Ann'')"
proof -
  have m: "truthy ex_hello" "isMsg ex_hello ''hello''" "getp ex_hello ''name'' = JStr (jslit ''Ann'')"
    by (simp_all add: ex_hello_def isMsg_def jslit_def)
  have d: "ALLOW_DUPLICATE_NAMES CONFIG" by (simp add: cfg_simps)
  let ?u = "s\<lparr>clk := Suc (clk s), conns := map_set 0 \<lparr>cn_client = None, cn_helloTimer = False\<rparr> (conns s)\<rparr>"
  obtain snap v where r: "serverOnHello E (JStr (jslit ''Ann'')) ?u = (Inr snap, v)"
    "ps_id snap = e_uuid E (uid s)" "uid v = Suc (uid s)" "clients v = clients s" "heap v = heap s"
    "uncaught v = uncaught s" "conns v = conns ?u" "tasks v = tasks s" "ps_name snap = JStr (jslit ''Ann'')"
    by (simp add: serverOnHello_eq clampName_Ann)
  have "t = v\<lparr>tasks := tasks v @ [TCont (KHello 0 snap (e_now E (clk s)))]\<rparr>"
    using assms m d r(1) by (simp add: onMessage_def onHello_def date_now_def Let_def)
  then show thesis using that [OF _ r(2)] r(3-) by simp
qed

lemma join_step:
  assumes "map_get (conns s) 0 = Some c" "tasks s = TCont (KHello 0 snap now) # ts"
    "t = exec E (LTask 0 buf) s"
  shows "\<exists>e. tasks t = ts @ [TBroadcast (MsgEvent e) (KWelcome 0 now)] \<and> ev_of e = EvJoin snap"
    and "clients t = map_set (ps_id snap) (length (heap s)) (clients s)" and "uncaught t = uncaught s"
    and "map_get (conns t) 0 = Some (c\<lparr>cn_client := Some (length (heap s))\<rparr>)"
    and "length (heap t) = Suc (length (heap s))" and "wc_id (heap t ! length (heap s)) = ps_id snap"
  using assms by (simp_all add: afterHello_def Let_def)

lemma ex_state_fields:
  "clients ex_state = [(ex_id, 0)]" "uncaught ex_state = None"
  "\<exists>e now. tasks ex_state = [TBroadcast (MsgEvent e) (KWelcome 0 now)]"
  "\<exists>e now snap. tasks ex_state = [TBroadcast (MsgEvent e) (KWelcome 0 now)] \<and> ev_of e = EvJoin snap \<and>
     ps_id snap = ex_id \<and> ps_name snap = JStr (jslit ''Ann'')"
  "map_get (conns ex_state) 0 = Some \<lparr>cn_client = Some 0, cn_helloTimer = False\<rparr>" "wc_id (heap ex_state ! 0) = ex_id"
proof -
  let ?t = "exec ex_env (LMessage 0 (Some ex_hello)) ex_open"
  obtain p now where t: "tasks ?t = [TCont (KHello 0 p now)]" "ps_id p = ex_id" "clients ?t = []"
    "heap ?t = []" "uncaught ?t = None"
    "map_get (conns ?t) 0 = Some \<lparr>cn_client = None, cn_helloTimer = False\<rparr>" "ps_name p = JStr (jslit ''Ann'')"
    using hello_step [OF ex_open_fields(6) refl, of ex_env] unfolding ex_open_fields ex_id_def append_Nil by metis
  let ?u = "exec ex_env (LTask 0 (\<lambda>_. None)) ?t"
  have u: "ex_state = ?u"
    using initWorld_idle(4) ex_open_fields(3) t(5)
    by (simp add: ex_state_def runLabels_def ex_run_def ex_open_def del: exec.simps)
  show "clients ex_state = [(ex_id, 0)]" "uncaught ex_state = None"
    "\<exists>e now. tasks ex_state = [TBroadcast (MsgEvent e) (KWelcome 0 now)]"
    "map_get (conns ex_state) 0 = Some \<lparr>cn_client = Some 0, cn_helloTimer = False\<rparr>" "wc_id (heap ex_state ! 0) = ex_id"
    unfolding u using join_step [OF t(6,1) refl, of ex_env "\<lambda>_. None"] t by (simp, simp, auto)
  show "\<exists>e now snap. tasks ex_state = [TBroadcast (MsgEvent e) (KWelcome 0 now)] \<and> ev_of e = EvJoin snap \<and>
     ps_id snap = ex_id \<and> ps_name snap = JStr (jslit ''Ann'')"
    unfolding u using join_step(1) [OF t(6,1) refl, of ex_env "\<lambda>_. None"] t by auto
qed

lemma ex_state_client: "map_get (clients ex_state) ex_id = Some 0"
  by (simp add: ex_state_fields map_get_def)

lemma ex_state_reach: "reach (wstep ex_env) (initWorld ex_env) ex_state"
  unfolding ex_state_def by (rule reach_runLabels)

lemma ex_state_listed: "\<exists>p. (ex_id, p) \<in> set (playersCache ex_state)"
proof -
  have "map_has (playersCache ex_state) ex_id"
    using ginv_fields(8) [OF winvD(2) [OF reach_winv [OF ex_env_ok ex_state_reach]]]
    by (simp add: ex_state_fields map_has_def)
  then show ?thesis by (auto simp: map_has_def)
qed

theorem listed_players_wellformed_witness:
  "\<exists>p. (ex_id, p) \<in> set (playersCache ex_state) \<and> ps_id p = ex_id \<and> \<bar>vx (ps_pos p)\<bar> \<le> 195"
  using listed_players_wellformed [OF ex_env_ok ex_state_reach] ex_state_listed by fastforce

text \<open>
  Claim C6. In every reachable state the event log is a gap-free window of the sequence that ends
  at the latest number, which is also the number put into snapshots; its times are ascending and
  span at most two minutes.
\<close>

theorem event_log_window:
  assumes "clock_mono E" "rand_unit E" "reach (wstep E) (initWorld E) s"
  shows "lastSeenSeq s = latestSeq s \<and>
    map ev_seq (events s) = [Suc (latestSeq s) - length (events s)..<Suc (latestSeq s)] \<and>
    sorted (map ev_at (events s)) \<and>
    (\<forall>e \<in> set (events s). ev_at (last (events s)) - 120000 \<le> ev_at e)"
  using ginv_fields(1) [OF winvD(2) [OF reach_winv [OF assms]]]
  by (auto simp: stream_ok_def seq_window_def cfg_simps)

theorem event_log_window_witness:
  "map ev_seq (events ex_state) = [Suc (latestSeq ex_state) - length (events ex_state)..<Suc (latestSeq ex_state)]"
  using event_log_window [OF ex_env_ok ex_state_reach] by blast

text \<open>
  Claim C5. Every message the server hands to a socket is well formed: a snapshot lists each
  player once, with hit points and positions in range; a hit leaves 0 to 90 hit points, never
  comes from the victim and throws back with length 26; joins and renames carry a clean name of
  1 to 20 units, chat lines have 1 to 80 units, a merged frame names each player once.
\<close>

theorem sent_messages_wellformed:
  assumes "clock_mono E" "rand_unit E" "reach (wstep E) (initWorld E) s"
  shows "\<forall>(sock, m) \<in> set (outbox s). msg_ok m"
  using ginv_fields(7) [OF winvD(2) [OF reach_winv [OF assms]]] .

theorem sent_messages_wellformed_witness:
  "\<exists>sock e. (sock, MsgEvent e) \<in> set (outbox (exec ex_env (LTask 0 (\<lambda>_. None)) ex_state)) \<and> msg_ok (MsgEvent e)"
proof -
  let ?t = "exec ex_env (LTask 0 (\<lambda>_. None)) ex_state"
  have "reach (wstep ex_env) (initWorld ex_env) ?t"
    by (rule reach_step [OF ex_state_reach wstep_exec]) (rule ex_state_fields)
  then have ok: "\<forall>(sock, m) \<in> set (outbox ?t). msg_ok m" by (rule sent_messages_wellformed [OF ex_env_ok])
  obtain e now where "tasks ex_state = [TBroadcast (MsgEvent e) (KWelcome 0 now)]"
    using ex_state_fields(3) by blast
  then have "(wc_ws (heap ex_state ! 0), MsgEvent e) \<in> set (outbox ?t)"
    by (simp add: broadcastLoop_def ex_state_fields map_values_def Let_def)
  then show ?thesis using ok by blast
qed

text \<open>
  Claim C9. In every reachable state each entry of the map of clients refers to the client object
  of that identifier and the player is listed; no cleanup and no interleaving of handlers removes
  a connected player.
\<close>

theorem connected_players_listed:
  assumes "clock_mono E" "rand_unit E" "reach (wstep E) (initWorld E) s"
    and "map_get (clients s) k = Some r"
  shows "r < length (heap s) \<and> wc_id (heap s ! r) = k \<and>
    (\<exists>p. map_get (playersCache s) k = Some p \<and> ps_id p = k)"
proof -
  note w = reach_winv [OF assms(1-3)]
  note g = winvD(2) [OF w]
  have "map_has (clients s) k" using assms(4) by (simp add: map_has_get)
  then obtain p where p: "map_get (playersCache s) k = Some p"
    using ginv_fields(8) [OF g] by (auto simp: map_has_get)
  then have "ps_id p = k" using map_allD [OF ginv_fields(3) [OF g] p] by (simp add: snap_ok_def)
  then show ?thesis
    using p winvD(3) [OF w] map_allD [OF _ assms(4)] unfolding refs_ok_def by blast
qed

theorem connected_players_listed_witness:
  "0 < length (heap ex_state) \<and> (\<exists>p. map_get (playersCache ex_state) ex_id = Some p \<and> ps_id p = ex_id)"
  using connected_players_listed [OF ex_env_ok ex_state_reach ex_state_client] by blast

text \<open>
  Claim C13. A shot counts once: after a snowball message with a client-chosen identifier has been
  accepted at time \<open>t\<close>, every further snowball message with that identifier, from any client
  and after any number of steps of the server, is ignored as long as the clock is before
  \<open>t\<close> + 10 s: it reads the clock and changes nothing else.
\<close>

theorem duplicate_shot_ignored:
  assumes "clock_mono E" "0 \<le> e_now E (clk s)"
    and "isFiniteVec3 (getp msg ''dir'')" "getp msg ''id'' = JStr i" "isUuidLike (JStr i)"
    and "\<not> fst (seenShotBefore E i s)"
    and "reach (wstep E) (serverHandleSnowball E c msg s) t"
    and "e_now E (clk t) < e_now E (clk s) + 10000"
    and "isFiniteVec3 (getp msg' ''dir'')" "getp msg' ''id'' = JStr i"
  shows "serverHandleSnowball E c' msg' t = t\<lparr>clk := Suc (clk t)\<rparr>"
proof -
  let ?ex = "e_now E (clk s) + 10000"
  have "map_get (seenShots (serverHandleSnowball E c msg s)) i = Some ?ex"
    using assms(3-6)
    by (auto simp: serverHandleSnowball_def shotIdOf_def seenShotBefore_cases Let_def
        split: if_splits option.split)
  then have "map_get (seenShots t) i = Some ?ex"
    using keeps_reach [OF assms(1,7)] assms(2,8) by (simp add: keeps_shots_def)
  then have "seenShotBefore E i t = (True, t\<lparr>clk := Suc (clk t)\<rparr>)"
    using assms(2,8) by (simp add: seenShotBefore_cases)
  then show ?thesis
    using assms(5,9,10) by (simp add: serverHandleSnowball_def shotIdOf_def)
qed

definition ex_shot :: jsval where
  "ex_shot = (let v = JObj [(jslit ''x'', JNum (JFin 1)), (jslit ''y'', JNum (JFin 0)), (jslit ''z'', JNum (JFin 0))]
     in JObj [(jslit ''t'', JStr (jslit ''snowball'')), (jslit ''id'', JStr (jslit ''shot-001'')), (jslit ''dir'', v)])"

lemma ex_shot_ok:
  "isFiniteVec3 (getp ex_shot ''dir'')" "getp ex_shot ''id'' = JStr (jslit ''shot-001'')"
  "isUuidLike (JStr (jslit ''shot-001''))"
  by (simp_all add: ex_shot_def isFiniteVec3_def jslit_def Let_def)

theorem duplicate_shot_ignored_witness:
  "(let t = runLabels ex_env [LBots, LCleanupShots] (serverHandleSnowball ex_env ex_id ex_shot emptyWorld)
    in serverHandleSnowball ex_env ex_id ex_shot t = t\<lparr>clk := Suc (clk t)\<rparr>)"
proof -
  let ?s = "serverHandleSnowball ex_env ex_id ex_shot emptyWorld"
  let ?t = "runLabels ex_env [LBots, LCleanupShots] ?s"
  have "\<not> fst (seenShotBefore ex_env (jslit ''shot-001'') emptyWorld)"
    by (simp add: seenShotBefore_cases emptyWorld_def Let_def)
  moreover have "e_now ex_env (clk ?t) < e_now ex_env (clk emptyWorld) + 10000"
    using ex_shot_ok
    by (simp add: runLabels_def updateBots_def serverHandleSnowball_def shotIdOf_def seenShotBefore_cases
        emptyWorld_def ex_env_def cleanupShots_def date_now_def map_keys_def botsLoop.simps Let_def)
  moreover have "0 \<le> e_now ex_env (clk emptyWorld)" by (simp add: ex_env_def)
  ultimately show ?thesis
    using duplicate_shot_ignored [OF ex_env_ok(1) _ ex_shot_ok _ reach_runLabels _ ex_shot_ok(1,2)]
    unfolding Let_def by blast
qed

text \<open>
  Claim C14. In every reachable state each bot stands exactly on the terrain and stays inside the zone
  that ends 40 units before the edge of the map, and so does the target it walks to; in particular
  the recovery branch of \<open>getRandomMoveTarget\<close> is never taken.
\<close>

theorem bots_stay_in_zone:
  assumes "clock_mono E" "rand_unit E" "reach (wstep E) (initWorld E) s"
  shows "\<forall>(k, b) \<in> set (bots s). b_id b = k \<and> \<bar>vx (b_pos b)\<bar> \<le> 150 \<and> \<bar>vz (b_pos b)\<bar> \<le> 150 \<and>
     vy (b_pos b) = botTerrainHeight (e_seed E) (vx (b_pos b)) (vz (b_pos b)) \<and>
     (\<forall>tp. b_targetPos b = Some tp \<longrightarrow> \<bar>vx tp\<bar> \<le> 150 \<and> \<bar>vz tp\<bar> \<le> 150)"
  using winvD(1) [OF reach_winv [OF assms]]
  by (auto simp: binv_def map_all_def bot_ok_def inZone_def onGround_def)

lemma initWorld_bots: "map_keys (bots (initWorld E)) = BOT_IDS"
proof -
  have one: "\<exists>b. bots (initBot E x s) = map_set (fst x) b (bots s)" for x and s :: world
  proof -
    obtain p t where p: "getRandomSpawnPos E s = (p, t)" by (metis surj_pair)
    then have "drawn s t" using spawnPos_drawn [of s E] by simp
    then have "bots t = bots s" by (auto simp: drawn_def)
    then show ?thesis
      by (cases x) (auto simp: initBot_def p math_random_def date_now_def)
  qed
  have "map_keys (bots (initBot E x s)) = (if map_has (bots s) (fst x) then map_keys (bots s)
      else map_keys (bots s) @ [fst x])" for x and s :: world
    using one [of x s] by (auto simp: map_keys_set)
  moreover have "zip BOT_IDS BOT_NAMES = map (\<lambda>i. (BOT_IDS ! i, BOT_NAMES ! i)) [0, 1, 2, 3, 4]"
    by (simp add: BOT_IDS_def BOT_NAMES_def)
  ultimately show ?thesis
    by (simp add: initWorld_def initBots_def map_has_keys BOT_IDS_def emptyWorld_def map_keys_def [of "[]"] jslit_def)
qed

theorem bots_stay_in_zone_witness:
  "\<exists>b. (jslit ''bot-0'', b) \<in> set (bots (initWorld ex_env)) \<and> b_id b = jslit ''bot-0'' \<and> \<bar>vx (b_pos b)\<bar> \<le> 150"
proof -
  have "jslit ''bot-0'' \<in> set (map_keys (bots (initWorld ex_env)))"
    by (simp add: initWorld_bots BOT_IDS_def)
  then obtain b where "(jslit ''bot-0'', b) \<in> set (bots (initWorld ex_env))"
    by (auto simp: map_keys_def)
  then show ?thesis using bots_stay_in_zone [OF ex_env_ok reach_refl] by fastforce
qed

section \<open>Flaws that the model exhibits\<close>

text \<open>
  Claim C38. A hello message whose name is a number, a boolean, an array or an object makes the
  handler throw; nothing catches the exception, and no further step of the server is possible.
\<close>

theorem ill_typed_name_stops_server:
  assumes "map_get (conns s) sock = Some c" "cn_client c = None"
    and "isMsg msg ''hello''" "truthy msg" "\<not> nullish (getp msg ''name'')" "\<forall>n. getp msg ''name'' \<noteq> JStr n"
  shows "uncaught (onMessage E sock (Some msg) s) = Some TypeError \<and>
    (\<forall>t. \<not> wstep E (onMessage E sock (Some msg) s) t)"
proof -
  have "clampName (getp msg ''name'') = Inl TypeError"
    using assms(5,6) by (cases "getp msg ''name''") (auto simp: clampName_def)
  then have "uncaught (onMessage E sock (Some msg) s) = Some TypeError"
    using assms(1-4)
    by (simp add: onMessage_def date_now_def onHello_def serverOnHello_eq cfg_simps Let_def)
  then show ?thesis by (auto elim: wstep.cases)
qed

theorem ill_typed_name_stops_server_witness:
  "uncaught (onMessage ex_env 0 (Some (JObj [(jslit ''t'', JStr (jslit ''hello'')), (jslit ''name'', JNum (JFin 5))]))
     (handleWs 0 (initWorld ex_env))) = Some TypeError"
proof -
  have "map_get (conns (handleWs 0 (initWorld ex_env))) 0 = Some \<lparr>cn_client = None, cn_helloTimer = True\<rparr>"
    by (simp add: handleWs_def Let_def)
  then show ?thesis
    by (rule ill_typed_name_stops_server [THEN conjunct1]) (simp_all add: isMsg_def jslit_def)
qed

text \<open>
  The name limit is bypassed: a rename stores the raw name in the client object, and the
  next state report of the (living) player writes it, of whatever length, into the player table
  that snapshots are made of.
\<close>

lemma rename_bypasses_name_limit:
  assumes "r < length (heap s)" "isMsg m1 ''rename''" "getp m1 ''name'' = JStr n"
    and "isMsg m2 ''state''" "validState m2" "fst (stateFreqOk (heap s ! r) now2)"
    and "map_get (playersCache s) (wc_id (heap s ! r)) = Some p" "0 < ps_hp p"
  shows "\<exists>q. map_get (playersCache (dispatch E r m2 now2 (dispatch E r m1 now1 s)))
      (wc_id (heap s ! r)) = Some q \<and> ps_name q = JStr n"
proof -
  let ?c = "heap s ! r" and ?s1 = "dispatch E r m1 now1 s"
  let ?c1 = "?c\<lparr>wc_name := JStr n\<rparr>"
  have d1: "?s1 = raise (serverHandleRename E (wc_id ?c) (JStr n) (s\<lparr>heap := (heap s)[r := ?c1]\<rparr>))"
    using assms(2,3) by (simp add: dispatch_def isMsg_def jslit_def Let_def)
  have "\<exists>nm. clampName (JStr n) = Inr nm" by (simp add: clampName_def Let_def)
  then obtain nm where nm: "clampName (JStr n) = Inr nm" "nm \<noteq> []"
    using clampName_nonempty by blast
  obtain p1 where h: "heap ?s1 = (heap s)[r := ?c1]"
    and p1: "map_get (playersCache ?s1) (wc_id ?c) = Some p1" "0 < ps_hp p1"
    using assms(7,8) nm
    by (simp add: d1 raise_def serverHandleRename_def date_now_def updPlayer_get Let_def)
  have c1: "heap ?s1 ! r = ?c1" using h assms(1) by simp
  let ?s2 = "?s1\<lparr>heap := (heap ?s1)[r := snd (stateFreqOk ?c1 now2)]\<rparr>"
  have "fst (stateFreqOk ?c1 now2)" using assms(6) by (auto simp: stateFreqOk_def Let_def split: if_splits)
  moreover have "wc_name (snd (stateFreqOk ?c1 now2)) = JStr n"
    by (simp add: stateFreqOk_def Let_def)
  ultimately have d2: "dispatch E r m2 now2 ?s1 = serverHandleState E (wc_id ?c) (JStr n) m2 ?s2"
    using assms(4) c1
    by (simp add: dispatch_def isMsg_def jslit_def Let_def case_prod_beta stateFreqOk_id)
  have "serverHandleState E (wc_id ?c) (JStr n) m2 ?s2 =
      (let p = reported (wc_id ?c) (JStr n) m2 (e_now E (clk ?s2)) (map_get (playersCache ?s2) (wc_id ?c))
       in enqueuePendingState (pendingOf p)
            (?s2\<lparr>clk := Suc (clk ?s2), playersCache := map_set (wc_id ?c) p (playersCache ?s2)\<rparr>))"
    using p1 by (intro state_alive [OF assms(5)]) auto
  then show ?thesis by (simp add: d2 Let_def enqueuePendingState_def reported_def)
qed

definition ex_double_hello :: "label list" where
  "ex_double_hello = [LOpen 0, LMessage 0 (Some ex_hello), LMessage 0 (Some ex_hello),
     LTask 0 (\<lambda>_. None), LTask 0 (\<lambda>_. None), LClose 0]"

text \<open>
  Two hello messages that are decoded before the first of them has been answered make two
  players of one socket; when the socket closes, the first stays in the map of clients, where the
  cleanup of idle players does not reach it.
\<close>

lemma double_hello_leaves_client:
  "clients (runLabels ex_env ex_double_hello (initWorld ex_env)) = [(ex_id, 0)]"
proof -
  let ?id = "e_uuid ex_env (Suc 0)"
  have ids: "ex_id \<noteq> ?id" by (simp add: ex_id_def ex_env_def)
  let ?t = "exec ex_env (LMessage 0 (Some ex_hello)) ex_open"
  obtain p now where t: "tasks ?t = [TCont (KHello 0 p now)]" "ps_id p = ex_id" "uid ?t = Suc 0"
    "clients ?t = []" "heap ?t = []" "uncaught ?t = None"
    "map_get (conns ?t) 0 = Some \<lparr>cn_client = None, cn_helloTimer = False\<rparr>"
    using hello_step [OF ex_open_fields(6) refl, of ex_env] unfolding ex_open_fields ex_id_def append_Nil by metis
  let ?u = "exec ex_env (LMessage 0 (Some ex_hello)) ?t"
  obtain q now' where u: "tasks ?u = [TCont (KHello 0 p now)] @ [TCont (KHello 0 q now')]" "ps_id q = ?id"
    "clients ?u = []" "heap ?u = []" "uncaught ?u = None"
    "map_get (conns ?u) 0 = Some \<lparr>cn_client = None, cn_helloTimer = False\<rparr>"
    using hello_step [OF t(7) refl, of ex_env] unfolding t(1,3-6) by metis
  let ?v = "exec ex_env (LTask 0 (\<lambda>_. None)) ?u"
  note v = join_step [OF u(6) u(1) [unfolded append_Cons append_Nil] refl, of ex_env "\<lambda>_. None"]
  obtain e where b: "tasks ?v = TCont (KHello 0 q now') # [TBroadcast (MsgEvent e) (KWelcome 0 now)]"
    using v(1) by auto
  let ?w = "exec ex_env (LTask 0 (\<lambda>_. None)) ?v"
  note w = join_step [OF v(4) b refl, of ex_env "\<lambda>_. None"]
  have "runLabels ex_env ex_double_hello (initWorld ex_env) = exec ex_env (LClose 0) ?w"
    using initWorld_idle(4) ex_open_fields(3) t(6) u(5) v(3) w(3)
    by (simp add: runLabels_def ex_double_hello_def ex_open_def del: exec.simps)
  moreover have "clients ?w = [(ex_id, 0), (?id, 1)]"
    using v(2,5) w(2) t(2) u(2-4) ids by simp
  ultimately show ?thesis
    using w(4-6) v(5) u(2,4) ids by (simp add: onClose_def map_delete_def Let_def)
qed

end
