(* ===== verification/Codec.thy ===== *)
theory Codec
  imports Protocol
begin

text \<open>
  The frames of the WebSocket: \<open>utils.ts\<close> on the server, \<open>utils.js\<close> in the browser. A message is
  printed as JSON, encoded as UTF-8, encrypted with AES-GCM under a shared key and a fresh
  initialisation vector, and sent as base64 text. Base64 and UTF-8 encoding are modelled; the
  cipher, the UTF-8 decoder and JSON are operations of the platform (record \<open>platform\<close>), whose
  documented laws are hypotheses of the theorems that need them.
\<close>

section \<open>Bytes and base64\<close>

type_synonym byte = "8 word"

text \<open>\<open>String.fromCharCode\<close> over a byte array, and \<open>charCodeAt\<close> back into one.\<close>

definition fromBytes :: "byte list \<Rightarrow> jsstr" where
  "fromBytes bs = map (\<lambda>b. word_of_nat (unat b)) bs"

definition toBytes :: "jsstr \<Rightarrow> byte list" where
  "toBytes s = map (\<lambda>c. word_of_nat (unat c)) s"

definition b64code :: "nat \<Rightarrow> nat" where
  "b64code n = (if n < 26 then 65 + n else if n < 52 then 97 + (n - 26)
     else if n < 62 then 48 + (n - 52) else if n = 62 then 43 else 47)"

definition b64val :: "nat \<Rightarrow> nat option" where
  "b64val c = (if 65 \<le> c \<and> c \<le> 90 then Some (c - 65) else if 97 \<le> c \<and> c \<le> 122 then Some (c - 97 + 26)
     else if 48 \<le> c \<and> c \<le> 57 then Some (c - 48 + 52) else if c = 43 then Some 62
     else if c = 47 then Some 63 else None)"

text \<open>The sextets of a byte sequence, and the number of padding signs.\<close>

fun sextets :: "nat list \<Rightarrow> nat list" where
  "sextets (a # b # c # bs) =
     a div 4 # (a mod 4 * 16 + b div 16) # (b mod 16 * 4 + c div 64) # c mod 64 # sextets bs"
| "sextets [a, b] = [a div 4, a mod 4 * 16 + b div 16, b mod 16 * 4]"
| "sextets [a] = [a div 4, a mod 4 * 16]"
| "sextets [] = []"

definition b64pad :: "nat \<Rightarrow> nat" where
  "b64pad n = (if n mod 3 = 0 then 0 else 3 - n mod 3)"

text \<open>\<open>btoa\<close> throws on a unit above 255.\<close>

definition btoa :: "jsstr \<Rightarrow> js_err + jsstr" where
  "btoa s =
     (if \<exists>c \<in> set s. 255 < unat c then Inl TypeError
      else Inr (map (\<lambda>n. word_of_nat (b64code n)) (sextets (map unat s)) @ replicate (b64pad (length s)) 61))"

text \<open>\<open>atob\<close>: forgiving decoding. White space is dropped, then up to two padding signs.\<close>

definition asciiWs :: "jschar \<Rightarrow> bool" where
  "asciiWs c \<longleftrightarrow> c = 9 \<or> c = 10 \<or> c = 12 \<or> c = 13 \<or> c = 32"

definition dropPad :: "jsstr \<Rightarrow> jsstr" where
  "dropPad s =
     (if length s mod 4 = 0 \<and> s \<noteq> [] \<and> last s = 61
      then (if butlast s \<noteq> [] \<and> last (butlast s) = 61 then butlast (butlast s) else butlast s)
      else s)"

fun unsextets :: "nat list \<Rightarrow> nat list option" where
  "unsextets (a # b # c # d # ss) =
     map_option (\<lambda>bs. (a * 4 + b div 16) # (b mod 16 * 16 + c div 4) # (c mod 4 * 64 + d) # bs) (unsextets ss)"
| "unsextets [a, b, c] = Some [a * 4 + b div 16, b mod 16 * 16 + c div 4]"
| "unsextets [a, b] = Some [a * 4 + b div 16]"
| "unsextets [a] = None"
| "unsextets [] = Some []"

fun b64vals :: "jsstr \<Rightarrow> nat list option" where
  "b64vals [] = Some []"
| "b64vals (c # cs) =
     (case b64val (unat c) of None \<Rightarrow> None | Some n \<Rightarrow> map_option (\<lambda>ns. n # ns) (b64vals cs))"

definition atob :: "jsstr \<Rightarrow> jsstr option" where
  "atob s =
     (case b64vals (dropPad (filter (\<lambda>c. \<not> asciiWs c) s)) of
        None \<Rightarrow> None
      | Some ns \<Rightarrow> map_option (map word_of_nat) (unsextets ns))"

section \<open>UTF-8\<close>

definition isHigh :: "nat \<Rightarrow> bool" where
  "isHigh n \<longleftrightarrow> 0xD800 \<le> n \<and> n < 0xDC00"

definition isLow :: "nat \<Rightarrow> bool" where
  "isLow n \<longleftrightarrow> 0xDC00 \<le> n \<and> n < 0xE000"

definition utf8cp :: "nat \<Rightarrow> nat list" where
  "utf8cp n =
     (if n < 0x80 then [n]
      else if n < 0x800 then [0xC0 + n div 64, 0x80 + n mod 64]
      else if n < 0x10000 then [0xE0 + n div 4096, 0x80 + n div 64 mod 64, 0x80 + n mod 64]
      else [0xF0 + n div 262144, 0x80 + n div 4096 mod 64, 0x80 + n div 64 mod 64, 0x80 + n mod 64])"

text \<open>The code points of a string; a lone surrogate becomes the replacement character.\<close>

fun codePoints :: "nat list \<Rightarrow> nat list" where
  "codePoints [] = []"
| "codePoints [c] = [if isHigh c \<or> isLow c then 0xFFFD else c]"
| "codePoints (c # d # cs) =
     (if isHigh c \<and> isLow d then (0x10000 + (c - 0xD800) * 1024 + (d - 0xDC00)) # codePoints cs
      else (if isHigh c \<or> isLow c then 0xFFFD else c) # codePoints (d # cs))"

text \<open>\<open>new TextEncoder().encode(s)\<close>.\<close>

definition utf8 :: "jsstr \<Rightarrow> byte list" where
  "utf8 s = map word_of_nat (concat (map utf8cp (codePoints (map unat s))))"

section \<open>The platform\<close>

record platform =
  gcmEncrypt :: "byte list \<Rightarrow> byte list \<Rightarrow> byte list \<Rightarrow> byte list"
  gcmDecrypt :: "byte list \<Rightarrow> byte list \<Rightarrow> byte list \<Rightarrow> byte list option"
  textDecode :: "byte list \<Rightarrow> jsstr"
  jsonString :: "jsval \<Rightarrow> jsstr"
  jsonParse :: "jsstr \<Rightarrow> jsval option"
  hmacSign :: "byte list \<Rightarrow> byte list \<Rightarrow> byte list"
  coerceNumber :: "jsval \<Rightarrow> jsnum"

text \<open>Decryption with the same key and vector inverts encryption.\<close>

definition gcm_correct :: "platform \<Rightarrow> bool" where
  "gcm_correct P \<longleftrightarrow> (\<forall>k iv m. gcmDecrypt P k iv (gcmEncrypt P k iv m) = Some m)"

text \<open>A string without lone surrogates and without a leading byte-order mark is decoded as it was.\<close>

fun wellFormed16 :: "nat list \<Rightarrow> bool" where
  "wellFormed16 [] = True"
| "wellFormed16 [c] \<longleftrightarrow> \<not> isHigh c \<and> \<not> isLow c"
| "wellFormed16 (c # d # cs) \<longleftrightarrow>
     (if isHigh c then isLow d \<and> wellFormed16 cs else \<not> isLow c \<and> wellFormed16 (d # cs))"

definition plainText :: "jsstr \<Rightarrow> bool" where
  "plainText s \<longleftrightarrow> wellFormed16 (map unat s) \<and> \<not> (\<exists>r. s = 0xFEFF # r)"

definition utf8_correct :: "platform \<Rightarrow> bool" where
  "utf8_correct P \<longleftrightarrow> (\<forall>s. plainText s \<longrightarrow> textDecode P (utf8 s) = s)"

section \<open>utils.ts: keys and frames on the server\<close>

text \<open>\<open>parseInt(two characters, 16)\<close>, stored into a byte array, where NaN becomes 0.\<close>

definition hexVal :: "char \<Rightarrow> nat option" where
  "hexVal ch =
     (let c = (of_char ch :: nat)
      in if 48 \<le> c \<and> c \<le> 57 then Some (c - 48) else if 97 \<le> c \<and> c \<le> 102 then Some (c - 87)
         else if 65 \<le> c \<and> c \<le> 70 then Some (c - 55) else None)"

fun parseHex :: "string \<Rightarrow> nat" where
  "parseHex (a # b # _) =
     (case hexVal a of None \<Rightarrow> 0
      | Some x \<Rightarrow> (case hexVal b of None \<Rightarrow> x | Some y \<Rightarrow> 16 * x + y))"
| "parseHex [a] = (case hexVal a of None \<Rightarrow> 0 | Some x \<Rightarrow> x)"
| "parseHex [] = 0"

definition getAesKey :: "string \<Rightarrow> byte list" where
  "getAesKey hex = map (\<lambda>i. word_of_nat (parseHex (slice (i * 2) (i * 2 + 2) hex))) [0..<32]"

definition aesEncrypt :: "platform \<Rightarrow> string \<Rightarrow> byte list \<Rightarrow> jsstr \<Rightarrow> js_err + jsstr" where
  "aesEncrypt P hex iv plaintext =
     (let key = getAesKey hex;
          encoded = utf8 plaintext;
          ciphertext = gcmEncrypt P key iv encoded;
          combined = iv @ ciphertext;
          binary = fromBytes combined
      in btoa binary)"

definition aesDecrypt :: "platform \<Rightarrow> string \<Rightarrow> jsstr \<Rightarrow> jsstr option" where
  "aesDecrypt P hex encrypted =
     (let key = getAesKey hex
      in case atob encrypted of
           None \<Rightarrow> None
         | Some binaryString \<Rightarrow>
             let combined = toBytes binaryString;
                 iv = take 12 combined;
                 ciphertext = drop 12 combined
             in map_option (textDecode P) (gcmDecrypt P key iv ciphertext))"

text \<open>The frame \<open>wsSend\<close> and \<open>broadcast\<close> put on the wire, and the decoding of a client's frame.\<close>

definition serverFrame :: "platform \<Rightarrow> byte list \<Rightarrow> jsval \<Rightarrow> js_err + jsstr" where
  "serverFrame P iv msg = aesEncrypt P WS_AES_KEY_HEX iv (jsonString P msg)"

definition safeParse :: "platform \<Rightarrow> jsstr \<Rightarrow> jsval option" where
  "safeParse P s = jsonParse P s"

definition decodeClientWsMsg :: "platform \<Rightarrow> jsstr \<Rightarrow> jsval option" where
  "decodeClientWsMsg P s =
     (case aesDecrypt P WS_AES_KEY_HEX s of
        None \<Rightarrow> None
      | Some decrypted \<Rightarrow> if decrypted = [] then None else safeParse P decrypted)"

section \<open>utils.js: the same in the browser\<close>

text \<open>
  The key is the text that the build puts in place of \<open>__WS_AES_KEY__\<close>, a parameter here.
\<close>

definition clientGetAesKey :: "string \<Rightarrow> byte list" where
  "clientGetAesKey hex = map (\<lambda>i. word_of_nat (parseHex (slice (i * 2) (i * 2 + 2) hex))) [0..<32]"

definition clientAesEncrypt :: "platform \<Rightarrow> string \<Rightarrow> byte list \<Rightarrow> jsstr \<Rightarrow> js_err + jsstr" where
  "clientAesEncrypt P hex iv plaintext =
     btoa (fromBytes (iv @ gcmEncrypt P (clientGetAesKey hex) iv (utf8 plaintext)))"

definition clientAesDecrypt :: "platform \<Rightarrow> string \<Rightarrow> jsstr \<Rightarrow> jsstr option" where
  "clientAesDecrypt P hex encrypted =
     (case atob encrypted of
        None \<Rightarrow> None
      | Some binaryString \<Rightarrow>
          let combined = toBytes binaryString
          in map_option (textDecode P)
               (gcmDecrypt P (clientGetAesKey hex) (take 12 combined) (drop 12 combined)))"

definition wsEncode :: "platform \<Rightarrow> string \<Rightarrow> byte list \<Rightarrow> jsval \<Rightarrow> js_err + jsstr" where
  "wsEncode P hex iv obj = clientAesEncrypt P hex iv (jsonString P obj)"

definition wsDecode :: "platform \<Rightarrow> string \<Rightarrow> jsstr \<Rightarrow> jsval option" where
  "wsDecode P hex str =
     (case clientAesDecrypt P hex str of
        None \<Rightarrow> None
      | Some decrypted \<Rightarrow> if decrypted = [] then None else jsonParse P decrypted)"

section \<open>Lemmas\<close>

lemma unat_byte: "unat (b :: byte) < 256"
  by (rule order_less_le_trans [OF unsigned_less]) simp

lemma unat16 [simp]: "n < 65536 \<Longrightarrow> unat (word_of_nat n :: jschar) = n"
  by (simp add: unat_of_nat take_bit_eq_mod)

lemma toBytes_fromBytes [simp]: "toBytes (fromBytes bs) = bs"
proof -
  have "word_of_nat (unat (word_of_nat (unat b) :: jschar)) = b" for b :: byte
    using unat_byte [of b] by (subst unat16) simp_all
  then show ?thesis unfolding toBytes_def fromBytes_def map_map o_def by simp
qed

lemma b64val_code: "n < 64 \<Longrightarrow> b64val (b64code n) = Some n"
  by (auto simp: b64val_def b64code_def)

lemma b64code_less: "b64code n < 256" if "n < 64"
  using that by (auto simp: b64code_def)

lemma sextets_less: "\<forall>b \<in> set bs. b < 256 \<Longrightarrow> \<forall>n \<in> set (sextets bs). n < 64"
  by (induction bs rule: sextets.induct) (auto simp: less_mult_imp_div_less)

lemma length_sextets: "length (sextets bs) + b64pad (length bs) = 4 * ((length bs + 2) div 3)"
proof (induction bs rule: sextets.induct)
  case (1 a b c bs)
  have "b64pad (length (a # b # c # bs)) = b64pad (length bs)"
    "(length (a # b # c # bs) + 2) div 3 = Suc ((length bs + 2) div 3)"
    by (simp_all add: b64pad_def)
  then show ?case using 1 by simp
qed (simp_all add: b64pad_def)

lemma div_mod_split: "y < m \<Longrightarrow> (x * m + y) div m = x" "y < m \<Longrightarrow> (x * m + y) mod m = y" for x y m :: nat
  by simp_all

lemma sextet_arith:
  fixes a b c :: nat
  shows "b < 256 \<Longrightarrow> a div 4 * 4 + (a mod 4 * 16 + b div 16) div 16 = a"
    and "b < 256 \<Longrightarrow> c < 256 \<Longrightarrow>
      (a mod 4 * 16 + b div 16) mod 16 * 16 + (b mod 16 * 4 + c div 64) div 4 = b"
    and "c < 256 \<Longrightarrow> (b mod 16 * 4 + c div 64) mod 4 * 64 + c mod 64 = c"
proof -
  have d: "n < 256 \<Longrightarrow> n div 16 < 16" "n < 256 \<Longrightarrow> n div 64 < 4" for n :: nat
    by (simp_all add: less_mult_imp_div_less)
  show "b < 256 \<Longrightarrow> a div 4 * 4 + (a mod 4 * 16 + b div 16) div 16 = a"
    by (simp only: div_mod_split(1) [OF d(1)] div_mult_mod_eq)
  show "b < 256 \<Longrightarrow> c < 256 \<Longrightarrow>
      (a mod 4 * 16 + b div 16) mod 16 * 16 + (b mod 16 * 4 + c div 64) div 4 = b"
    by (simp only: div_mod_split(2) [OF d(1)] div_mod_split(1) [OF d(2)] div_mult_mod_eq)
  show "c < 256 \<Longrightarrow> (b mod 16 * 4 + c div 64) mod 4 * 64 + c mod 64 = c"
    by (simp only: div_mod_split(2) [OF d(2)] div_mult_mod_eq)
qed

lemma sextet_arith0: "a div 4 * 4 + (a mod 4 * 16) div 16 = (a :: nat)"
  "b < 256 \<Longrightarrow> (a mod 4 * 16 + b div 16) mod 16 * 16 + (b mod 16 * 4) div 4 = (b :: nat)"
proof -
  show "a div 4 * 4 + (a mod 4 * 16) div 16 = a" using sextet_arith(1) [of 0 a] by simp
  show "b < 256 \<Longrightarrow> (a mod 4 * 16 + b div 16) mod 16 * 16 + (b mod 16 * 4) div 4 = b"
    using sextet_arith(2) [of b 0 a] by simp
qed

lemma unsextets_sextets: "\<forall>b \<in> set bs. b < 256 \<Longrightarrow> unsextets (sextets bs) = Some bs"
proof (induction bs rule: sextets.induct)
  case (1 a b c bs)
  then have "unsextets (sextets bs) = Some bs" "b < 256" "c < 256" by simp_all
  then show ?case by (simp only: sextets.simps unsextets.simps sextet_arith option.map)
next
  case (2 a b)
  then have "b < 256" by simp
  then show ?case by (simp only: sextets.simps unsextets.simps sextet_arith(1) sextet_arith0(2))
next
  case (3 a)
  show ?case by (simp only: sextets.simps unsextets.simps sextet_arith0(1))
qed simp

abbreviation b64chr :: "nat \<Rightarrow> jschar" where
  "b64chr n \<equiv> word_of_nat (b64code n)"

lemma unat_b64chr [simp]: "n < 64 \<Longrightarrow> unat (b64chr n) = b64code n"
  using b64code_less [of n] by (intro unat16) linarith

lemma b64chr_plain:
  assumes "n < 64"
  shows "b64chr n \<noteq> 61" "\<not> asciiWs (b64chr n)"
proof -
  have "b64code n \<notin> {9, 10, 12, 13, 32, 61}" using assms by (auto simp: b64code_def)
  then have "unat (b64chr n) \<notin> {9, 10, 12, 13, 32, 61}" using assms by simp
  then have "b64chr n \<notin> {9, 10, 12, 13, 32, 61}" by (auto simp del: unat_b64chr)
  then show "b64chr n \<noteq> 61" "\<not> asciiWs (b64chr n)" by (auto simp: asciiWs_def)
qed

lemma b64vals_chr: "\<forall>n \<in> set ns. n < 64 \<Longrightarrow> b64vals (map b64chr ns) = Some ns"
  by (induction ns) (auto simp: b64val_code)

lemma filter_b64:
  "\<forall>n \<in> set ns. n < 64 \<Longrightarrow>
   filter (\<lambda>c. \<not> asciiWs c) (map b64chr ns @ replicate p 61) = map b64chr ns @ replicate p 61"
proof -
  assume "\<forall>n \<in> set ns. n < 64"
  moreover have "\<not> asciiWs 61" by (simp add: asciiWs_def)
  ultimately show ?thesis by (intro filter_True) (auto simp: b64chr_plain)
qed

lemma dropPad_b64:
  assumes "\<forall>n \<in> set ns. n < 64" "p \<le> 2" "p \<noteq> 0 \<Longrightarrow> (length ns + p) mod 4 = 0 \<and> ns \<noteq> []"
  shows "dropPad (map b64chr ns @ replicate p 61) = map b64chr ns"
proof -
  have l: "last (map b64chr ns) \<noteq> 61" if "ns \<noteq> []"
    using that assms(1) b64chr_plain(1) by (simp add: last_map)
  consider "p = 0" | "p = 1" | "p = 2" using assms(2) by linarith
  then show ?thesis
  proof cases
    case 1
    then show ?thesis using l by (auto simp: dropPad_def)
  next
    case 2
    then show ?thesis using l assms(3) by (auto simp: dropPad_def butlast_append)
  next
    case 3
    have r: "replicate 2 (61 :: jschar) = [61, 61]" by (simp add: numeral_2_eq_2)
    show ?thesis using 3 assms(3) by (simp add: dropPad_def butlast_append r)
  qed
qed

lemma sextets_Nil [simp]: "sextets bs = [] \<longleftrightarrow> bs = []"
  by (cases bs rule: sextets.cases) auto

lemma atob_sextets:
  assumes "\<forall>b \<in> set bs. b < 256" "p = b64pad (length bs) \<or> p = 0"
  shows "atob (map b64chr (sextets bs) @ replicate p 61) = Some (map word_of_nat bs)"
proof -
  note l = sextets_less [OF assms(1)]
  have "p \<le> 2" using assms(2) by (auto simp: b64pad_def)
  moreover have "(length (sextets bs) + p) mod 4 = 0 \<and> sextets bs \<noteq> []" if "p \<noteq> 0"
    using that assms(2) length_sextets [of bs] by (auto simp: b64pad_def)
  ultimately have "dropPad (map b64chr (sextets bs) @ replicate p 61) = map b64chr (sextets bs)"
    by (rule dropPad_b64 [OF l])
  then show ?thesis
    unfolding atob_def filter_b64 [OF l] by (simp add: b64vals_chr [OF l] unsextets_sextets [OF assms(1)])
qed

lemma btoa_bytes:
  "btoa (fromBytes bs) =
     Inr (map b64chr (sextets (map unat bs)) @ replicate (b64pad (length bs)) 61)"
proof -
  have "unat (word_of_nat (unat b) :: jschar) = unat b" for b :: byte
    by (rule unat16) (use unat_byte [of b] in linarith)
  then have m: "map unat (fromBytes bs) = map unat bs"
    unfolding fromBytes_def map_map o_def by simp
  have "\<not> 255 < unat c" if "c \<in> set (fromBytes bs)" for c
  proof -
    have "unat c \<in> set (map unat bs)" using that m by (metis image_eqI set_map)
    then obtain b where "b \<in> set bs" "unat c = unat b" by auto
    then show ?thesis using unat_byte [of b] by simp
  qed
  moreover have "length (fromBytes bs) = length bs" by (simp add: fromBytes_def)
  ultimately show ?thesis unfolding btoa_def m by auto
qed

lemma atob_btoa: "btoa (fromBytes bs) = Inr s \<Longrightarrow> atob s = Some (fromBytes bs)"
proof -
  assume "btoa (fromBytes bs) = Inr s"
  then have s: "s = map b64chr (sextets (map unat bs)) @ replicate (b64pad (length (map unat bs))) 61"
    by (simp add: btoa_bytes)
  have "\<forall>n \<in> set (map unat bs). n < 256" using unat_byte by auto
  then have "atob s = Some (map word_of_nat (map unat bs))" unfolding s by (rule atob_sextets) simp
  then show ?thesis by (simp add: fromBytes_def o_def)
qed

section \<open>A decoder of UTF-8\<close>

text \<open>
  A decoder for the output of the encoder. It shows that the law assumed of the platform's
  decoder can hold, and that encoding loses nothing of a well-formed string.
\<close>

function utf8dec :: "nat list \<Rightarrow> nat list" where
  "utf8dec [] = []"
| "utf8dec (a # bs) =
     (if a < 0x80 then a # utf8dec bs
      else if a < 0xE0 then ((a - 0xC0) * 64 + (hd bs - 0x80)) # utf8dec (drop 1 bs)
      else if a < 0xF0 then ((a - 0xE0) * 4096 + (hd bs - 0x80) * 64 + (bs ! 1 - 0x80)) # utf8dec (drop 2 bs)
      else ((a - 0xF0) * 262144 + (hd bs - 0x80) * 4096 + (bs ! 1 - 0x80) * 64 + (bs ! 2 - 0x80))
             # utf8dec (drop 3 bs))"
  by pat_completeness auto
termination
  by (relation "measure length") auto

definition unitsOf :: "nat \<Rightarrow> nat list" where
  "unitsOf n = (if n < 0x10000 then [n]
     else [0xD800 + (n - 0x10000) div 1024, 0xDC00 + (n - 0x10000) mod 1024])"

definition decodeUtf8 :: "byte list \<Rightarrow> jsstr" where
  "decodeUtf8 bs = map word_of_nat (concat (map unitsOf (utf8dec (map unat bs))))"

lemma digits2: "n div 64 * 64 + n mod 64 = (n :: nat)"
  by (rule div_mult_mod_eq)

lemma digits3: "n div 4096 * 4096 + n div 64 mod 64 * 64 + n mod 64 = (n :: nat)"
proof -
  have "n div 4096 = n div 64 div 64" by (simp add: div_mult2_eq [symmetric])
  then show ?thesis using div_mult_mod_eq [of "n div 64" 64] div_mult_mod_eq [of n 64] by linarith
qed

lemma digits4: "n div 262144 * 262144 + n div 4096 mod 64 * 4096 + n div 64 mod 64 * 64 + n mod 64 = (n :: nat)"
proof -
  have "n div 262144 = n div 4096 div 64" by (simp add: div_mult2_eq [symmetric])
  then show ?thesis using div_mult_mod_eq [of "n div 4096" 64] digits3 [of n] by linarith
qed

lemma utf8dec_cp: "n < 0x110000 \<Longrightarrow> utf8dec (utf8cp n @ bs) = n # utf8dec bs"
proof -
  assume n: "n < 0x110000"
  consider "n < 0x80" | "0x80 \<le> n" "n < 0x800" | "0x800 \<le> n" "n < 0x10000" | "0x10000 \<le> n" by linarith
  then show ?thesis
  proof cases
    case 1
    then show ?thesis by (simp add: utf8cp_def)
  next
    case 2
    have "n div 64 < 32" using 2(2) by (simp add: less_mult_imp_div_less)
    then show ?thesis using 2 digits2 [of n] by (simp add: utf8cp_def)
  next
    case 3
    have "n div 4096 < 16" using 3(2) by (simp add: less_mult_imp_div_less)
    then show ?thesis using 3 digits3 [of n] by (simp add: utf8cp_def)
  next
    case 4
    then show ?thesis using digits4 [of n] by (simp add: utf8cp_def)
  qed
qed

lemma codePoints_less: "\<forall>c \<in> set cs. c < 0x10000 \<Longrightarrow> \<forall>n \<in> set (codePoints cs). n < 0x110000"
  by (induction cs rule: codePoints.induct) (auto simp: isHigh_def isLow_def)

lemma utf8dec_concat:
  "\<forall>n \<in> set ns. n < 0x110000 \<Longrightarrow> utf8dec (concat (map utf8cp ns)) = ns"
  by (induction ns) (auto simp: utf8dec_cp)

lemma units_codePoints:
  "wellFormed16 cs \<Longrightarrow> \<forall>c \<in> set cs. c < 0x10000 \<Longrightarrow> concat (map unitsOf (codePoints cs)) = cs"
proof (induction cs rule: codePoints.induct)
  case (3 c d cs)
  show ?case
  proof (cases "isHigh c")
    case True
    then have "isLow d" "wellFormed16 cs" using 3(3) by simp_all
    then have d: "d - 0xDC00 < 1024" "0xDC00 \<le> d" "0xD800 \<le> c"
      using True by (auto simp: isLow_def isHigh_def)
    have "unitsOf (0x10000 + (x * 1024 + y)) = [0xD800 + x, 0xDC00 + y]" if "y < 1024" for x y
      using that div_mod_split [OF that, of x] by (simp add: unitsOf_def)
    from this [OF d(1)] have "unitsOf (0x10000 + (c - 0xD800) * 1024 + (d - 0xDC00)) = [c, d]"
      using d(2,3) unfolding add.assoc by simp
    then show ?thesis using True \<open>isLow d\<close> \<open>wellFormed16 cs\<close> 3(1,4) by simp
  next
    case False
    then show ?thesis using 3 by (auto simp: unitsOf_def)
  qed
qed (auto simp: unitsOf_def)

lemma utf8cp_byte: "n < 0x110000 \<Longrightarrow> \<forall>b \<in> set (utf8cp n). b < 256"
proof -
  assume n: "n < 0x110000"
  have "n < 0x800 \<Longrightarrow> n div 64 < 32" "n < 0x10000 \<Longrightarrow> n div 4096 < 16" "n div 262144 < 5"
    using n by (simp_all add: less_mult_imp_div_less)
  moreover have "m mod 64 < 64" for m :: nat by simp
  then have "128 + m mod 64 < 256" for m :: nat using add_less_mono [of 128 192 "m mod 64" 64] by simp
  ultimately show ?thesis by (auto simp: utf8cp_def)
qed

lemma decodeUtf8_utf8: "wellFormed16 (map unat s) \<Longrightarrow> decodeUtf8 (utf8 s) = s"
proof -
  assume wf: "wellFormed16 (map unat s)"
  let ?cs = "map unat s"
  have lt: "\<forall>c \<in> set ?cs. c < 0x10000"
  proof
    fix c assume "c \<in> set ?cs"
    then obtain w :: jschar where "c = unat w" by auto
    moreover have "unat w < 2 ^ 16" by (rule order_less_le_trans [OF unsigned_less]) simp
    ultimately show "c < 0x10000" by simp
  qed
  note cp = codePoints_less [OF lt]
  have "\<forall>b \<in> set (concat (map utf8cp (codePoints ?cs))). b < 256" using cp utf8cp_byte by fastforce
  then have "map unat (utf8 s) = concat (map utf8cp (codePoints ?cs))"
    unfolding utf8_def map_map
    by (intro map_idI) (auto simp: unat_of_nat take_bit_eq_mod intro!: mod_less)
  then show ?thesis
    using utf8dec_concat [OF cp] units_codePoints [OF wf lt] by (simp add: decodeUtf8_def o_def)
qed

section \<open>Properties\<close>

text \<open>
  Base64 as used for frames and tokens loses nothing: every byte sequence is encoded
  without an exception into four units per three bytes, and decoding gives the bytes back.
\<close>

lemma base64_roundtrip:
  "\<exists>s. btoa (fromBytes bs) = Inr s \<and> length s = 4 * ((length bs + 2) div 3) \<and>
     map_option toBytes (atob s) = Some bs"
proof -
  obtain s where s: "btoa (fromBytes bs) = Inr s" by (simp add: btoa_bytes)
  then have "s = map b64chr (sextets (map unat bs)) @ replicate (b64pad (length bs)) 61"
    by (simp add: btoa_bytes)
  then have "length s = 4 * ((length bs + 2) div 3)" using length_sextets [of "map unat bs"] by simp
  then show ?thesis using s atob_btoa [OF s] by auto
qed

text \<open>
  Claim C16. Frames in both directions: with the build's key in the browser, a 12-byte vector and a
  correct platform, the server decodes what the browser encodes, and the browser decodes what the
  server encodes.
\<close>

theorem frame_roundtrip:
  assumes "gcm_correct P" "utf8_correct P" "hex = WS_AES_KEY_HEX" "length iv = 12"
    and "plainText (jsonString P obj)" "jsonString P obj \<noteq> []"
    and "jsonParse P (jsonString P obj) = Some obj"
  shows "(\<exists>f. wsEncode P hex iv obj = Inr f \<and> decodeClientWsMsg P f = Some obj) \<and>
         (\<exists>f. serverFrame P iv obj = Inr f \<and> wsDecode P hex f = Some obj)"
proof -
  let ?t = "jsonString P obj" and ?k = "getAesKey hex"
  let ?bs = "iv @ gcmEncrypt P ?k iv (utf8 ?t)"
  obtain f where f: "btoa (fromBytes ?bs) = Inr f" by (simp add: btoa_bytes)
  then have a: "atob f = Some (fromBytes ?bs)" by (rule atob_btoa)
  have "textDecode P (utf8 ?t) = ?t" using assms(2,5) by (simp add: utf8_correct_def)
  moreover have "gcmDecrypt P ?k iv (gcmEncrypt P ?k iv (utf8 ?t)) = Some (utf8 ?t)"
    using assms(1) by (simp add: gcm_correct_def)
  moreover have "clientGetAesKey hex = ?k" by (simp add: clientGetAesKey_def getAesKey_def)
  ultimately show ?thesis
    using f a assms(3,4,6,7)
    by (simp add: wsEncode_def clientAesEncrypt_def decodeClientWsMsg_def aesDecrypt_def safeParse_def
        serverFrame_def aesEncrypt_def wsDecode_def clientAesDecrypt_def Let_def)
qed

definition ex_platform :: "jsval \<Rightarrow> platform" where
  "ex_platform v = \<lparr>gcmEncrypt = (\<lambda>k iv m. k @ m), gcmDecrypt = (\<lambda>k iv m. Some (drop (length k) m)),
     textDecode = decodeUtf8, jsonString = (\<lambda>_. jslit ''{}''), jsonParse = (\<lambda>_. Some v),
     hmacSign = (\<lambda>k m. k @ m), coerceNumber = (\<lambda>_. JNaN)\<rparr>"

lemma ex_platform_ok: "gcm_correct (ex_platform v)" "utf8_correct (ex_platform v)"
  by (simp_all add: gcm_correct_def utf8_correct_def ex_platform_def plainText_def decodeUtf8_utf8)

theorem frame_roundtrip_witness:
  "\<exists>f. wsEncode (ex_platform JNull) WS_AES_KEY_HEX (replicate 12 0) JNull = Inr f \<and>
     decodeClientWsMsg (ex_platform JNull) f = Some JNull"
proof -
  let ?P = "ex_platform JNull"
  have "plainText (jsonString ?P JNull)" "jsonString ?P JNull \<noteq> []" "jsonParse ?P (jsonString ?P JNull) = Some JNull"
    by (simp_all add: ex_platform_def plainText_def jslit_def isHigh_def isLow_def)
  then show ?thesis
    using frame_roundtrip [OF ex_platform_ok refl, of "replicate 12 0"] by simp
qed

text \<open>Printing of bytes in lower-case hexadecimal.\<close>

definition hexDigit :: "nat \<Rightarrow> char" where
  "hexDigit n = char_of (if n < 10 then 48 + n else 87 + n)"

definition hexByte :: "byte \<Rightarrow> string" where
  "hexByte b = [hexDigit (unat b div 16), hexDigit (unat b mod 16)]"

definition isHexDigit :: "char \<Rightarrow> bool" where
  "isHexDigit ch \<longleftrightarrow> ch \<in> set ''0123456789abcdef''"

lemma hexVal_digit:
  assumes "isHexDigit ch"
  obtains n where "hexVal ch = Some n" "n < 16" "hexDigit n = ch"
proof -
  have "\<forall>ch \<in> set ''0123456789abcdef''. \<exists>n \<in> set [0..<16]. hexVal ch = Some n \<and> hexDigit n = ch"
    by code_simp
  then show thesis using assms that unfolding isHexDigit_def by fastforce
qed

lemma hexByte_parse:
  assumes "isHexDigit a" "isHexDigit b"
  shows "hexByte (word_of_nat (parseHex [a, b])) = [a, b]"
proof -
  obtain x where x: "hexVal a = Some x" "x < 16" "hexDigit x = a" using hexVal_digit [OF assms(1)] .
  obtain y where y: "hexVal b = Some y" "y < 16" "hexDigit y = b" using hexVal_digit [OF assms(2)] .
  have "unat (word_of_nat (16 * x + y) :: byte) = 16 * x + y"
    using x(2) y(2) by (simp only: unat_of_nat take_bit_eq_mod) simp
  then show ?thesis using x y by (simp add: hexByte_def)
qed

lemma concat_pairs:
  "2 * n \<le> length h \<Longrightarrow> concat (map (\<lambda>i. [h ! (2 * i), h ! (2 * i + 1)]) [0..<n]) = take (2 * n) h"
  by (induction n) (simp_all add: take_Suc_conv_app_nth)

lemma slice_pair: "2 * i + 1 < length h \<Longrightarrow> slice (i * 2) (i * 2 + 2) h = [h ! (2 * i), h ! (2 * i + 1)]"
  by (simp add: slice_def numeral_2_eq_2 take_Suc_conv_app_nth mult.commute [of i])

text \<open>
  The shared key is what its text says: from any text of 64 hexadecimal digits both
  sides read the same 32 bytes, and printing them in hexadecimal gives the text back.
\<close>

lemma key_text_roundtrip:
  assumes "length hex = 64" "list_all isHexDigit hex"
  shows "clientGetAesKey hex = getAesKey hex \<and> length (getAesKey hex) = 32 \<and>
    concat (map hexByte (getAesKey hex)) = hex"
proof -
  have "hexByte (word_of_nat (parseHex (slice (i * 2) (i * 2 + 2) hex))) = [hex ! (2 * i), hex ! (2 * i + 1)]"
    if "i < 32" for i
    using that assms slice_pair [of i hex] by (simp add: hexByte_parse list_all_length del: parseHex.simps)
  then have "map hexByte (getAesKey hex) = map (\<lambda>i. [hex ! (2 * i), hex ! (2 * i + 1)]) [0..<32]"
    by (simp add: getAesKey_def)
  then have "concat (map hexByte (getAesKey hex)) = hex" using concat_pairs [of 32 hex] assms(1) by simp
  then show ?thesis by (simp add: getAesKey_def clientGetAesKey_def)
qed

end
