(* ===== verification/Http.thy ===== *)
theory Http
  imports Codec
begin

text \<open>
  The responses of the server: \<open>json\<close> and \<open>text\<close> of \<open>utils.ts\<close>, redirects, and the serialisation of
  form parameters that \<open>auth.ts\<close> puts into URLs and request bodies. A response is its status, its
  headers with names in lower case, and its body. Lemmas: the serialised parameters use letters,
  digits and few signs only, and reading them back gives the parameters.
\<close>

section \<open>Responses\<close>

datatype http_body = NoBody | TextBody jsstr | FileBody jsstr

record http_response =
  hr_status :: nat
  hr_headers :: "(string \<times> jsstr) list"
  hr_body :: http_body

definition json :: "platform \<Rightarrow> jsval \<Rightarrow> nat \<Rightarrow> http_response" where
  "json P v status =
     \<lparr>hr_status = status,
      hr_headers = [(''content-type'', jslit ''application/json; charset=utf-8''),
        (''access-control-allow-origin'', jslit (CORS CONFIG))],
      hr_body = TextBody (jsonString P v)\<rparr>"

definition text_response :: "string \<Rightarrow> nat \<Rightarrow> http_response" where
  "text_response t status =
     \<lparr>hr_status = status,
      hr_headers = [(''content-type'', jslit ''text/plain; charset=utf-8''),
        (''access-control-allow-origin'', jslit (CORS CONFIG))],
      hr_body = TextBody (jslit t)\<rparr>"

text \<open>\<open>Response.redirect(url, 302)\<close>.\<close>

definition redirect :: "jsstr \<Rightarrow> http_response" where
  "redirect url = \<lparr>hr_status = 302, hr_headers = [(''location'', url)], hr_body = NoBody\<rparr>"

text \<open>\<open>new Response(text, { status })\<close>: the platform adds the type of a text.\<close>

definition plainResponse :: "string \<Rightarrow> nat \<Rightarrow> http_response" where
  "plainResponse t status =
     \<lparr>hr_status = status, hr_headers = [(''content-type'', jslit ''text/plain;charset=UTF-8'')],
      hr_body = TextBody (jslit t)\<rparr>"

section \<open>Numbers in texts\<close>

fun decimal :: "nat \<Rightarrow> string" where
  "decimal n = (if n < 10 then [char_of (48 + n)] else decimal (n div 10) @ [char_of (48 + n mod 10)])"

declare decimal.simps [simp del]

section \<open>Form parameters\<close>

text \<open>
  \<open>URLSearchParams\<close>: letters, digits and four signs stand for themselves, a blank becomes a plus,
  every other byte of the UTF-8 form an escape.
\<close>

definition formPlain :: "nat \<Rightarrow> bool" where
  "formPlain n \<longleftrightarrow> 48 \<le> n \<and> n \<le> 57 \<or> 65 \<le> n \<and> n \<le> 90 \<or> 97 \<le> n \<and> n \<le> 122 \<or> n \<in> {42, 45, 46, 95}"

definition upperHex :: "nat \<Rightarrow> jschar" where
  "upperHex n = of_nat (if n < 10 then 48 + n else 55 + n)"

definition formByte :: "byte \<Rightarrow> jsstr" where
  "formByte b =
     (let n = unat b
      in if formPlain n then [of_nat n] else if n = 32 then [43]
         else [37, upperHex (n div 16), upperHex (n mod 16)])"

definition formText :: "jsstr \<Rightarrow> jsstr" where
  "formText s = concat (map formByte (utf8 s))"

fun formEncode :: "(string \<times> jsstr) list \<Rightarrow> jsstr" where
  "formEncode [] = []"
| "formEncode [(k, v)] = formText (jslit k) @ [61] @ formText v"
| "formEncode ((k, v) # p # ps) = formText (jslit k) @ [61] @ formText v @ [38] @ formEncode (p # ps)"

section \<open>Reading parameters\<close>

text \<open>What the standard prescribes for the other side: split at the ampersands and at the first equals sign.\<close>

fun splitAmp :: "jsstr \<Rightarrow> jsstr list" where
  "splitAmp [] = [[]]"
| "splitAmp (c # cs) =
     (if c = 38 then [] # splitAmp cs
      else (case splitAmp cs of [] \<Rightarrow> [[c]] | p # ps \<Rightarrow> (c # p) # ps))"

fun hexOf :: "jschar \<Rightarrow> nat option" where
  "hexOf u = (let c = unat u in if 48 \<le> c \<and> c \<le> 57 then Some (c - 48)
     else if 65 \<le> c \<and> c \<le> 70 then Some (c - 55) else if 97 \<le> c \<and> c \<le> 102 then Some (c - 87) else None)"

fun formBytes :: "jsstr \<Rightarrow> byte list" where
  "formBytes [] = []"
| "formBytes (p # a # b # s) =
     (if p = 37 then
        (case (hexOf a, hexOf b) of
           (Some x, Some y) \<Rightarrow> of_nat (16 * x + y) # formBytes s
         | _ \<Rightarrow> 37 # formBytes (a # b # s))
      else (if p = 43 then 32 else of_nat (unat p)) # formBytes (a # b # s))"
| "formBytes (p # s) = (if p = 43 then 32 else of_nat (unat p)) # formBytes s"

definition formDecode :: "(byte list \<Rightarrow> jsstr) \<Rightarrow> jsstr \<Rightarrow> (jsstr \<times> jsstr) list" where
  "formDecode decode s =
     map (\<lambda>p. (decode (formBytes (takeWhile (\<lambda>c. c \<noteq> 61) p)), decode (formBytes (tl (dropWhile (\<lambda>c. c \<noteq> 61) p)))))
       (filter (\<lambda>p. p \<noteq> []) (splitAmp s))"

section \<open>Lemmas\<close>

lemma unat_upperHex: "n < 16 \<Longrightarrow> unat (upperHex n) = (if n < 10 then 48 + n else 55 + n)"
  by (simp add: upperHex_def unat_of_nat take_bit_eq_mod)

lemma hexOf_upperHex: "n < 16 \<Longrightarrow> hexOf (upperHex n) = Some n"
  by (simp add: unat_upperHex)

declare hexOf.simps [simp del]

lemma formByte_units:
  assumes "c \<in> set (formByte b)"
  shows "formPlain (unat c) \<or> c = 43 \<or> c = 37"
proof -
  have "unat (of_nat (unat b) :: jschar) = unat b" by (rule unat16) (use unat_byte [of b] in linarith)
  moreover have "formPlain (unat (upperHex n))" if "n < 16" for n
    using that by (auto simp: unat_upperHex formPlain_def)
  ultimately show ?thesis
    using assms unat_byte [of b] by (auto simp: formByte_def Let_def split: if_splits)
qed

lemma formText_units: "c \<in> set (formText s) \<Longrightarrow> formPlain (unat c) \<or> c = 43 \<or> c = 37"
  by (auto simp: formText_def dest: formByte_units)

lemma formText_separators: "38 \<notin> set (formText s)" "61 \<notin> set (formText s)"
  using formText_units [of 38 s] formText_units [of 61 s] by (auto simp: formPlain_def)

text \<open>Every unit of the serialised parameters is a letter, a digit or one of eight signs.\<close>

lemma formEncode_units:
  "c \<in> set (formEncode ps) \<Longrightarrow> formPlain (unat c) \<or> c \<in> {43, 37, 61, 38}"
  by (induction ps rule: formEncode.induct) (auto dest: formText_units)

lemma formBytes_plain:
  assumes "formPlain n"
  shows "formBytes (of_nat n # s) = of_nat n # formBytes s"
proof -
  have n: "n < 128" "n \<noteq> 37" "n \<noteq> 43" using assms by (auto simp: formPlain_def)
  then have u: "unat (of_nat n :: jschar) = n" by (simp add: unat_of_nat take_bit_eq_mod)
  have "unat (of_nat n :: jschar) \<noteq> unat (37 :: jschar)" "unat (of_nat n :: jschar) \<noteq> unat (43 :: jschar)"
    unfolding u using n by simp_all
  then have "of_nat n \<noteq> (37 :: jschar)" "of_nat n \<noteq> (43 :: jschar)" by metis+
  moreover have "of_nat (unat (of_nat n :: jschar)) = (of_nat n :: byte)" unfolding u ..
  ultimately show ?thesis by (cases s rule: formBytes.cases) simp_all
qed

lemma formBytes_formByte: "formBytes (formByte b @ s) = b # formBytes s"
proof -
  have b: "unat b < 256" by (rule unat_byte)
  consider "formPlain (unat b)" | "\<not> formPlain (unat b)" "unat b = 32"
    | "\<not> formPlain (unat b)" "unat b \<noteq> 32" by blast
  then show ?thesis
  proof cases
    case 1
    then show ?thesis using formBytes_plain [of "unat b" s] by (simp add: formByte_def Let_def)
  next
    case 2
    then have "b = 32" by (simp add: word_unat_eq_iff)
    moreover have "formBytes (43 # s) = 32 # formBytes s"
      by (cases s rule: formBytes.cases) simp_all
    ultimately show ?thesis using 2 by (simp add: formByte_def)
  next
    case 3
    have "unat b div 16 < 16" "unat b mod 16 < 16" using b by auto
    then have "formBytes (37 # upperHex (unat b div 16) # upperHex (unat b mod 16) # s) =
        of_nat (16 * (unat b div 16) + unat b mod 16) # formBytes s"
      by (simp add: hexOf_upperHex)
    then show ?thesis using 3 by (simp add: formByte_def Let_def)
  qed
qed

lemma formBytes_formText: "formBytes (formText s) = utf8 s"
proof -
  have "formBytes (concat (map formByte bs)) = bs" for bs
    by (induction bs) (simp_all add: formBytes_formByte)
  then show ?thesis by (simp add: formText_def)
qed

lemma splitAmp_plain: "38 \<notin> set s \<Longrightarrow> splitAmp s = [s]"
  by (induction s) auto

lemma splitAmp_amp: "38 \<notin> set s \<Longrightarrow> splitAmp (s @ 38 # t) = s # splitAmp t"
  by (induction s) auto

lemma splitAmp_formEncode:
  "ps \<noteq> [] \<Longrightarrow> splitAmp (formEncode ps) = map (\<lambda>(k, v). formText (jslit k) @ [61] @ formText v) ps"
proof (induction ps rule: formEncode.induct)
  case (2 k v)
  then show ?case using formText_separators by (simp add: splitAmp_plain)
next
  case (3 k v p ps)
  have "38 \<notin> set (formText (jslit k) @ [61] @ formText v)" using formText_separators by simp
  from splitAmp_amp [OF this, of "formEncode (p # ps)"] 3 show ?case by simp
qed simp

text \<open>Reading the serialised parameters gives them back, for texts that the decoder reads back.\<close>

lemma formDecode_formEncode:
  assumes "\<forall>(k, v) \<in> set ps. decode (utf8 (jslit k)) = jslit k \<and> decode (utf8 v) = v"
  shows "formDecode decode (formEncode ps) = map (\<lambda>(k, v). (jslit k, v)) ps"
proof (cases "ps = []")
  case False
  have tw: "takeWhile (\<lambda>c. c \<noteq> 61) (formText s @ 61 # t) = formText s"
    "dropWhile (\<lambda>c. c \<noteq> 61) (formText s @ 61 # t) = 61 # t" for s t
  proof -
    have "\<forall>c \<in> set (formText s). c \<noteq> 61" using formText_separators(2) [of s] by metis
    then show "takeWhile (\<lambda>c. c \<noteq> 61) (formText s @ 61 # t) = formText s"
      "dropWhile (\<lambda>c. c \<noteq> 61) (formText s @ 61 # t) = 61 # t"
      by (simp_all add: takeWhile_append2 dropWhile_append2)
  qed
  have "formDecode decode (formEncode ps) =
      map (\<lambda>(k, v). (decode (utf8 (jslit k)), decode (utf8 v))) ps"
    unfolding formDecode_def splitAmp_formEncode [OF False]
    by (induction ps) (auto simp: tw formBytes_formText)
  then show ?thesis using assms by auto
qed (simp add: formDecode_def)

end
