(* ===== verification/Auth.thy ===== *)
theory Auth
  imports Http
begin

text \<open>
  \<open>auth.ts\<close>: OAuth login states, the signed session token (JWT) and the handlers of \<open>/auth\<close>.
  The identity provider is an argument of the callback handler: what it answers to a request. The
  keyed hash is an operation of the platform, and verification compares against it. A request is
  reduced to what the handlers read of it: query parameters, the cookie header and the base of its
  URL.
\<close>

section \<open>Configuration and state\<close>

record auth_config =
  LINUXDO_CLIENT_ID :: jsstr
  LINUXDO_CLIENT_SECRET :: jsstr
  LINUXDO_REDIRECT_URI :: jsstr
  JWT_SECRET :: jsstr
  USE_CN_ENDPOINT :: bool

text \<open>\<open>Deno.env.get(name) ?? d\<close>.\<close>

definition envOr :: "(string \<Rightarrow> jsstr option) \<Rightarrow> string \<Rightarrow> string \<Rightarrow> jsstr" where
  "envOr env name d = (case env name of None \<Rightarrow> jslit d | Some v \<Rightarrow> v)"

definition authConfig :: "(string \<Rightarrow> jsstr option) \<Rightarrow> auth_config" where
  "authConfig env =
     \<lparr>LINUXDO_CLIENT_ID = envOr env ''LINUXDO_CLIENT_ID'' [],
      LINUXDO_CLIENT_SECRET = envOr env ''LINUXDO_CLIENT_SECRET'' [],
      LINUXDO_REDIRECT_URI = envOr env ''LINUXDO_REDIRECT_URI'' ''http://localhost:8000/auth/callback'',
      JWT_SECRET = envOr env ''JWT_SECRET'' [],
      USE_CN_ENDPOINT = (env ''LINUXDO_USE_CN'' \<noteq> Some (jslit ''false''))\<rparr>"

definition AUTHORIZE_URL :: string where
  "AUTHORIZE_URL = ''https://connect.linux.do/oauth2/authorize''"

definition TOKEN_URL :: "auth_config \<Rightarrow> string" where
  "TOKEN_URL cfg =
     (if USE_CN_ENDPOINT cfg then ''https://connect.linuxdo.org/oauth2/token''
      else ''https://connect.linux.do/oauth2/token'')"

definition USERINFO_URL :: "auth_config \<Rightarrow> string" where
  "USERINFO_URL cfg =
     (if USE_CN_ENDPOINT cfg then ''https://connect.linuxdo.org/api/user''
      else ''https://connect.linux.do/api/user'')"

definition JWT_EXPIRE_HOURS :: int where
  "JWT_EXPIRE_HOURS = 24"

text \<open>The table of pending login states with the time of their creation.\<close>

type_synonym login_states = "(jsstr, int) jsmap"

definition cleanupStates :: "int \<Rightarrow> login_states \<Rightarrow> login_states" where
  "cleanupStates now st = filter (\<lambda>(state, ts). \<not> now - ts > 10 * 60 * 1000) st"

section \<open>Base64url\<close>

definition replaceUnit :: "jschar \<Rightarrow> jschar \<Rightarrow> jsstr \<Rightarrow> jsstr" where
  "replaceUnit a b s = map (\<lambda>c. if c = a then b else c) s"

text \<open>\<open>s.replace(/=+$/, "")\<close>.\<close>

definition stripEq :: "jsstr \<Rightarrow> jsstr" where
  "stripEq s = rev (dropWhile (\<lambda>c. c = 61) (rev s))"

definition base64url :: "byte list \<Rightarrow> js_err + jsstr" where
  "base64url bytes =
     (let binary = fromBytes bytes
      in ebind (btoa binary) (\<lambda>s. Inr (stripEq (replaceUnit 47 95 (replaceUnit 43 45 s)))))"

text \<open>What the verification feeds to \<open>atob\<close>.\<close>

definition unBase64url :: "jsstr \<Rightarrow> jsstr option" where
  "unBase64url s = atob (replaceUnit 95 47 (replaceUnit 45 43 s))"

section \<open>Tokens\<close>

text \<open>\<open>importKey\<close> for HMAC throws on an empty key.\<close>

definition importHmacKey :: "jsstr \<Rightarrow> js_err + byte list" where
  "importHmacKey secret = (if secret = [] then Inl DataError else Inr (utf8 secret))"

definition jwtHeader :: jsval where
  "jwtHeader = JObj [(jslit ''alg'', JStr (jslit ''HS256'')), (jslit ''typ'', JStr (jslit ''JWT''))]"

definition fullPayload :: "(jsstr \<times> jsval) list \<Rightarrow> int \<Rightarrow> jsval" where
  "fullPayload payload nowMs =
     (let now = nowMs div 1000
      in JObj (payload @ [(jslit ''iat'', JNum (JFin (real_of_int now))),
            (jslit ''exp'', JNum (JFin (real_of_int (now + JWT_EXPIRE_HOURS * 3600))))]))"

definition createJWT :: "platform \<Rightarrow> auth_config \<Rightarrow> int \<Rightarrow> (jsstr \<times> jsval) list \<Rightarrow> js_err + jsstr" where
  "createJWT P cfg nowMs payload =
     ebind (base64url (utf8 (jsonString P jwtHeader))) (\<lambda>headerB64.
     ebind (base64url (utf8 (jsonString P (fullPayload payload nowMs)))) (\<lambda>payloadB64.
       let tdata = headerB64 @ [46] @ payloadB64
       in ebind (importHmacKey (JWT_SECRET cfg)) (\<lambda>key.
          let sig = hmacSign P key (utf8 tdata)
          in ebind (base64url sig) (\<lambda>sigB64. Inr (tdata @ [46] @ sigB64)))))"

text \<open>\<open>s.split(".")\<close>.\<close>

fun splitDot :: "jsstr \<Rightarrow> jsstr list" where
  "splitDot [] = [[]]"
| "splitDot (c # cs) =
     (if c = 46 then [] # splitDot cs
      else (case splitDot cs of [] \<Rightarrow> [[c]] | p # ps \<Rightarrow> (c # p) # ps))"

fun numLess :: "jsnum \<Rightarrow> real \<Rightarrow> bool" where
  "numLess (JFin r) x = (r < x)"
| "numLess JNegInf x = True"
| "numLess _ x = False"

text \<open>\<open>v < n\<close> for a number \<open>n\<close>: other values than numbers are coerced.\<close>

definition lessNumber :: "platform \<Rightarrow> jsval \<Rightarrow> real \<Rightarrow> bool" where
  "lessNumber P v x = (case v of JNum n \<Rightarrow> numLess n x | _ \<Rightarrow> numLess (coerceNumber P v) x)"

definition verifyJWT :: "platform \<Rightarrow> auth_config \<Rightarrow> int \<Rightarrow> jsstr \<Rightarrow> jsval option" where
  "verifyJWT P cfg nowMs token =
     (case splitDot token of
        [headerB64, payloadB64, sigB64] \<Rightarrow>
          let tdata = headerB64 @ [46] @ payloadB64
          in (case importHmacKey (JWT_SECRET cfg) of
                Inl e \<Rightarrow> None
              | Inr key \<Rightarrow>
                  (case unBase64url sigB64 of
                     None \<Rightarrow> None
                   | Some sigStr \<Rightarrow>
                       let sig = toBytes sigStr
                       in if sig \<noteq> hmacSign P key (utf8 tdata) then None
                          else (case Option.bind (unBase64url payloadB64) (jsonParse P) of
                                  None \<Rightarrow> None
                                | Some payload \<Rightarrow>
                                    if nullish payload then None
                                    else if truthy (getp payload ''exp'') \<and>
                                       lessNumber P (getp payload ''exp'') (real_of_int (nowMs div 1000))
                                    then None
                                    else Some payload)))
      | _ \<Rightarrow> None)"

text \<open>
  \<open>cookie.match(/auth_token=([^;]+)/)\<close>: the first place where the text is followed by a unit
  other than a semicolon.
\<close>

definition tokenKey :: jsstr where
  "tokenKey = jslit ''auth_token=''"

fun matchToken :: "jsstr \<Rightarrow> jsstr option" where
  "matchToken [] = None"
| "matchToken (c # cs) =
     (let s = c # cs; v = takeWhile (\<lambda>u. u \<noteq> 59) (drop (length tokenKey) s)
      in if startsWith s tokenKey \<and> v \<noteq> [] then Some v else matchToken cs)"

definition getUserFromCookie :: "platform \<Rightarrow> auth_config \<Rightarrow> int \<Rightarrow> jsstr option \<Rightarrow> jsval option" where
  "getUserFromCookie P cfg nowMs header =
     (let cookie = (case header of None \<Rightarrow> [] | Some c \<Rightarrow> c)
      in case matchToken cookie of None \<Rightarrow> None | Some t \<Rightarrow> verifyJWT P cfg nowMs t)"

definition isOAuthConfigured :: "auth_config \<Rightarrow> bool" where
  "isOAuthConfigured cfg \<longleftrightarrow> LINUXDO_CLIENT_ID cfg \<noteq> [] \<and> LINUXDO_CLIENT_SECRET cfg \<noteq> []"

section \<open>Handlers\<close>

definition authorizeParams :: "auth_config \<Rightarrow> jsstr \<Rightarrow> (string \<times> jsstr) list" where
  "authorizeParams cfg state =
     [(''client_id'', LINUXDO_CLIENT_ID cfg), (''redirect_uri'', LINUXDO_REDIRECT_URI cfg),
      (''response_type'', jslit ''code''), (''scope'', jslit ''read''), (''state'', state)]"

definition handleLogin :: "auth_config \<Rightarrow> int \<Rightarrow> jsstr \<Rightarrow> login_states \<Rightarrow> http_response \<times> login_states" where
  "handleLogin cfg now uuid st =
     (if \<not> isOAuthConfigured cfg then (plainResponse ''OAuth not configured'' 500, st)
      else (redirect (jslit AUTHORIZE_URL @ jslit ''?'' @ formEncode (authorizeParams cfg uuid)), map_set uuid now st))"

text \<open>The protocol, with its colon, and the host of the URL of a request.\<close>

definition getBaseUrl :: "jsstr \<Rightarrow> jsstr \<Rightarrow> jsstr" where
  "getBaseUrl protocol host = protocol @ jslit ''//'' @ host"

text \<open>
  An answer of the provider: the request fails, the status is not ok (with a body that can be read
  or not), or a body (which may not parse).
\<close>

datatype fetched = FThrow | FNotOk bool | FBody "jsval option"

text \<open>
  The provider: what it answers to the exchange of a code, by the URL and the form of the request, and
  to the question for the user, by the URL and the value that the authorisation header carries.
\<close>

record provider =
  pv_token :: "string \<Rightarrow> jsstr \<Rightarrow> fetched"
  pv_user :: "string \<Rightarrow> jsval \<Rightarrow> fetched"

definition tokenParams :: "auth_config \<Rightarrow> jsstr \<Rightarrow> (string \<times> jsstr) list" where
  "tokenParams cfg code =
     [(''grant_type'', jslit ''authorization_code''), (''client_id'', LINUXDO_CLIENT_ID cfg),
      (''client_secret'', LINUXDO_CLIENT_SECRET cfg), (''redirect_uri'', LINUXDO_REDIRECT_URI cfg), (''code'', code)]"

text \<open>\<open>a || b\<close>.\<close>

definition orElse :: "jsval \<Rightarrow> jsval \<Rightarrow> jsval" where
  "orElse a b = (if truthy a then a else b)"

definition userPayload :: "jsval \<Rightarrow> (jsstr \<times> jsval) list" where
  "userPayload userInfo =
     [(jslit ''sub'', getp userInfo ''username''), (jslit ''id'', getp userInfo ''id''),
      (jslit ''name'', orElse (getp userInfo ''name'') (getp userInfo ''username'')),
      (jslit ''trust_level'', orElse (getp userInfo ''trust_level'') (JNum (JFin 0)))]"

text \<open>A redirect to the start page with an error code, and one that sets the session cookie.\<close>

definition errorRedirect :: "jsstr \<Rightarrow> string \<Rightarrow> http_response" where
  "errorRedirect baseUrl err = redirect (baseUrl @ jslit ''/?error='' @ jslit err)"

definition sessionCookie :: "jsstr \<Rightarrow> jsstr" where
  "sessionCookie jwt =
     jslit ''auth_token='' @ jwt @ jslit ''; Path=/; HttpOnly; SameSite=Lax; Max-Age='' @
     jslit (decimal (nat (JWT_EXPIRE_HOURS * 3600)))"

definition cookieRedirect :: "jsstr \<Rightarrow> jsstr \<Rightarrow> http_response" where
  "cookieRedirect baseUrl cookie =
     \<lparr>hr_status = 302, hr_headers = [(''set-cookie'', cookie), (''location'', baseUrl @ jslit ''/'')], hr_body = NoBody\<rparr>"

text \<open>
  The part of the callback after the state has been consumed. Reading a property of \<open>null\<close> throws,
  and so does reading the body of a failed request whose connection breaks.
\<close>

definition exchangeCode ::
  "platform \<Rightarrow> auth_config \<Rightarrow> provider \<Rightarrow> jsstr \<Rightarrow> int \<Rightarrow> jsstr \<Rightarrow> http_response" where
  "exchangeCode P cfg V baseUrl now code =
     (let failed = errorRedirect baseUrl ''callback_failed''
      in case pv_token V (TOKEN_URL cfg) (formEncode (tokenParams cfg code)) of
        FThrow \<Rightarrow> failed
      | FNotOk readable \<Rightarrow> if readable then errorRedirect baseUrl ''token_failed'' else failed
      | FBody None \<Rightarrow> failed
      | FBody (Some tokenData) \<Rightarrow>
          if nullish tokenData then failed
          else (case pv_user V (USERINFO_URL cfg) (getp tokenData ''access_token'') of
                  FThrow \<Rightarrow> failed
                | FNotOk readable \<Rightarrow> if readable then errorRedirect baseUrl ''userinfo_failed'' else failed
                | FBody None \<Rightarrow> failed
                | FBody (Some userInfo) \<Rightarrow>
                    if nullish userInfo then failed
                    else (case createJWT P cfg now (userPayload userInfo) of
                            Inl e \<Rightarrow> failed
                          | Inr jwt \<Rightarrow> cookieRedirect baseUrl (sessionCookie jwt))))"

definition handleCallback ::
  "platform \<Rightarrow> auth_config \<Rightarrow> provider \<Rightarrow> jsstr \<Rightarrow> int \<Rightarrow> jsstr option \<Rightarrow> jsstr option \<Rightarrow>
   login_states \<Rightarrow> http_response \<times> login_states" where
  "handleCallback P cfg V baseUrl now code state st =
     (case (code, state) of
        (Some c, Some s) \<Rightarrow>
          if c = [] \<or> s = [] \<or> \<not> map_has st s then (errorRedirect baseUrl ''invalid_state'', st)
          else (exchangeCode P cfg V baseUrl now c, map_delete s st)
      | _ \<Rightarrow> (errorRedirect baseUrl ''invalid_state'', st))"

definition handleLogout :: "jsstr \<Rightarrow> http_response" where
  "handleLogout baseUrl = cookieRedirect baseUrl (jslit ''auth_token=; Path=/; HttpOnly; Max-Age=0'')"

text \<open>\<open>new Response(JSON.stringify(v), \<dots>)\<close> of \<open>auth.ts\<close>.\<close>

definition authJson :: "platform \<Rightarrow> jsval \<Rightarrow> http_response" where
  "authJson P v = \<lparr>hr_status = 200, hr_headers = [(''content-type'', jslit ''application/json'')],
     hr_body = TextBody (jsonString P v)\<rparr>"

definition notAuthenticated :: jsval where
  "notAuthenticated = JObj [(jslit ''authenticated'', JBool False)]"

definition authenticatedAs :: "jsval \<Rightarrow> jsval" where
  "authenticatedAs user = JObj [(jslit ''authenticated'', JBool True), (jslit ''user'', user)]"

definition handleMe :: "platform \<Rightarrow> auth_config \<Rightarrow> int \<Rightarrow> jsstr option \<Rightarrow> http_response" where
  "handleMe P cfg now header =
     (case getUserFromCookie P cfg now header of
        Some user \<Rightarrow> if truthy user then authJson P (authenticatedAs user) else authJson P notAuthenticated
      | None \<Rightarrow> authJson P notAuthenticated)"

definition randomNames :: "string list" where
  "randomNames =
    [''SnowWarrior'', ''IceKnight'', ''FrostMage'', ''WinterHero'', ''ChillMaster'',
     ''SnowNinja'', ''IceWizard'', ''FrostGuard'', ''WinterStar'', ''ColdFighter'',
     ''SnowHunter'', ''IceDragon'', ''FrostLord'', ''WinterKing'', ''ChillHero'']"

text \<open>\<open>randomNames[Math.floor(Math.random() * randomNames.length)] + randomId\<close>.\<close>

definition devName :: "real \<Rightarrow> jsstr \<Rightarrow> jsstr" where
  "devName r uuid = jslit (randomNames ! nat \<lfloor>r * real (length randomNames)\<rfloor>) @ slice 0 8 uuid"

definition handleDevLogin ::
  "platform \<Rightarrow> auth_config \<Rightarrow> jsstr \<Rightarrow> int \<Rightarrow> real \<Rightarrow> jsstr \<Rightarrow> jsstr option \<Rightarrow> js_err + http_response" where
  "handleDevLogin P cfg baseUrl now r uuid secret =
     (if secret \<noteq> Some (LINUXDO_CLIENT_SECRET cfg) then Inr (plainResponse ''Forbidden'' 403)
      else
        let randomName = devName r uuid
        in ebind (createJWT P cfg now
             [(jslit ''sub'', JStr randomName), (jslit ''id'', JStr (jslit ''dev_'' @ slice 0 8 uuid)),
              (jslit ''name'', JStr randomName), (jslit ''trust_level'', JNum (JFin 1)),
              (jslit ''dev_account'', JBool True)])
             (\<lambda>jwt. Inr (cookieRedirect baseUrl (sessionCookie jwt))))"

section \<open>Lemmas\<close>

lemma b64chr_url:
  assumes "n < 64"
  shows "b64chr n \<noteq> 45" "b64chr n \<noteq> 95" "b64chr n \<noteq> 46"
proof -
  have "b64code n \<notin> {45, 95, 46}" using assms by (auto simp: b64code_def)
  then have "unat (b64chr n) \<notin> {45, 95, 46}" using assms by simp
  then have "b64chr n \<notin> {45, 95, 46}" by (auto simp del: unat_b64chr)
  then show "b64chr n \<noteq> 45" "b64chr n \<noteq> 95" "b64chr n \<noteq> 46" by auto
qed

text \<open>The text of base64url: the sextets in the alphabet with minus and underscore, unpadded.\<close>

definition urlText :: "byte list \<Rightarrow> jsstr" where
  "urlText bs = replaceUnit 47 95 (replaceUnit 43 45 (map b64chr (sextets (map unat bs))))"

lemma sextets_bytes: "\<forall>n \<in> set (sextets (map unat (bs :: byte list))). n < 64"
  by (rule sextets_less) (use unat_byte in auto)

lemma replaceUnit_append [simp]: "replaceUnit a b (s @ t) = replaceUnit a b s @ replaceUnit a b t"
  by (simp add: replaceUnit_def)

lemma replaceUnit_replicate [simp]: "c \<noteq> a \<Longrightarrow> replaceUnit a b (replicate p c) = replicate p c"
  by (simp add: replaceUnit_def)

lemma stripEq_append: "61 \<notin> set s \<Longrightarrow> stripEq (s @ replicate p 61) = s"
proof -
  assume s: "61 \<notin> set s"
  have "dropWhile (\<lambda>c. c = (61 :: jschar)) (replicate p 61 @ rev s) = rev s"
  proof (induction p)
    case 0
    show ?case using s by (cases "rev s") (auto simp: in_set_conv_decomp [of _ s] dest: arg_cong [of _ _ set])
  qed simp
  then show ?thesis by (simp add: stripEq_def)
qed

lemma urlText_units:
  assumes "c \<in> set (urlText bs)"
  shows "c \<noteq> 61" "c \<noteq> 46"
proof -
  obtain n where n: "n \<in> set (sextets (map unat bs))"
    and c: "c = (if b64chr n = 43 then 45 else if b64chr n = 47 then 95 else b64chr n)"
    using assms unfolding urlText_def replaceUnit_def by (auto split: if_splits)
  then have "n < 64" using sextets_bytes by blast
  then show "c \<noteq> 61" "c \<noteq> 46" using c b64chr_plain(1) b64chr_url(3) by (auto split: if_splits)
qed

lemma base64url_eq: "base64url bs = Inr (urlText bs)"
proof -
  have "61 \<notin> set (urlText bs)" using urlText_units(1) by blast
  note strip = stripEq_append [OF this]
  show ?thesis
    unfolding base64url_def Let_def btoa_bytes ebind_simps replaceUnit_append urlText_def [symmetric]
    using strip by simp
qed

lemma unBase64url_urlText: "unBase64url (urlText bs) = Some (fromBytes bs)"
proof -
  have "replaceUnit 95 47 (replaceUnit 45 43 (urlText bs)) = map b64chr (sextets (map unat bs))"
    unfolding urlText_def replaceUnit_def map_map o_def
    by (rule map_cong) (use sextets_bytes b64chr_url in auto)
  moreover have "\<forall>n \<in> set (map unat bs). n < 256" using unat_byte by auto
  ultimately show ?thesis
    unfolding unBase64url_def using atob_sextets [of "map unat bs" 0] by (simp add: fromBytes_def o_def)
qed

lemma splitDot_plain: "46 \<notin> set s \<Longrightarrow> splitDot s = [s]"
  by (induction s) auto

lemma splitDot_dot: "46 \<notin> set s \<Longrightarrow> splitDot (s @ 46 # t) = s # splitDot t"
  by (induction s) auto

lemma splitDot_join:
  "splitDot s = [a, b, c] \<Longrightarrow> s = a @ [46] @ b @ [46] @ c"
proof -
  have "concat (map (\<lambda>p. p @ [46]) (splitDot s)) = s @ [46]" for s
    by (induction s rule: splitDot.induct) (auto split: list.splits)
  from this [of s] show "splitDot s = [a, b, c] \<Longrightarrow> ?thesis" by simp
qed

text \<open>The three parts of a token the server issues.\<close>

definition jwtData :: "platform \<Rightarrow> int \<Rightarrow> (jsstr \<times> jsval) list \<Rightarrow> jsstr" where
  "jwtData P now payload =
     urlText (utf8 (jsonString P jwtHeader)) @ [46] @ urlText (utf8 (jsonString P (fullPayload payload now)))"

definition jwtText :: "platform \<Rightarrow> auth_config \<Rightarrow> int \<Rightarrow> (jsstr \<times> jsval) list \<Rightarrow> jsstr" where
  "jwtText P cfg now payload =
     jwtData P now payload @ [46] @ urlText (hmacSign P (utf8 (JWT_SECRET cfg)) (utf8 (jwtData P now payload)))"

lemma createJWT_eq:
  "createJWT P cfg now payload =
     (if JWT_SECRET cfg = [] then Inl DataError else Inr (jwtText P cfg now payload))"
  unfolding createJWT_def base64url_eq jwtText_def jwtData_def importHmacKey_def Let_def by simp

lemma splitDot_jwtText:
  "splitDot (jwtText P cfg now payload) =
     [urlText (utf8 (jsonString P jwtHeader)), urlText (utf8 (jsonString P (fullPayload payload now))),
      urlText (hmacSign P (utf8 (JWT_SECRET cfg)) (utf8 (jwtData P now payload)))]"
proof -
  have n: "46 \<notin> set (urlText bs)" for bs using urlText_units(2) by blast
  show ?thesis unfolding jwtText_def jwtData_def by (simp add: splitDot_dot n splitDot_plain)
qed

text \<open>The verification of an issued token, up to the parsing of the payload.\<close>

lemma verify_created:
  assumes "JWT_SECRET cfg \<noteq> []"
  shows "verifyJWT P cfg now' (jwtText P cfg now payload) =
     (case jsonParse P (fromBytes (utf8 (jsonString P (fullPayload payload now)))) of
        None \<Rightarrow> None
      | Some v \<Rightarrow>
          if nullish v then None
          else if truthy (getp v ''exp'') \<and> lessNumber P (getp v ''exp'') (real_of_int (now' div 1000)) then None
          else Some v)"
  unfolding verifyJWT_def splitDot_jwtText importHmacKey_def Let_def
  using assms by (simp add: unBase64url_urlText jwtData_def)

lemma getp_exp:
  "getp (fullPayload payload now) ''exp'' = JNum (JFin (real_of_int (now div 1000 + JWT_EXPIRE_HOURS * 3600)))"
  by (simp add: fullPayload_def Let_def)

section \<open>ASCII and the loss of everything else\<close>

definition ascii :: "jsstr \<Rightarrow> bool" where
  "ascii s \<longleftrightarrow> (\<forall>c \<in> set s. unat c < 128)"

lemma codePoints_ascii: "\<forall>n \<in> set ns. n < 128 \<Longrightarrow> codePoints ns = ns"
  by (induction ns rule: codePoints.induct) (auto simp: isHigh_def isLow_def)

lemma utf8_ascii: "ascii s \<Longrightarrow> fromBytes (utf8 s) = s"
proof -
  assume a: "ascii s"
  then have l: "\<forall>n \<in> set (map unat s). n < 128" by (simp add: ascii_def)
  then have "concat (map utf8cp (map unat s)) = map unat s"
    by (induction s) (auto simp: utf8cp_def)
  then have "utf8 s = map (\<lambda>c. word_of_nat (unat c)) s"
    unfolding utf8_def codePoints_ascii [OF l] by simp
  moreover have "word_of_nat (unat (word_of_nat (unat c) :: byte)) = c" if "c \<in> set s" for c :: jschar
  proof -
    have "unat c < 256" using a that by (auto simp: ascii_def)
    then have "unat (word_of_nat (unat c) :: byte) = unat c"
      by (simp only: unat_of_nat take_bit_eq_mod) simp
    then show ?thesis by simp
  qed
  ultimately show ?thesis unfolding fromBytes_def by (simp add: map_idI)
qed

lemma length_utf8cp: "0 < length (utf8cp n)" "128 \<le> n \<Longrightarrow> 1 < length (utf8cp n)"
  "length (utf8cp (0x10000 + n)) = 4"
  by (auto simp: utf8cp_def)

lemma length_utf8unit:
  "1 \<le> length (utf8cp (if isHigh c \<or> isLow c then 0xFFFD else c))"
  "128 \<le> c \<Longrightarrow> 1 < length (utf8cp (if isHigh c \<or> isLow c then 0xFFFD else c))"
  using length_utf8cp(1) [of "if isHigh c \<or> isLow c then 0xFFFD else c"]
  by (auto simp: Suc_le_eq intro!: length_utf8cp(2) [unfolded One_nat_def])

lemma utf8_length:
  "length ns + (if \<exists>n \<in> set ns. 128 \<le> n then 1 else 0) \<le> length (concat (map utf8cp (codePoints ns)))"
proof (induction ns rule: codePoints.induct)
  case (2 c)
  then show ?case using length_utf8unit [of c] by auto
next
  case (3 c d cs)
  show ?case
  proof (cases "isHigh c \<and> isLow d")
    case True
    have "length (utf8cp (0x10000 + ((c - 0xD800) * 1024 + (d - 0xDC00)))) = 4" by (rule length_utf8cp)
    then show ?thesis using 3(1) True by (auto split: if_splits simp: add.assoc)
  next
    case False
    then show ?thesis using 3(2) length_utf8unit [of c] by (auto split: if_splits)
  qed
qed simp

lemma utf8_lossy: "fromBytes (utf8 s) = s \<longleftrightarrow> ascii s"
proof
  assume "fromBytes (utf8 s) = s"
  then have "length (utf8 s) = length s" by (metis fromBytes_def length_map)
  then have "\<not> (\<exists>n \<in> set (map unat s). 128 \<le> n)"
    using utf8_length [of "map unat s"] by (auto simp: utf8_def split: if_splits)
  then show "ascii s" by (auto simp: ascii_def not_le)
qed (rule utf8_ascii)

section \<open>Properties of session tokens\<close>

text \<open>
  The life of a session token: with a secret set, the token issued at time \<open>now\<close> is
  accepted, with the payload it was issued for, up to 24 hours later (in whole seconds), and
  rejected from then on. The payload's JSON text is ASCII and parses back.
\<close>

lemma session_token_lifetime:
  assumes "JWT_SECRET cfg \<noteq> []" "0 \<le> now"
    and "ascii (jsonString P (fullPayload payload now))"
    and "jsonParse P (jsonString P (fullPayload payload now)) = Some (fullPayload payload now)"
  shows "\<exists>token. createJWT P cfg now payload = Inr token \<and>
    verifyJWT P cfg now' token =
      (if now' div 1000 \<le> now div 1000 + 24 * 3600 then Some (fullPayload payload now) else None)"
proof -
  have n: "\<not> nullish (fullPayload payload now)" by (simp add: fullPayload_def Let_def)
  have "0 \<le> now div 1000" using assms(2) by (simp add: pos_imp_zdiv_nonneg_iff)
  then have "truthy (getp (fullPayload payload now) ''exp'')"
    unfolding getp_exp JWT_EXPIRE_HOURS_def by simp
  moreover have "lessNumber P (getp (fullPayload payload now) ''exp'') (real_of_int (now' div 1000)) \<longleftrightarrow>
      \<not> now' div 1000 \<le> now div 1000 + 24 * 3600"
    unfolding getp_exp lessNumber_def JWT_EXPIRE_HOURS_def jsval.case numLess.simps of_int_less_iff not_le ..
  ultimately show ?thesis
    using assms n by (auto simp: createJWT_eq verify_created utf8_ascii)
qed

text \<open>A configuration and a platform for the witnesses.\<close>

definition ex_config :: auth_config where
  "ex_config = \<lparr>LINUXDO_CLIENT_ID = jslit ''id'', LINUXDO_CLIENT_SECRET = [],
     LINUXDO_REDIRECT_URI = jslit ''http://localhost:8000/auth/callback'', JWT_SECRET = jslit ''key'',
     USE_CN_ENDPOINT = True\<rparr>"

definition ex_provider :: "jsval \<Rightarrow> provider" where
  "ex_provider user = \<lparr>pv_token = (\<lambda>_ _. FBody (Some (JObj []))), pv_user = (\<lambda>_ _. FBody (Some user))\<rparr>"

text \<open>
  Claim C17. No token is accepted without its signature: an accepted token has three parts, the
  third decodes to the keyed hash, under the configured secret, of the first two, the secret is
  not empty, and the payload is what the second part decodes to and has not expired.
\<close>

theorem accepted_token_is_signed:
  assumes "verifyJWT P cfg now token = Some payload"
  shows "\<exists>h b s sig t. token = h @ [46] @ b @ [46] @ s \<and> JWT_SECRET cfg \<noteq> [] \<and>
    unBase64url s = Some sig \<and> toBytes sig = hmacSign P (utf8 (JWT_SECRET cfg)) (utf8 (h @ [46] @ b)) \<and>
    unBase64url b = Some t \<and> jsonParse P t = Some payload \<and>
    (\<forall>e. getp payload ''exp'' = JNum (JFin e) \<and> e \<noteq> 0 \<longrightarrow> real_of_int (now div 1000) \<le> e)"
proof -
  obtain h b s where parts: "splitDot token = [h, b, s]"
    using assms by (auto simp: verifyJWT_def split: list.splits)
  have "JWT_SECRET cfg \<noteq> []"
    using assms by (auto simp: verifyJWT_def parts importHmacKey_def)
  moreover from this obtain sig t where "unBase64url s = Some sig"
      "toBytes sig = hmacSign P (utf8 (JWT_SECRET cfg)) (utf8 (h @ [46] @ b))"
      "unBase64url b = Some t" "jsonParse P t = Some payload"
      and e: "\<not> (truthy (getp payload ''exp'') \<and> lessNumber P (getp payload ''exp'') (real_of_int (now div 1000)))"
    using assms
    by (auto simp: verifyJWT_def parts importHmacKey_def Let_def bind_eq_Some_conv split: option.splits if_splits)
  moreover have "real_of_int (now div 1000) \<le> x" if "getp payload ''exp'' = JNum (JFin x)" "x \<noteq> 0" for x
    using e that by (simp add: lessNumber_def)
  ultimately show ?thesis using splitDot_join [OF parts] by blast
qed

text \<open>
  What verification makes of the text it is given: the payload text that a token was
  issued with is read back unchanged exactly when it is ASCII. The encoder writes UTF-8, the
  verifier reads Latin-1, so a name with any other letter comes back changed.
\<close>

lemma payload_text_reread_iff_ascii:
  assumes "createJWT P cfg now payload = Inr token"
  shows "\<exists>t. unBase64url (splitDot token ! 1) = Some t \<and>
    (t = jsonString P (fullPayload payload now) \<longleftrightarrow>
     list_all (\<lambda>c. unat c < 128) (jsonString P (fullPayload payload now)))"
proof -
  have "token = jwtText P cfg now payload" using assms by (auto simp: createJWT_eq split: if_splits)
  then show ?thesis
    by (simp add: splitDot_jwtText unBase64url_urlText utf8_lossy ascii_def list_all_iff)
qed

theorem accepted_token_is_signed_witness:
  "\<exists>h b s sig t. jwtText (ex_platform (JBool True)) ex_config 0 [] = h @ [46] @ b @ [46] @ s \<and>
    JWT_SECRET ex_config \<noteq> [] \<and> unBase64url s = Some sig \<and>
    toBytes sig = utf8 (JWT_SECRET ex_config) @ utf8 (h @ [46] @ b) \<and>
    unBase64url b = Some t"
proof -
  have "verifyJWT (ex_platform (JBool True)) ex_config 0 (jwtText (ex_platform (JBool True)) ex_config 0 []) =
      Some (JBool True)"
    by (subst verify_created) (simp_all add: ex_config_def ex_platform_def)
  from accepted_token_is_signed [OF this] have
    "\<exists>h b s sig t. jwtText (ex_platform (JBool True)) ex_config 0 [] = h @ [46] @ b @ [46] @ s \<and>
      JWT_SECRET ex_config \<noteq> [] \<and> unBase64url s = Some sig \<and>
      toBytes sig = hmacSign (ex_platform (JBool True)) (utf8 (JWT_SECRET ex_config)) (utf8 (h @ [46] @ b)) \<and>
      unBase64url b = Some t" by blast
  moreover have "hmacSign (ex_platform (JBool True)) = (@)" by (simp add: ex_platform_def)
  ultimately show ?thesis by simp
qed

section \<open>Login states\<close>

text \<open>
  The operations on the table of pending states, in any order: a login that draws a state, a
  callback of a browser, a run of the cleaning timer.
\<close>

datatype auth_op =
    OLogin int jsstr
  | OCallback provider jsstr int "jsstr option" "jsstr option"
  | OCleanup int

text \<open>The table after an operation, and the state that a callback got accepted.\<close>

fun authStep :: "platform \<Rightarrow> auth_config \<Rightarrow> login_states \<Rightarrow> auth_op \<Rightarrow> login_states \<times> jsstr list" where
  "authStep P cfg st (OLogin now uuid) = (snd (handleLogin cfg now uuid st), [])"
| "authStep P cfg st (OCallback V baseUrl now code state) =
     (let (r, st') = handleCallback P cfg V baseUrl now code state st
      in (st', if r = errorRedirect baseUrl ''invalid_state'' then [] else [the state]))"
| "authStep P cfg st (OCleanup now) = (cleanupStates now st, [])"

fun authRun :: "platform \<Rightarrow> auth_config \<Rightarrow> login_states \<Rightarrow> auth_op list \<Rightarrow> jsstr list" where
  "authRun P cfg st [] = []"
| "authRun P cfg st (op # ops) =
     (let (st', acc) = authStep P cfg st op in acc @ authRun P cfg st' ops)"

fun issued :: "auth_op list \<Rightarrow> jsstr list" where
  "issued [] = []"
| "issued (OLogin now uuid # ops) = uuid # issued ops"
| "issued (_ # ops) = issued ops"

lemma errorRedirect_other: "length e \<noteq> length e' \<Longrightarrow> errorRedirect b e \<noteq> errorRedirect b e'"
  by (auto simp: errorRedirect_def redirect_def jslit_def dest!: map_eq_imp_length_eq)

lemma exchangeCode_valid: "exchangeCode P cfg V b now c \<noteq> errorRedirect b ''invalid_state''"
proof -
  have "cookieRedirect b t \<noteq> errorRedirect b ''invalid_state''" for t
    by (simp add: cookieRedirect_def errorRedirect_def redirect_def)
  moreover have "errorRedirect b ''callback_failed'' \<noteq> errorRedirect b ''invalid_state''"
    "errorRedirect b ''token_failed'' \<noteq> errorRedirect b ''invalid_state''"
    "errorRedirect b ''userinfo_failed'' \<noteq> errorRedirect b ''invalid_state''"
    by (rule errorRedirect_other; simp)+
  ultimately show ?thesis
    unfolding exchangeCode_def Let_def by (auto split: fetched.split option.split sum.split)
qed

lemma cleanup_keys: "set (map_keys (cleanupStates now st)) \<subseteq> set (map_keys st)"
  by (auto simp: cleanupStates_def map_keys_def)

lemma login_keys: "set (map_keys (snd (handleLogin cfg now uuid st))) \<subseteq> insert uuid (set (map_keys st))"
  by (auto simp: handleLogin_def map_keys_set)

text \<open>A callback either leaves the table alone and is refused, or takes its state out.\<close>

lemma callback_cases:
  obtains "handleCallback P cfg V b now code state st = (errorRedirect b ''invalid_state'', st)"
  | c s where "code = Some c" "state = Some s" "s \<in> set (map_keys st)"
      "handleCallback P cfg V b now code state st = (exchangeCode P cfg V b now c, map_delete s st)"
proof (cases "\<exists>c s. code = Some c \<and> state = Some s \<and> c \<noteq> [] \<and> s \<noteq> [] \<and> map_has st s")
  case True
  then show thesis using that(2) by (force simp: handleCallback_def map_has_def map_keys_def)
next
  case False
  then show thesis using that(1) by (auto simp: handleCallback_def split: option.splits)
qed

lemma accepted_states:
  assumes "distinct (issued ops)" "set (map_keys st) \<inter> set (issued ops) = {}"
  shows "distinct (authRun P cfg st ops) \<and>
    set (authRun P cfg st ops) \<subseteq> set (map_keys st) \<union> set (issued ops)"
  using assms
proof (induction ops arbitrary: st)
  case (Cons op ops)
  show ?case
  proof (cases op)
    case (OLogin now uuid)
    have "set (map_keys (snd (handleLogin cfg now uuid st))) \<inter> set (issued ops) = {}"
      using Cons.prems OLogin login_keys [of cfg now uuid st] by auto
    then show ?thesis using Cons OLogin login_keys [of cfg now uuid st] by fastforce
  next
    case (OCallback V b now code state)
    show ?thesis
    proof (cases rule: callback_cases [of P cfg V b now code state st])
      case 1
      then show ?thesis using Cons OCallback by simp
    next
      case (2 c s)
      let ?st = "map_delete s st"
      have k: "set (map_keys ?st) = set (map_keys st) - {s}" by (auto simp: map_keys_delete)
      have "distinct (authRun P cfg ?st ops) \<and>
          set (authRun P cfg ?st ops) \<subseteq> set (map_keys ?st) \<union> set (issued ops)"
        using Cons.prems OCallback k by (intro Cons.IH) auto
      moreover have "s \<notin> set (issued ops)" using Cons.prems 2 OCallback by auto
      ultimately show ?thesis using OCallback 2 k by (auto simp: exchangeCode_valid)
    qed
  next
    case (OCleanup now)
    have "set (map_keys (cleanupStates now st)) \<inter> set (issued ops) = {}"
      using Cons.prems OCleanup cleanup_keys [of now st] by auto
    then show ?thesis using Cons OCleanup cleanup_keys [of now st] by fastforce
  qed
qed simp



text \<open>
  Who gets a development session: a request whose parameter equals the configured
  client secret, and nobody else; if that secret is left unset, the empty parameter is enough.
\<close>

lemma dev_login_needs_client_secret:
  "((\<exists>jwt. handleDevLogin P cfg b now r uuid secret = Inr (cookieRedirect b (sessionCookie jwt))) \<longleftrightarrow>
      secret = Some (LINUXDO_CLIENT_SECRET cfg) \<and> JWT_SECRET cfg \<noteq> []) \<and>
   (LINUXDO_CLIENT_SECRET cfg = [] \<and> JWT_SECRET cfg \<noteq> [] \<longrightarrow>
     (\<exists>jwt. handleDevLogin P cfg b now r uuid (Some []) = Inr (cookieRedirect b (sessionCookie jwt))))"
  by (auto simp: handleDevLogin_def createJWT_eq Let_def plainResponse_def cookieRedirect_def)

section \<open>The session cookie\<close>

text \<open>What a browser keeps of a cookie and sends back: the pair before the first semicolon.\<close>

definition cookiePair :: "jsstr \<Rightarrow> jsstr" where
  "cookiePair c = takeWhile (\<lambda>u. u \<noteq> 59) c"

lemma b64chr_semicolon: "n < 64 \<Longrightarrow> b64chr n \<noteq> 59"
proof -
  assume "n < 64"
  moreover from this have "b64code n \<noteq> 59" by (auto simp: b64code_def)
  ultimately have "unat (b64chr n) \<noteq> unat (59 :: jschar)" by simp
  then show ?thesis by metis
qed

lemma urlText_semicolon: "59 \<notin> set (urlText bs)"
proof
  assume "59 \<in> set (urlText bs)"
  then obtain n where "n \<in> set (sextets (map unat bs))" "b64chr n = 59"
    unfolding urlText_def replaceUnit_def by (auto split: if_splits)
  then show False using sextets_bytes [of bs] b64chr_semicolon by blast
qed

lemma jwtText_cookie: "59 \<notin> set (jwtText P cfg now payload)" "jwtText P cfg now payload \<noteq> []"
  using urlText_semicolon by (auto simp: jwtText_def jwtData_def)

lemma cookiePair_session: "59 \<notin> set jwt \<Longrightarrow> cookiePair (sessionCookie jwt) = tokenKey @ jwt"
proof -
  assume "59 \<notin> set jwt"
  then have "\<forall>u \<in> set (tokenKey @ jwt). u \<noteq> 59" by (auto simp: tokenKey_def jslit_def)
  then have "takeWhile (\<lambda>u. u \<noteq> 59) ((tokenKey @ jwt) @ 59 # r) = tokenKey @ jwt" for r
    by (subst takeWhile_append2) auto
  moreover have "\<exists>r. sessionCookie jwt = (tokenKey @ jwt) @ 59 # r"
    by (auto simp: sessionCookie_def tokenKey_def jslit_def)
  ultimately show ?thesis unfolding cookiePair_def by metis
qed

lemma matchToken_unfold:
  "s \<noteq> [] \<Longrightarrow> matchToken s =
     (let v = takeWhile (\<lambda>u. u \<noteq> 59) (drop (length tokenKey) s)
      in if startsWith s tokenKey \<and> v \<noteq> [] then Some v else matchToken (tl s))"
  by (cases s) (simp_all only: matchToken.simps Let_def list.sel simp_thms)

lemma matchToken_session: "59 \<notin> set jwt \<Longrightarrow> jwt \<noteq> [] \<Longrightarrow> matchToken (tokenKey @ jwt) = Some jwt"
proof -
  assume "59 \<notin> set jwt" and n: "jwt \<noteq> []"
  then have tw: "takeWhile (\<lambda>u. u \<noteq> 59) jwt = jwt" by (auto simp: takeWhile_eq_all_conv)
  show ?thesis using n by (subst matchToken_unfold) (simp_all add: tw del: matchToken.simps)
qed

lemma logout_cookie_ends_session:
  "matchToken (cookiePair (jslit ''auth_token=; Path=/; HttpOnly; Max-Age=0'')) = None"
  by code_simp

text \<open>A browser that sends the session cookie back.\<close>

lemma handleMe_session:
  assumes "JWT_SECRET cfg \<noteq> []" "0 \<le> now"
    and "ascii (jsonString P (fullPayload payload now))"
    and "jsonParse P (jsonString P (fullPayload payload now)) = Some (fullPayload payload now)"
  shows "handleMe P cfg now' (Some (cookiePair (sessionCookie (jwtText P cfg now payload)))) =
    authJson P (if now' div 1000 \<le> now div 1000 + 24 * 3600
      then authenticatedAs (fullPayload payload now) else notAuthenticated)"
proof -
  have "truthy (fullPayload payload now)" by (simp add: fullPayload_def Let_def)
  moreover have "verifyJWT P cfg now' (jwtText P cfg now payload) =
      (if now' div 1000 \<le> now div 1000 + 24 * 3600 then Some (fullPayload payload now) else None)"
    using session_token_lifetime [OF assms, of now'] assms(1) by (auto simp: createJWT_eq)
  ultimately show ?thesis
    by (simp add: handleMe_def getUserFromCookie_def cookiePair_session matchToken_session jwtText_cookie)
qed

text \<open>
  Claim C19. A login from end to end: a callback with a pending state, for which the provider answers
  both requests, redirects to the start page with a cookie; a browser that sends the cookie back is
  authenticated as the user of the provider for 24 hours and not afterwards; and the cookie that a
  logout sets authenticates nobody. The JSON text of the payload is ASCII and parses back.
\<close>

theorem login_session:
  assumes "JWT_SECRET cfg \<noteq> []" "0 \<le> now" "code \<noteq> []" "s \<noteq> []" "map_has st s"
    and "pv_token V (TOKEN_URL cfg) (formEncode (tokenParams cfg code)) = FBody (Some tokenData)" "\<not> nullish tokenData"
    and "pv_user V (USERINFO_URL cfg) (getp tokenData ''access_token'') = FBody (Some user)" "\<not> nullish user"
    and "ascii (jsonString P (fullPayload (userPayload user) now))"
    and "jsonParse P (jsonString P (fullPayload (userPayload user) now)) = Some (fullPayload (userPayload user) now)"
  shows "\<exists>cookie. handleCallback P cfg V base now (Some code) (Some s) st = (cookieRedirect base cookie, map_delete s st) \<and>
    handleMe P cfg now' (Some (cookiePair cookie)) =
      authJson P (if now' div 1000 \<le> now div 1000 + 24 * 3600
        then authenticatedAs (fullPayload (userPayload user) now) else notAuthenticated) \<and>
    handleMe P cfg now' (map_option cookiePair (map_of (hr_headers (handleLogout base)) ''set-cookie'')) =
      authJson P notAuthenticated"
proof -
  let ?jwt = "jwtText P cfg now (userPayload user)"
  have "createJWT P cfg now (userPayload user) = Inr ?jwt" using assms(1) by (simp add: createJWT_eq)
  then have "handleCallback P cfg V base now (Some code) (Some s) st =
      (cookieRedirect base (sessionCookie ?jwt), map_delete s st)"
    using assms(3-9) by (simp add: handleCallback_def exchangeCode_def)
  moreover note handleMe_session [OF assms(1,2,10,11), of now']
  moreover have "handleMe P cfg now' (map_option cookiePair (map_of (hr_headers (handleLogout base)) ''set-cookie'')) =
      authJson P notAuthenticated"
    by (simp add: handleMe_def getUserFromCookie_def handleLogout_def cookieRedirect_def logout_cookie_ends_session)
  ultimately show ?thesis by blast
qed

theorem login_session_witness:
  "\<exists>cookie. handleCallback (ex_platform (fullPayload (userPayload (JObj [])) 0)) ex_config (ex_provider (JObj [])) [] 0
      (Some [7]) (Some [1]) [([1], 0)] = (cookieRedirect [] cookie, []) \<and>
    handleMe (ex_platform (fullPayload (userPayload (JObj [])) 0)) ex_config 86400999 (Some (cookiePair cookie)) =
      authJson (ex_platform (fullPayload (userPayload (JObj [])) 0)) (authenticatedAs (fullPayload (userPayload (JObj [])) 0))"
proof -
  let ?P = "ex_platform (fullPayload (userPayload (JObj [])) 0)"
  have "JWT_SECRET ex_config \<noteq> []" "ascii (jsonString ?P (fullPayload (userPayload (JObj [])) 0))"
    "jsonParse ?P (jsonString ?P (fullPayload (userPayload (JObj [])) 0)) = Some (fullPayload (userPayload (JObj [])) 0)"
    by (simp_all add: ex_config_def ex_platform_def ascii_def jslit_def)
  from login_session [OF this(1) _ _ _ _ _ _ _ _ this(2,3), of "[7]" "[1]" "[([1], 0)]" "ex_provider (JObj [])" "JObj []" "[]" 86400999]
  show ?thesis by (auto simp: ex_provider_def map_has_def map_delete_def)
qed

end
