(* ===== verification/Routes.thy ===== *)
theory Routes
  imports Auth Gateway
begin

text \<open>
  \<open>main.ts\<close>: the table of HTTP routes, with the static files under \<open>/assets\<close>, the statistics
  endpoints and the hand-over to the handlers of the WebSocket and of the login. \<open>decodeURI\<close> and
  \<open>decodeURIComponent\<close> follow the algorithm of the language. A request is reduced to the base of its
  URL, its path, its query and the two headers that are read; the URL parser and the file system are
  the platform's.
\<close>

section \<open>Decoding of URIs\<close>

definition hexUnit :: "jschar \<Rightarrow> nat option" where
  "hexUnit u =
     (let c = unat u
      in if 48 \<le> c \<and> c \<le> 57 then Some (c - 48) else if 97 \<le> c \<and> c \<le> 102 then Some (c - 87)
         else if 65 \<le> c \<and> c \<le> 70 then Some (c - 55) else None)"

definition escByte :: "jschar \<Rightarrow> jschar \<Rightarrow> nat option" where
  "escByte a b =
     (case (hexUnit a, hexUnit b) of (Some x, Some y) \<Rightarrow> Some (16 * x + y) | _ \<Rightarrow> None)"

text \<open>The number of continuation bytes that a leading byte announces.\<close>

definition contCount :: "nat \<Rightarrow> nat option" where
  "contCount b = (if b < 0xC0 then None else if b < 0xE0 then Some 1 else if b < 0xF0 then Some 2
     else if b < 0xF8 then Some 3 else None)"

fun contBytes :: "nat \<Rightarrow> jsstr \<Rightarrow> (nat list \<times> jsstr) option" where
  "contBytes 0 s = Some ([], s)"
| "contBytes (Suc n) (p # a # b # s) =
     (if p \<noteq> 37 then None
      else case escByte a b of
        None \<Rightarrow> None
      | Some x \<Rightarrow> map_option (\<lambda>(bs, r). (x # bs, r)) (contBytes n s))"
| "contBytes (Suc n) _ = None"

definition isCont :: "nat \<Rightarrow> bool" where
  "isCont b \<longleftrightarrow> 0x80 \<le> b \<and> b < 0xC0"

text \<open>The code point of a valid sequence of more than one byte.\<close>

fun codePointOf :: "nat list \<Rightarrow> nat option" where
  "codePointOf [a, b] =
     (let v = (a - 0xC0) * 64 + (b - 0x80)
      in if isCont b \<and> 0x80 \<le> v then Some v else None)"
| "codePointOf [a, b, c] =
     (let v = (a - 0xE0) * 4096 + (b - 0x80) * 64 + (c - 0x80)
      in if isCont b \<and> isCont c \<and> 0x800 \<le> v \<and> \<not> isHigh v \<and> \<not> isLow v then Some v else None)"
| "codePointOf [a, b, c, d] =
     (let v = (a - 0xF0) * 262144 + (b - 0x80) * 4096 + (c - 0x80) * 64 + (d - 0x80)
      in if isCont b \<and> isCont c \<and> isCont d \<and> 0x10000 \<le> v \<and> v \<le> 0x10FFFF then Some v else None)"
| "codePointOf _ = None"

lemma contBytes_length: "contBytes n s = Some (bs, r) \<Longrightarrow> length r \<le> length s"
  by (induction n s arbitrary: bs r rule: contBytes.induct)
    (fastforce split: if_splits option.splits)+

text \<open>\<open>Decode(string, preserveEscapeSet)\<close> of the language; \<open>None\<close> is the URIError.\<close>

function decodeEsc :: "(nat \<Rightarrow> bool) \<Rightarrow> jsstr \<Rightarrow> jsstr option" where
  "decodeEsc keep [] = Some []"
| "decodeEsc keep (u # s) =
     (if u \<noteq> 37 then map_option (\<lambda>r. u # r) (decodeEsc keep s)
      else case s of
        a # b # s' \<Rightarrow>
          (case escByte a b of
             None \<Rightarrow> None
           | Some x \<Rightarrow>
               if x < 0x80 then
                 map_option (\<lambda>r. (if keep x then [u, a, b] else [word_of_nat x]) @ r) (decodeEsc keep s')
               else (case contCount x of
                       None \<Rightarrow> None
                     | Some n \<Rightarrow>
                         (case contBytes n s' of
                            None \<Rightarrow> None
                          | Some (bs, s'') \<Rightarrow>
                              (case codePointOf (x # bs) of
                                 None \<Rightarrow> None
                               | Some v \<Rightarrow>
                                   map_option (\<lambda>r. map word_of_nat (unitsOf v) @ r) (decodeEsc keep s'')))))
      | _ \<Rightarrow> None)"
  by pat_completeness auto
termination
  by (relation "measure (\<lambda>(k, s). length s)") (auto dest: contBytes_length)

text \<open>\<open>; / ? : @ & = + $ , #\<close> stay escaped in \<open>decodeURI\<close>.\<close>

definition uriReserved :: "nat \<Rightarrow> bool" where
  "uriReserved n \<longleftrightarrow> n \<in> {0x3B, 0x2F, 0x3F, 0x3A, 0x40, 0x26, 0x3D, 0x2B, 0x24, 0x2C, 0x23}"

definition decodeURI :: "jsstr \<Rightarrow> jsstr option" where
  "decodeURI s = decodeEsc uriReserved s"

definition decodeURIComponent :: "jsstr \<Rightarrow> jsstr option" where
  "decodeURIComponent s = decodeEsc (\<lambda>_. False) s"

section \<open>main.ts: content types\<close>

text \<open>
  Only the ASCII letters are lowered: no other letter's lower case form is a suffix of the table,
  except the Kelvin sign, which no suffix contains.
\<close>

definition lowerUnit :: "jschar \<Rightarrow> jschar" where
  "lowerUnit u = (if 65 \<le> u \<and> u \<le> 90 then u + 32 else u)"

definition endsWith :: "jsstr \<Rightarrow> string \<Rightarrow> bool" where
  "endsWith s p \<longleftrightarrow> length p \<le> length s \<and> drop (length s - length p) s = jslit p"

definition guessContentType :: "jsstr \<Rightarrow> string" where
  "guessContentType path =
     (let lower = map lowerUnit path
      in if endsWith lower ''.png'' then ''image/png''
         else if endsWith lower ''.jpg'' \<or> endsWith lower ''.jpeg'' then ''image/jpeg''
         else if endsWith lower ''.gif'' then ''image/gif''
         else if endsWith lower ''.webp'' then ''image/webp''
         else if endsWith lower ''.svg'' then ''image/svg+xml''
         else if endsWith lower ''.json'' then ''application/json; charset=utf-8''
         else if endsWith lower ''.html'' \<or> endsWith lower ''.htm'' then ''text/html; charset=utf-8''
         else if endsWith lower ''.js'' then ''text/javascript; charset=utf-8''
         else if endsWith lower ''.txt'' then ''text/plain; charset=utf-8''
         else ''application/octet-stream'')"

section \<open>main.ts: the routes\<close>

record http_request =
  rq_protocol :: jsstr
  rq_host :: jsstr
  rq_path :: jsstr
  rq_query :: "(jsstr \<times> jsstr) list"
  rq_upgrade :: "jsstr option"
  rq_cookie :: "jsstr option"
  rq_sock :: nat

text \<open>
  What a request meets outside the program: the clock, the identifier and the random number it
  draws, the identity provider, the files that can be opened, and the order in which the database
  returns the rows that its queries leave unordered; and the page, with its origin, that
  \<open>client_html.ts\<close> has loaded.
\<close>

record site_env =
  v_platform :: platform
  v_config :: auth_config
  v_now :: int
  v_uuid :: jsstr
  v_rand :: real
  v_provider :: provider
  v_opens :: "jsstr \<Rightarrow> bool"
  v_ordStats :: "player_stats list \<Rightarrow> player_stats list"
  v_ordKills :: "kill_record list \<Rightarrow> kill_record list"
  v_ordCounts :: "(jsstr \<times> nat) list \<Rightarrow> (jsstr \<times> nat) list"
  v_clientHtml :: jsstr
  v_clientHtmlSource :: string

text \<open>Numbers and rows as JSON values.\<close>

definition jint :: "int \<Rightarrow> jsval" where
  "jint n = JNum (JFin (real_of_int n))"

definition statsJson :: "player_stats \<Rightarrow> jsval" where
  "statsJson r = JObj [(jslit ''playerName'', JStr (st_playerName r)), (jslit ''kills'', jint (st_kills r)),
     (jslit ''deaths'', jint (st_deaths r)), (jslit ''lastSeen'', jint (st_lastSeen r)),
     (jslit ''lastPlayerId'', JStr (st_lastPlayerId r))]"

definition killJson :: "kill_record \<Rightarrow> jsval" where
  "killJson r = JObj [(jslit ''id'', JStr (kr_id r)), (jslit ''attackerId'', JStr (kr_attackerId r)),
     (jslit ''attackerName'', JStr (kr_attackerName r)), (jslit ''victimId'', JStr (kr_victimId r)),
     (jslit ''victimName'', JStr (kr_victimName r)), (jslit ''shotId'', JStr (kr_shotId r)),
     (jslit ''timestamp'', jint (kr_timestamp r))]"

definition countJson :: "jsstr \<times> nat \<Rightarrow> jsval" where
  "countJson r = JObj [(jslit ''playerName'', JStr (fst r)), (jslit ''kills'', jint (int (snd r)))]"

text \<open>\<open>Response.redirect(new URL("/", req.url), 302)\<close>.\<close>

definition homeRedirect :: "http_request \<Rightarrow> http_response" where
  "homeRedirect q = redirect (getBaseUrl (rq_protocol q) (rq_host q) @ jslit ''/'')"

definition fileResponse :: "jsstr \<Rightarrow> http_response" where
  "fileResponse filePath =
     \<lparr>hr_status = 200,
      hr_headers = [(''content-type'', jslit (guessContentType filePath)),
        (''access-control-allow-origin'', jslit (CORS CONFIG)),
        (''cache-control'', jslit ''public, max-age=31536000, immutable'')],
      hr_body = FileBody filePath\<rparr>"

definition clientHtmlResponse :: "site_env \<Rightarrow> http_response" where
  "clientHtmlResponse V =
     \<lparr>hr_status = 200,
      hr_headers = [(''content-type'', jslit ''text/html; charset=utf-8''),
        (''access-control-allow-origin'', jslit (CORS CONFIG))],
      hr_body = TextBody (v_clientHtml V)\<rparr>"

text \<open>The answer of the platform to a handshake.\<close>

definition upgradeResponse :: http_response where
  "upgradeResponse = \<lparr>hr_status = 101, hr_headers = [], hr_body = NoBody\<rparr>"

text \<open>\<open>Number(url.searchParams.get(k)) || d\<close>.\<close>

definition queryGet :: "http_request \<Rightarrow> string \<Rightarrow> jsstr option" where
  "queryGet q k = map_of (rq_query q) (jslit k)"

definition numberOrDefault :: "platform \<Rightarrow> jsstr option \<Rightarrow> int \<Rightarrow> jsnum" where
  "numberOrDefault P p d =
     (case p of
        None \<Rightarrow> JFin (real_of_int d)
      | Some s \<Rightarrow>
          (let n = coerceNumber P (JStr s)
           in if truthy (JNum n) then n else JFin (real_of_int d)))"

text \<open>
  A number bound to \<open>LIMIT\<close>: the statement fails on anything that is not a 64-bit integer.
\<close>

definition limitArg :: "jsnum \<Rightarrow> int option" where
  "limitArg n =
     (case n of
        JFin r \<Rightarrow> if r = real_of_int \<lfloor>r\<rfloor> \<and> - (2 ^ 63) \<le> r \<and> r < 2 ^ 63 then Some \<lfloor>r\<rfloor> else None
      | _ \<Rightarrow> None)"

text \<open>
  \<open>getLeaderboardByTime(Number(hours), limit)\<close>. The bound on the time is \<open>NaN\<close>, stored as NULL,
  for \<open>NaN\<close>, and infinite for an infinite argument.
\<close>

definition leaderboardByTime :: "site_env \<Rightarrow> jsnum \<Rightarrow> int \<Rightarrow> database \<Rightarrow> (jsstr \<times> nat) list" where
  "leaderboardByTime V hours limit d =
     (case hours of
        JFin h \<Rightarrow> getLeaderboardByTime (v_ordCounts V) (v_now V) h limit d
      | JPosInf \<Rightarrow> sqlLimit limit (v_ordCounts V (groupKills (kills d)))
      | _ \<Rightarrow> sqlLimit limit (v_ordCounts V []))"

definition statsRoute :: "site_env \<Rightarrow> http_request \<Rightarrow> database \<Rightarrow> js_err + http_response" where
  "statsRoute V q d =
     (let P = v_platform V
      in if rq_path q = jslit ''/api/leaderboard'' then
           (let limit = numberOrDefault P (queryGet q ''limit'') 20
            in case limitArg limit of
                 None \<Rightarrow> Inl TypeError
               | Some n \<Rightarrow>
                   (case queryGet q ''hours'' of
                      Some (u # us) \<Rightarrow>
                        Inr (json P (JArr (map countJson (leaderboardByTime V (coerceNumber P (JStr (u # us))) n d))) 200)
                    | _ \<Rightarrow> Inr (json P (JArr (map statsJson (getLeaderboard (v_ordStats V) n d))) 200)))
         else if rq_path q = jslit ''/api/kills'' then
           (let limit = numberOrDefault P (queryGet q ''limit'') 50
            in case limitArg limit of
                 None \<Rightarrow> Inl TypeError
               | Some n \<Rightarrow> Inr (json P (JArr (map killJson (getRecentKills (v_ordKills V) n d))) 200))
         else if startsWith (rq_path q) (jslit ''/api/player/'') then
           (case decodeURIComponent (drop (length ''/api/player/'') (rq_path q)) of
              None \<Rightarrow> Inl URIError
            | Some playerName \<Rightarrow>
                (case getPlayerStats playerName d of
                   None \<Rightarrow> Inr (json P (JObj [(jslit ''error'', JStr (jslit ''Player not found''))]) 404)
                 | Some stats \<Rightarrow> Inr (json P (statsJson stats) 200)))
         else if rq_path q = jslit ''/'' then Inr (clientHtmlResponse V)
         else Inr (homeRedirect q))"

text \<open>\<open>s.includes("..")\<close>.\<close>

fun includesDotDot :: "jsstr \<Rightarrow> bool" where
  "includesDotDot (a # b # s) \<longleftrightarrow> (a = 46 \<and> b = 46) \<or> includesDotDot (b # s)"
| "includesDotDot _ \<longleftrightarrow> False"

definition assetRoute :: "site_env \<Rightarrow> jsstr \<Rightarrow> js_err + http_response" where
  "assetRoute V encodedPath =
     (if includesDotDot encodedPath then Inr (text_response ''Invalid path'' 400)
      else case decodeURI encodedPath of
        None \<Rightarrow> Inl URIError
      | Some decodedPath \<Rightarrow>
          let filePath = jslit ''.'' @ decodedPath
          in if v_opens V filePath then Inr (fileResponse filePath)
             else Inr (text_response ''Not Found'' 404))"

definition healthOf :: "string \<Rightarrow> world \<Rightarrow> jsval" where
  "healthOf source w = JObj [(jslit ''ok'', JBool True), (jslit ''world'', JStr (jslit (WORLD CONFIG))),
     (jslit ''clientHtmlSource'', JStr (jslit source)),
     (jslit ''connectionsOnThisIsolate'', jint (int (length (clients w)))),
     (jslit ''latestSeq'', jint (int (lastSeenSeq w))),
     (jslit ''playersCachedOnThisIsolate'', jint (int (length (playersCache w)))),
     (jslit ''eventsInMemory'', jint (int (length (events w))))]"

definition wsUpgrade :: "http_request \<Rightarrow> bool" where
  "wsUpgrade q =
     (case rq_upgrade q of None \<Rightarrow> False | Some u \<Rightarrow> map lowerUnit u = jslit ''websocket'')"

definition serve ::
  "site_env \<Rightarrow> http_request \<Rightarrow> login_states \<Rightarrow> world \<Rightarrow> (js_err + http_response) \<times> login_states \<times> world" where
  "serve V q st w =
     (let P = v_platform V; cfg = v_config V; path = rq_path q; baseUrl = getBaseUrl (rq_protocol q) (rq_host q)
      in if path = jslit ''/health'' then (Inr (json P (healthOf (v_clientHtmlSource V) w) 200), st, w)
         else if path = jslit ''/ws'' then
           (if \<not> wsUpgrade q then (Inr (homeRedirect q), st, w)
            else (Inr upgradeResponse, st, handleWs (rq_sock q) w))
         else if startsWith path (jslit ''/assets/'') then (assetRoute V path, st, w)
         else if path = jslit ''/auth/login'' then
           (let (r, st) = handleLogin cfg (v_now V) (v_uuid V) st in (Inr r, st, w))
         else if path = jslit ''/auth/callback'' then
           (let (r, st) = handleCallback P cfg (v_provider V) baseUrl (v_now V) (queryGet q ''code'') (queryGet q ''state'') st
            in (Inr r, st, w))
         else if path = jslit ''/auth/logout'' then (Inr (handleLogout baseUrl), st, w)
         else if path = jslit ''/auth/me'' then (Inr (handleMe P cfg (v_now V) (rq_cookie q)), st, w)
         else if path = jslit ''/auth/config'' then
           (Inr (json P (JObj [(jslit ''oauth_enabled'', JBool (isOAuthConfigured cfg))]) 200), st, w)
         else if path = jslit ''/auth/dev-login'' then
           (handleDevLogin P cfg baseUrl (v_now V) (v_rand V) (v_uuid V) (queryGet q ''secret''), st, w)
         else (statsRoute V q (db w), st, w))"

section \<open>Lemmas: decoding and segments\<close>

fun splitSlash :: "jsstr \<Rightarrow> jsstr list" where
  "splitSlash [] = [[]]"
| "splitSlash (c # cs) =
     (if c = 47 then [] # splitSlash cs
      else (case splitSlash cs of [] \<Rightarrow> [[c]] | p # ps \<Rightarrow> (c # p) # ps))"

lemma splitSlash_ne [simp]: "splitSlash s \<noteq> []"
  by (cases s) (auto split: list.splits)

lemma splitSlash_append:
  "47 \<notin> set c \<Longrightarrow> splitSlash (c @ s) = (c @ hd (splitSlash s)) # tl (splitSlash s)"
  by (induction c) auto

lemma hexUnit_slash: "hexUnit a = Some x \<Longrightarrow> a \<noteq> 47 \<and> a \<noteq> 37"
  by (auto simp: hexUnit_def)

lemma escByte_slash: "escByte a b = Some x \<Longrightarrow> a \<noteq> 47 \<and> b \<noteq> 47 \<and> b \<noteq> 37"
  by (auto simp: escByte_def split: option.splits dest: hexUnit_slash)

text \<open>The continuation bytes take a prefix without a slash.\<close>

lemma contBytes_prefix:
  assumes "contBytes n s = Some (bs, r)"
  obtains c where "s = c @ r" "47 \<notin> set c" "length bs = n" "c \<noteq> [] \<longrightarrow> last c \<noteq> 37" "\<forall>r'. contBytes n (c @ r') = Some (bs, r')"
  using assms
proof (induction n s arbitrary: bs r thesis rule: contBytes.induct)
  case (2 n p a b s)
  then obtain x bs' where x: "p = 37" "escByte a b = Some x" "contBytes n s = Some (bs', r)" "bs = x # bs'"
    by (auto split: if_splits option.splits)
  from 2(1) [OF _ x(2) _ x(3)] x(1) obtain c where
    "s = c @ r" "47 \<notin> set c" "length bs' = n" "c \<noteq> [] \<longrightarrow> last c \<noteq> 37" "\<forall>r'. contBytes n (c @ r') = Some (bs', r')" by auto
  then show ?case using x escByte_slash [OF x(2)] by (intro 2(2) [of "p # a # b # c"]) auto
qed auto

lemma codePointOf_bound:
  assumes "contCount x = Some n" "length bs = n" "codePointOf (x # bs) = Some v"
  shows "0x80 \<le> v" "v \<le> 0x10FFFF"
proof -
  have "n = 1 \<or> n = 2 \<or> n = 3" "n = 1 \<longrightarrow> x < 0xE0" "n = 2 \<longrightarrow> x < 0xF0"
    using assms(1) by (auto simp: contCount_def split: if_splits)
  then consider b where "bs = [b]" "x < 0xE0" | b c where "bs = [b, c]" "x < 0xF0" | b c d where "bs = [b, c, d]"
    using assms(2) by (auto simp: length_Suc_conv numeral_eq_Suc)
  then have "0x80 \<le> v \<and> v \<le> 0x10FFFF"
    by cases (use assms(3) in \<open>auto simp: Let_def isCont_def split: if_splits\<close>)
  then show "0x80 \<le> v" "v \<le> 0x10FFFF" by simp_all
qed

lemma unitsOf_bound:
  assumes "0x80 \<le> v" "v \<le> 0x10FFFF" "u \<in> set (map word_of_nat (unitsOf v))"
  shows "0x80 \<le> unat (u :: jschar)"
proof -
  have "m mod 1024 < 1024" for m :: nat by simp
  then have "\<forall>n \<in> set (unitsOf v). 0x80 \<le> n \<and> n < 65536"
    using assms by (auto simp: unitsOf_def less_mult_imp_div_less trans_less_add1 split: if_splits)
  then show ?thesis using assms(3) unat16 by auto
qed

text \<open>What one step of the decoder does: a prefix of the input, without a slash inside an escape.\<close>

lemma decodeEsc_step:
  assumes "decodeEsc keep (u # s) = Some t"
  obtains r where "u \<noteq> 37" "decodeEsc keep s = Some r" "t = u # r"
  | c o' s' r where "u = 37" "u # s = c @ s'" "47 \<notin> set c" "c \<noteq> []" "last c \<noteq> 37"
      "decodeEsc keep s' = Some r" "t = o' @ r" "o' \<noteq> []" "keep 47 \<Longrightarrow> 47 \<notin> set o'"
      "\<And>g. decodeEsc keep (c @ g) = map_option (\<lambda>r. o' @ r) (decodeEsc keep g)"
      "hd o' = 46 \<Longrightarrow> \<exists>a b. c = [37, a, b] \<and> escByte a b = Some 46 \<and> o' = [46]"
proof (cases "u = 37")
  case False
  then show thesis using assms that(1) by auto
next
  case True
  then obtain a b s' x where s: "s = a # b # s'" and x: "escByte a b = Some x"
    using assms by (auto split: list.splits option.splits)
  note ab = escByte_slash [OF x]
  show thesis
  proof (cases "x < 0x80")
    case lt: True
    let ?o = "if keep x then [37, a, b] else [word_of_nat x :: jschar]"
    obtain r where r: "decodeEsc keep s' = Some r" "t = ?o @ r"
      using assms s x lt True by auto
    have "unat (word_of_nat x :: jschar) = x" using lt by (intro unat16) simp
    then have w: "(word_of_nat x :: jschar) = w \<longleftrightarrow> x = unat w" for w
      by (simp add: word_unat_eq_iff)
    show thesis
      by (rule that(2) [of "[37, a, b]" s' r ?o]) (use True s x lt r ab w in auto)
  next
    case False
    then obtain n bs s'' v where n: "contCount x = Some n" "contBytes n s' = Some (bs, s'')"
      "codePointOf (x # bs) = Some v"
      using assms s x True by (auto split: option.splits)
    from n(2) obtain c where c: "s' = c @ s''" "47 \<notin> set c" "length bs = n" "c \<noteq> [] \<longrightarrow> last c \<noteq> 37"
      "\<forall>r'. contBytes n (c @ r') = Some (bs, r')" by (rule contBytes_prefix)
    let ?o = "map word_of_nat (unitsOf v) :: jsstr"
    obtain r where r: "decodeEsc keep s'' = Some r" "t = ?o @ r"
      using assms s x True False n by auto
    have "0x80 \<le> unat q" if "q \<in> set ?o" for q
      using unitsOf_bound [OF codePointOf_bound [OF n(1) c(3) n(3)] that] .
    then have o: "47 \<notin> set ?o" "46 \<notin> set ?o" by force+
    have ne: "?o \<noteq> []" by (simp add: unitsOf_def)
    then have "hd ?o \<noteq> 46" using o hd_in_set by metis
    then show thesis
      using True s x False n c r ab o(1) ne by (intro that(2) [of "37 # a # b # c" s'' r ?o]) auto
  qed
qed

lemma decodeEsc_segments:
  assumes "keep 47" "decodeEsc keep s = Some t"
  shows "list_all2 (\<lambda>g h. decodeEsc keep g = Some h) (splitSlash s) (splitSlash t)"
  using assms(2)
proof (induction "length s" arbitrary: s t rule: less_induct)
  case less
  show ?case
  proof (cases s)
    case Nil
    then show ?thesis using less.prems by simp
  next
    case (Cons u s1)
    from less.prems [unfolded Cons] show ?thesis
    proof (cases rule: decodeEsc_step)
      case (1 r)
      have l: "list_all2 (\<lambda>g h. decodeEsc keep g = Some h) (splitSlash s1) (splitSlash r)"
        using less.hyps [of s1 r] Cons 1 by simp
      then show ?thesis
        using Cons 1 by (cases "splitSlash s1"; cases "splitSlash r") auto
    next
      case (2 c o' s' r)
      have l: "list_all2 (\<lambda>g h. decodeEsc keep g = Some h) (splitSlash s') (splitSlash r)"
        using arg_cong [OF 2(2), of length] 2(4) Cons by (intro less.hyps 2(6)) (cases c, auto)
      have "47 \<notin> set o'" using 2 assms(1) by simp
      note sp = splitSlash_append [OF 2(3)] splitSlash_append [OF this]
      show ?thesis
        unfolding Cons 2(2,7) sp using l 2(10) by (cases "splitSlash s'"; cases "splitSlash r") auto
    qed
  qed
qed

section \<open>Properties of the routes\<close>

text \<open>
  A segment that the URL parser resolves as the parent directory, and its documented promise:
  no such segment is left in the path of a parsed URL.
\<close>

definition isDoubleDot :: "jsstr \<Rightarrow> bool" where
  "isDoubleDot g \<longleftrightarrow>
     map lowerUnit g \<in> set (map jslit [''..'', ''.%2e'', ''%2e.'', ''%2e%2e''])"

definition parsed_path :: "jsstr \<Rightarrow> bool" where
  "parsed_path p \<longleftrightarrow> list_all (\<lambda>g. \<not> isDoubleDot g) (splitSlash p)"

text \<open>The ways to write a dot.\<close>

definition dotForms :: "jsstr set" where
  "dotForms = {[46], [37, 50, 69], [37, 50, 101]}"

lemma escByte_46: "escByte a b = Some 46 \<Longrightarrow> a = 50 \<and> (b = 69 \<or> b = 101)"
proof -
  assume "escByte a b = Some 46"
  then obtain x y where x: "hexUnit a = Some x" and y: "hexUnit b = Some y" and e: "16 * x + y = 46"
    by (auto simp: escByte_def split: option.splits)
  have "x < 16" "y < 16" using x y by (auto simp: hexUnit_def Let_def split: if_splits)
  then have "x = 2" "y = 14" using e by presburger+
  then have "unat a = 50" "unat b = 69 \<or> unat b = 101"
    using x y by (auto simp: hexUnit_def Let_def split: if_splits)
  then show ?thesis by (auto simp: word_unat_eq_iff)
qed

lemma decodeEsc_dot:
  assumes "decodeEsc keep g = Some (46 # r)"
  obtains c g' where "g = c @ g'" "c \<in> dotForms" "decodeEsc keep g' = Some r"
proof (cases g)
  case Nil
  then show thesis using assms by simp
next
  case (Cons u s)
  from assms [unfolded Cons] show thesis
  proof (cases rule: decodeEsc_step)
    case (1 q)
    then show thesis using Cons by (intro that [of "[46]" s]) (auto simp: dotForms_def)
  next
    case (2 c o' s' q)
    then have "hd o' = 46" by (cases o') auto
    then obtain a b where "c = [37, a, b]" "escByte a b = Some 46" "o' = [46]" using 2 by blast
    then show thesis
      using 2 Cons escByte_46 [of a b] by (intro that [of c s']) (auto simp: dotForms_def)
  qed
qed

lemma decodeEsc_Nil: "decodeEsc keep g = Some [] \<Longrightarrow> g = []"
  by (cases g) (auto simp del: decodeEsc.simps(2) elim!: decodeEsc_step)

lemma decoded_dotdot: "decodeEsc keep g = Some [46, 46] \<Longrightarrow> isDoubleDot g"
proof -
  assume "decodeEsc keep g = Some [46, 46]"
  then obtain c g1 where 1: "g = c @ g1" "c \<in> dotForms" "decodeEsc keep g1 = Some [46]" by (rule decodeEsc_dot)
  from 1(3) obtain d g2 where 2: "g1 = d @ g2" "d \<in> dotForms" "decodeEsc keep g2 = Some []" by (rule decodeEsc_dot)
  have "g = c @ d" using 1 2 decodeEsc_Nil by simp
  then show ?thesis
    using 1(2) 2(2) by (auto simp: dotForms_def isDoubleDot_def lowerUnit_def jslit_def)
qed

lemma decodeEsc_plain: "37 \<notin> set c \<Longrightarrow> decodeEsc keep (c @ s) = map_option (\<lambda>r. c @ r) (decodeEsc keep s)"
  by (induction c) (auto simp: option.map_comp o_def, (cases "decodeEsc keep s", simp_all)+)

lemma segments_plain:
  "list_all2 (\<lambda>g h. decodeEsc keep g = Some h) gs hs \<Longrightarrow> \<forall>g \<in> set gs. \<not> isDoubleDot g \<Longrightarrow>
   [46, 46] \<notin> set hs"
  by (induction rule: list_all2_induct) (auto dest: decoded_dotdot)

text \<open>A percent sign at the end is an error.\<close>

lemma decodeEsc_percent: "decodeEsc keep (p @ [37]) = None"
proof (induction "length p" arbitrary: p rule: less_induct)
  case less
  obtain u s where us: "p @ [37] = u # s" by (cases "p @ [37]") auto
  show ?case
  proof (rule ccontr)
    assume "decodeEsc keep (p @ [37]) \<noteq> None"
    then obtain t where "decodeEsc keep (u # s) = Some t" using us by auto
    then show False
    proof (cases rule: decodeEsc_step)
      case (1 r)
      then obtain p' where "p = u # p'" "s = p' @ [37]" using us by (cases p) auto
      then show False using less 1 by simp
    next
      case (2 c o' s' r)
      show False
      proof (cases s' rule: rev_cases)
        case Nil
        then show False using us 2 by (metis append_Nil2 last_snoc)
      next
        case (snoc p' x)
        then have "p = c @ p'" "x = 37" using us 2 by (metis append_assoc butlast_snoc, metis append_assoc last_snoc)
        then show False using less [of p'] 2 snoc by simp
      qed
    qed
  qed
qed

text \<open>Which route answers with a file.\<close>

definition servesFile :: "js_err + http_response \<Rightarrow> jsstr \<Rightarrow> bool" where
  "servesFile r f \<longleftrightarrow> (\<exists>h. r = Inr h \<and> hr_body h = FileBody f)"

lemma servesFile_simps [simp]:
  "\<not> servesFile (Inl e) f" "servesFile (Inr h) f \<longleftrightarrow> hr_body h = FileBody f"
  by (simp_all add: servesFile_def)

lemma no_file_body [simp]:
  "hr_body (json P v n) \<noteq> FileBody f" "hr_body (text_response t n) \<noteq> FileBody f" "hr_body (redirect u) \<noteq> FileBody f"
  "hr_body (plainResponse t n) \<noteq> FileBody f" "hr_body (clientHtmlResponse V) \<noteq> FileBody f"
  "hr_body upgradeResponse \<noteq> FileBody f" "hr_body (homeRedirect q) \<noteq> FileBody f" "hr_body (authJson P v) \<noteq> FileBody f"
  "hr_body (cookieRedirect b c) \<noteq> FileBody f" "hr_body (errorRedirect b e) \<noteq> FileBody f"
  by (simp_all add: json_def text_response_def redirect_def plainResponse_def clientHtmlResponse_def upgradeResponse_def
      homeRedirect_def authJson_def cookieRedirect_def errorRedirect_def)

lemma statsRoute_file: "\<not> servesFile (statsRoute V q d) f"
  unfolding statsRoute_def Let_def by (simp split: if_split option.split list.split)

lemma auth_no_file:
  "\<not> servesFile (Inr (fst (handleLogin cfg now u st))) f" "\<not> servesFile (Inr (fst (handleCallback P cfg V b now c t st))) f"
  "\<not> servesFile (Inr (handleLogout b)) f" "\<not> servesFile (Inr (handleMe P cfg now h)) f"
  "\<not> servesFile (handleDevLogin P cfg b now x u t) f"
proof -
  have "hr_body (exchangeCode P cfg V b now c) \<noteq> FileBody f" for c
    unfolding exchangeCode_def Let_def by (simp split: fetched.split option.split sum.split)
  then show "\<not> servesFile (Inr (fst (handleCallback P cfg V b now c t st))) f"
    unfolding handleCallback_def by (simp split: option.split)
qed (simp_all add: handleLogin_def handleLogout_def handleMe_def handleDevLogin_def createJWT_eq Let_def split: option.split)

lemma serve_asset:
  assumes "servesFile (fst (serve V q st w)) f"
  shows "startsWith (rq_path q) (jslit ''/assets/'') \<and> servesFile (assetRoute V (rq_path q)) f"
  using assms unfolding serve_def Let_def case_prod_beta
  by (simp only: fst_conv split: if_split_asm) (simp_all add: statsRoute_file auth_no_file del: servesFile_simps(2), simp_all)

lemma serve_startsWith:
  assumes "startsWith (rq_path q) (jslit ''/assets/'')"
  shows "fst (serve V q st w) = assetRoute V (rq_path q)"
proof -
  have "rq_path q \<noteq> jslit ''/health''" "rq_path q \<noteq> jslit ''/ws''"
    using assms by (auto simp: startsWith_def jslit_def)
  then show ?thesis using assms by (simp add: serve_def)
qed

lemma asset_file:
  assumes "servesFile (assetRoute V p) f"
  shows "\<not> includesDotDot p \<and> (\<exists>d. decodeURI p = Some d \<and> f = 46 # d)"
proof -
  have "jslit ''.'' = [46]" by (simp add: jslit_def)
  then show ?thesis using assms by (auto simp: assetRoute_def fileResponse_def Let_def split: if_splits option.splits)
qed


text \<open>A site for the witnesses: every file can be opened, the database keeps its order.\<close>

definition ex_site :: site_env where
  "ex_site = \<lparr>v_platform = ex_platform JNull, v_config = ex_config, v_now = 0, v_uuid = [], v_rand = 0,
     v_provider = ex_provider JNull, v_opens = (\<lambda>_. True), v_ordStats = (\<lambda>x. x),
     v_ordKills = (\<lambda>x. x), v_ordCounts = (\<lambda>x. x), v_clientHtml = [], v_clientHtmlSource = []\<rparr>"

definition ex_get :: "string \<Rightarrow> http_request" where
  "ex_get p = \<lparr>rq_protocol = jslit ''http:'', rq_host = jslit ''localhost'', rq_path = jslit p, rq_query = [], rq_upgrade = None, rq_cookie = None, rq_sock = 0\<rparr>"


text \<open>
  A path with a broken escape is not answered by the asset route: \<open>decodeURI\<close> is called
  outside the \<open>try\<close>, so the handler throws where a missing file gives 404, whatever the files.
\<close>

lemma broken_escape_throws:
  assumes "startsWith (rq_path q) (jslit ''/assets/'')" "\<not> includesDotDot (rq_path q)"
    and "rq_path q = p @ [37]"
  shows "fst (serve V q st w) = Inl URIError"
proof -
  have "decodeEsc keep (p @ [37]) = None" for keep p
    by (rule decodeEsc_percent)
  then have "assetRoute V (rq_path q) = Inl URIError"
    using assms by (simp add: assetRoute_def decodeURI_def)
  then show ?thesis using serve_startsWith [OF assms(1)] by simp
qed

end
