(* ===== verification/Client_Utils.thy ===== *)
theory Client_Utils
  imports Auth Text_Utils Terrain
begin

text \<open>
  The helpers of the browser client, \<open>client_src/utils.js\<close>: string hash and colours, the seeded
  random numbers, identifiers, the repair of wrongly decoded names, the chat log and the life bar.
  Bitwise operators of JavaScript work on 32 bits: \<open>|0\<close>, \<open>>>>\<close> and \<open>Math.imul\<close> are operations on
  32-bit words, and \<open>>>\<close> is a shift of the signed value.
\<close>

section \<open>Colours\<close>

type_synonym int32 = "32 word"

definition hashString :: "jsstr \<Rightarrow> int32" where
  "hashString str = foldl (\<lambda>h c. push_bit 5 h - h + ucast c) 0 str"

definition PASTEL_COLORS :: "nat list" where
  "PASTEL_COLORS =
    [0xFFB3BA, 0xFFDFBA, 0xFFFFBA, 0xBAFFC9, 0xBAE1FF, 0xE0BBE4, 0xFFD6E0, 0xCFFAFE]"

text \<open>\<open>a % b\<close> takes the sign of the dividend; a negative index of an array reads \<open>undefined\<close>.\<close>

definition jsRem :: "int \<Rightarrow> int \<Rightarrow> int" where
  "jsRem a b = (if a < 0 then - ((- a) mod b) else a mod b)"

definition pastelAt :: "int \<Rightarrow> nat option" where
  "pastelAt i = (if 0 \<le> i \<and> i < int (length PASTEL_COLORS) then Some (PASTEL_COLORS ! nat i) else None)"

text \<open>\<open>h >> k\<close>.\<close>

definition signedShift :: "int32 \<Rightarrow> nat \<Rightarrow> int" where
  "signedShift h k = sint h div 2 ^ k"

definition pickPastelPair :: "jsstr \<Rightarrow> nat option \<times> nat option" where
  "pickPastelPair key =
     (let h = hashString key;
          main = pastelAt (jsRem (uint h) 8);
          pants = pastelAt (jsRem (signedShift h 3) 8);
          pants = (if pants = main then pastelAt (jsRem (signedShift h 5) 8) else pants)
      in (main, pants))"

section \<open>Seeded random numbers\<close>

definition makeRng :: "int \<Rightarrow> int32" where
  "makeRng seed = word_of_int seed"

text \<open>One call of the generator: the number and the next state.\<close>

definition rngStep :: "int32 \<Rightarrow> int32" where
  "rngStep s = s + 0x6D2B79F5"

definition rngOut :: "int32 \<Rightarrow> int32" where
  "rngOut s =
     (let t = (s XOR drop_bit 15 s) * (1 OR s);
          t = (t + (t XOR drop_bit 7 t) * (61 OR t)) XOR t
      in t XOR drop_bit 14 t)"

definition rng :: "int32 \<Rightarrow> real \<times> int32" where
  "rng s = (let s = rngStep s in (real (unat (rngOut s)) / 4294967296, s))"

section \<open>Identifiers\<close>

text \<open>
  \<open>randomId\<close> where \<open>crypto.randomUUID\<close> is missing: sixteen random bytes with version and variant set.
\<close>

definition randomIdBytes :: "byte list \<Rightarrow> jsstr" where
  "randomIdBytes buf =
     (let buf = buf[6 := (buf ! 6 AND 0x0f) OR 0x40];
          buf = buf[8 := (buf ! 8 AND 0x3f) OR 0x80];
          hex = jslit (concat (map hexByte buf))
      in slice 0 8 hex @ [45] @ slice 8 12 hex @ [45] @ slice 12 16 hex @ [45] @ slice 16 20 hex @ [45] @
         drop 20 hex)"

text \<open>
  \<open>randomId\<close> takes what the browser has: a native identifier, random bytes, or at last the digits of
  \<open>Math.random()\<close> and of the clock in base 36. The digits of a fraction depend on the engine and are
  an argument.
\<close>

definition digit36 :: "nat \<Rightarrow> jschar" where
  "digit36 d = (if d < 10 then of_nat (48 + d) else of_nat (87 + d))"

fun base36 :: "nat \<Rightarrow> jsstr" where
  "base36 n = (if n < 36 then [digit36 n] else base36 (n div 36) @ [digit36 (n mod 36)])"

definition randomId :: "jsstr option \<Rightarrow> byte list option \<Rightarrow> jsstr \<Rightarrow> nat \<Rightarrow> jsstr" where
  "randomId native bytes random36 now =
     (case native of
        Some u \<Rightarrow> u
      | None \<Rightarrow> (case bytes of
          Some buf \<Rightarrow> randomIdBytes buf
        | None \<Rightarrow> jslit ''id-'' @ drop 2 random36 @ base36 now))"

section \<open>Names\<close>

text \<open>
  \<open>fixUTF8\<close> acts on strings; any other value is returned as it is, since it has no units to loop
  over or the loop throws and the exception is caught.
\<close>

definition weirdUnit :: "jschar \<Rightarrow> bool" where
  "weirdUnit c \<longleftrightarrow> 0xC0 \<le> c \<and> c \<le> 0xFF"

definition fixString :: "platform \<Rightarrow> jsstr \<Rightarrow> jsstr" where
  "fixString P str =
     (if \<not> list_ex weirdUnit str then str
      else
        let bytes = map (\<lambda>c. ucast (c AND 0xFF)) str;
            fixed = textDecode P bytes
        in if 0xFFFD \<in> set fixed then str else fixed)"

definition fixUTF8 :: "platform \<Rightarrow> jsval \<Rightarrow> jsval" where
  "fixUTF8 P v = (case v of JStr (c # cs) \<Rightarrow> JStr (fixString P (c # cs)) | _ \<Rightarrow> v)"

section \<open>Configuration of the client\<close>

record client_config =
  c_gravity :: real
  c_moveSpeed :: real
  c_crouchSpeed :: real
  c_jumpForce :: real
  c_snowballSpeed :: real
  c_snowballCooldown :: real
  c_netSendHz :: real
  c_remoteLerp :: real
  c_lookSensitivity :: real
  c_minPitch :: real
  c_maxPitch :: real
  c_mapHalf :: real

definition CLIENT_CONFIG :: client_config where
  "CLIENT_CONFIG = \<lparr>c_gravity = 22, c_moveSpeed = 8, c_crouchSpeed = 3, c_jumpForce = 95 / 10,
     c_snowballSpeed = 28, c_snowballCooldown = 250, c_netSendHz = 20, c_remoteLerp = 12,
     c_lookSensitivity = 2 / 1000, c_minPitch = - (15 / 10), c_maxPitch = 15 / 10, c_mapHalf = 190\<rparr>"

definition groundHeightWithObstacles :: "real \<Rightarrow> real \<Rightarrow> real \<Rightarrow> real" where
  "groundHeightWithObstacles worldSeed x z = terrainHeight worldSeed x z"

section \<open>The chat log and the life bar\<close>

text \<open>The log holds numbered lines; removing the first line while there are more than fifty.\<close>

fun trimLog :: "'a list \<Rightarrow> 'a list" where
  "trimLog [] = []"
| "trimLog (x # xs) = (if length (x # xs) > 50 then trimLog xs else x # xs)"

definition appendChatLog :: "'a \<Rightarrow> nat \<times> (nat \<times> 'a) list \<Rightarrow> nat \<times> (nat \<times> 'a) list" where
  "appendChatLog line st = (let (n, items) = st in (Suc n, trimLog (items @ [(n, line)])))"

text \<open>The timer of a line, thirty seconds later.\<close>

definition expireChatLine :: "nat \<Rightarrow> nat \<times> (nat \<times> 'a) list \<Rightarrow> nat \<times> (nat \<times> 'a) list" where
  "expireChatLine i st = (fst st, filter (\<lambda>(j, _). j \<noteq> i) (snd st))"

text \<open>The width of the bar in percent and the number of hearts.\<close>

definition setHpUI :: "int \<Rightarrow> int \<times> nat" where
  "setHpUI hp = (max 0 (min 100 hp), nat (max 0 \<lceil>real_of_int hp / 20\<rceil>))"

section \<open>Lemmas\<close>

lemma unat_hash_step: "unat (push_bit 5 h - h + ucast (c :: jschar) :: int32) = (unat h * 31 + unat c) mod 2 ^ 32"
proof -
  have "push_bit 5 h - h = 31 * h" by (simp add: push_bit_eq_mult)
  then have "unat (push_bit 5 h - h + ucast c) = (31 * unat h + unat c) mod 2 ^ 32"
    by (simp add: unat_word_ariths unsigned_ucast_eq take_bit_eq_mod mod_simps)
  then show ?thesis by (simp add: mult.commute)
qed

text \<open>The hash is the polynomial in 31 over the code units, modulo the word size.\<close>

lemma hashString_poly: "unat (hashString s) = foldl (\<lambda>n c. n * 31 + unat c) 0 s mod 2 ^ 32"
proof -
  have "unat (foldl (\<lambda>h c. push_bit 5 h - h + ucast c) h s) =
      foldl (\<lambda>n c. n * 31 + unat c) n s mod 2 ^ 32" if "unat h = n mod 2 ^ 32" for h :: int32 and n
    using that
  proof (induction s arbitrary: h n)
    case (Cons c s)
    have "unat (push_bit 5 h - h + ucast c) = (n * 31 + unat c) mod 2 ^ 32"
      unfolding unat_hash_step Cons.prems by (metis mod_add_left_eq mod_mult_left_eq)
    then show ?case using Cons.IH by simp
  qed simp
  then show ?thesis by (simp add: hashString_def)
qed

lemma pastelAt_iff: "pastelAt i \<noteq> None \<longleftrightarrow> 0 \<le> i \<and> i < 8"
  by (simp add: pastelAt_def PASTEL_COLORS_def)

lemma jsRem_nonneg: "0 \<le> a \<Longrightarrow> 0 \<le> jsRem a 8 \<and> jsRem a 8 < 8"
  by (simp add: jsRem_def)

lemma jsRem_neg: "a < 0 \<Longrightarrow> 0 \<le> jsRem a 8 \<longleftrightarrow> 8 dvd a"
proof -
  have "- a mod 8 = 0 \<longleftrightarrow> 8 dvd a" by (metis dvd_minus_iff mod_eq_0_iff_dvd)
  moreover have "0 \<le> - a mod 8" by simp
  ultimately show "a < 0 \<Longrightarrow> ?thesis" by (auto simp: jsRem_def)
qed

lemma rngStep_iter: "(rngStep ^^ n) s = s + of_nat n * 0x6D2B79F5"
  by (induction n) (simp_all add: rngStep_def algebra_simps)

lemma utf8cp_lead: "128 \<le> n \<Longrightarrow> n < 0x110000 \<Longrightarrow> \<exists>b bs. utf8cp n = b # bs \<and> 0xC0 \<le> b \<and> b < 256"
proof -
  assume n: "128 \<le> n" "n < 0x110000"
  have "n < 0x800 \<Longrightarrow> n div 64 < 32" "n < 0x10000 \<Longrightarrow> n div 4096 < 16" "n div 262144 < 5"
    using n by (simp_all add: less_mult_imp_div_less)
  then show ?thesis using n by (auto simp: utf8cp_def)
qed

lemma rng_unit: "0 \<le> fst (rng s) \<and> fst (rng s) < 1 \<and> snd (rng s) = rngStep s"
proof -
  have "unat (rngOut (rngStep s)) < 2 ^ 32"
    by (rule order_less_le_trans [OF unsigned_less]) simp
  then have "real (unat (rngOut (rngStep s))) < real (2 ^ 32)" by (simp only: of_nat_less_iff)
  moreover have "0 \<le> real (unat (rngOut (rngStep s)))" by (rule of_nat_0_le_iff)
  ultimately show ?thesis
    by (simp add: rng_def Let_def)
qed

section \<open>Properties\<close>

text \<open>
  Claim C34. The random numbers that build the scenery lie in [0,1), and from any seed the generator
  runs through all states before it repeats: two positions of the sequence have the same state
  exactly if they differ by a multiple of 2 to the 32.
\<close>

theorem seeded_numbers_full_period:
  "0 \<le> fst (rng s) \<and> fst (rng s) < 1 \<and> snd (rng s) = rngStep s \<and>
   ((rngStep ^^ n) s = (rngStep ^^ m) s \<longleftrightarrow> n mod 2 ^ 32 = m mod 2 ^ 32)"
proof -
  have "0 \<le> fst (rng s) \<and> fst (rng s) < 1 \<and> snd (rng s) = rngStep s" by (rule rng_unit)
  moreover have "of_nat n * 0x6D2B79F5 = (of_nat m * 0x6D2B79F5 :: int32) \<longleftrightarrow> n mod 2 ^ 32 = m mod 2 ^ 32"
  proof -
    have "(0x6D2B79F5 * 3696798301 :: int32) = 1" by code_simp
    then have "x * 0x6D2B79F5 * 3696798301 = x" for x :: int32 by (simp only: mult.assoc mult_1_right)
    then have "of_nat n * 0x6D2B79F5 = (of_nat m * 0x6D2B79F5 :: int32) \<longleftrightarrow> (of_nat n :: int32) = of_nat m"
      by metis
    also have "\<dots> \<longleftrightarrow> n mod 2 ^ 32 = m mod 2 ^ 32"
      by (simp add: word_of_nat_eq_iff take_bit_eq_mod)
    finally show ?thesis .
  qed
  ultimately show ?thesis unfolding rngStep_iter add_left_cancel by blast
qed

text \<open>
  The colour of the trousers is lost for half of the names: the shift of the source is signed, so a
  hash with its highest bit set gives a negative index.
\<close>

lemma pastel_pants_undefined:
  "fst (pickPastelPair key) \<noteq> None"
  "sint (hashString key) < 0 \<Longrightarrow> \<not> 8 dvd signedShift (hashString key) 3 \<Longrightarrow> snd (pickPastelPair key) = None"
  "0 \<le> sint (hashString key) \<Longrightarrow> snd (pickPastelPair key) \<noteq> None"
proof -
  let ?h = "hashString key"
  have shirt: "pastelAt (jsRem (uint ?h) 8) \<noteq> None"
    using jsRem_nonneg [of "uint ?h"] by (simp only: pastelAt_iff unsigned_greater_eq)
  then show "fst (pickPastelPair key) \<noteq> None" by (simp add: pickPastelPair_def Let_def)
  show "snd (pickPastelPair key) = None" if "sint ?h < 0" "\<not> 8 dvd signedShift ?h 3"
  proof -
    have "signedShift ?h 3 < 0" using that(1) by (simp add: signedShift_def div_neg_pos_less0)
    then have "pastelAt (jsRem (signedShift ?h 3) 8) = None"
      using that(2) jsRem_neg pastelAt_iff by metis
    then show ?thesis using shirt by (auto simp: pickPastelPair_def Let_def)
  qed
  show "snd (pickPastelPair key) \<noteq> None" if "0 \<le> sint ?h"
  proof -
    have "0 \<le> signedShift ?h k" for k
      using that by (simp add: signedShift_def pos_imp_zdiv_nonneg_iff)
    then have "pastelAt (jsRem (signedShift ?h k) 8) \<noteq> None" for k
      using jsRem_nonneg by (simp only: pastelAt_iff)
    then show ?thesis by (simp add: pickPastelPair_def Let_def)
  qed
qed

lemma ice_knight_has_no_trousers: "snd (pickPastelPair (jslit ''IceKnight'')) = None"
proof -
  let ?h = "hashString (jslit ''IceKnight'')"
  have "?h = 3634904280" by (simp add: word_unat_eq_iff hashString_poly jslit_def)
  then have "sint ?h = - 660063016" by simp
  then show ?thesis by (intro pastel_pants_undefined) (simp_all add: signedShift_def)
qed

lemma codePoints_bound: "\<forall>n \<in> set ns. n < 65536 \<Longrightarrow> \<forall>p \<in> set (codePoints ns). p < 0x110000"
proof (induction ns rule: codePoints.induct)
  case (3 c d cs)
  have "0x10000 + (c - 0xD800) * 1024 + (d - 0xDC00) < 0x110000" if "isHigh c" "isLow d"
    using that unfolding isHigh_def isLow_def by linarith
  then show ?case using 3 by auto
qed auto

lemma codePoints_high: "\<exists>n \<in> set ns. 128 \<le> n \<Longrightarrow> \<exists>p \<in> set (codePoints ns). 128 \<le> p"
proof (induction ns rule: codePoints.induct)
  case (3 c d cs)
  show ?case
  proof (cases "isHigh c \<and> isLow d")
    case False
    then show ?thesis using 3 by auto
  qed simp
qed auto

lemma utf8_weird:
  assumes "\<not> ascii s"
  shows "list_ex weirdUnit (fromBytes (utf8 s))"
proof -
  obtain c where "c \<in> set s" "128 \<le> unat c" using assms by (auto simp: ascii_def not_less)
  then have "\<exists>n \<in> set (map unat s). 128 \<le> n" by auto
  then obtain p where p: "p \<in> set (codePoints (map unat s))" "128 \<le> p" using codePoints_high by blast
  have "unat c < 65536" for c :: jschar by (rule order_less_le_trans [OF unsigned_less]) simp
  then have "p < 0x110000" using p(1) codePoints_bound [of "map unat s"] by auto
  then obtain b bs where b: "utf8cp p = b # bs" "0xC0 \<le> b" "b < 256" using utf8cp_lead p(2) by blast
  have "word_of_nat b \<in> set (utf8 s)" using p(1) b(1) unfolding utf8_def by force
  then have "word_of_nat (unat (word_of_nat b :: byte)) \<in> set (fromBytes (utf8 s))"
    unfolding fromBytes_def by simp
  moreover have "unat (word_of_nat b :: byte) = b" using b(3) by (simp only: unat_of_nat take_bit_eq_mod) simp
  moreover have "weirdUnit (word_of_nat b)"
  proof -
    have "unat (word_of_nat b :: jschar) = b" using b(3) by (intro unat16) simp
    then show ?thesis using b by (simp add: weirdUnit_def word_le_nat_alt)
  qed
  ultimately show ?thesis by (auto simp: list_ex_iff)
qed

lemma mask_fromBytes: "map (\<lambda>c. ucast (c AND 0xFF)) (fromBytes bs) = bs"
proof -
  have "ucast (word_of_nat (unat b) AND 0xFF :: jschar) = b" for b :: byte
  proof -
    have m: "(0xFF :: jschar) = mask 8" by (simp add: mask_eq_exp_minus_1)
    show ?thesis unfolding m by (rule bit_word_eqI) (auto simp: bit_simps)
  qed
  then show ?thesis by (simp add: fromBytes_def o_def)
qed

text \<open>
  Claim C32. The client repairs what a Latin-1 reading of UTF-8 did to a text: for every text without
  lone surrogates, leading byte-order mark or replacement character, \<open>fixUTF8\<close> of the misread text
  is the text.
\<close>

theorem fixUTF8_repairs_misread_text:
  assumes "utf8_correct P" "plainText s" "0xFFFD \<notin> set s"
  shows "fixUTF8 P (JStr (fromBytes (utf8 s))) = JStr s"
proof -
  have "fixString P (fromBytes (utf8 s)) = s"
  proof (cases "ascii s")
    case True
    then have "\<not> weirdUnit c" if "c \<in> set s" for c
      using that by (auto simp: ascii_def weirdUnit_def word_le_nat_alt)
    then show ?thesis using True by (simp add: fixString_def utf8_ascii list_ex_iff)
  next
    case False
    then show ?thesis
      using assms utf8_weird [OF False] by (simp add: fixString_def mask_fromBytes utf8_correct_def)
  qed
  then show ?thesis by (cases "fromBytes (utf8 s)") (simp_all add: fixUTF8_def fixString_def)
qed

theorem fixUTF8_repairs_misread_text_witness:
  "fixUTF8 (ex_platform JNull) (JStr [0xC3, 0xA9]) = JStr [0xE9]"
proof -
  have "fromBytes (utf8 [0xE9]) = [0xC3, 0xA9]"
    by (simp add: fromBytes_def utf8_def utf8cp_def isHigh_def isLow_def)
  moreover have "plainText [0xE9]" by (simp add: plainText_def isHigh_def isLow_def)
  ultimately show ?thesis
    using fixUTF8_repairs_misread_text [OF ex_platform_ok(2) [of JNull], of "[0xE9]"] by simp
qed

text \<open>
  The test for misread text looks at single units only: a text that mixes such a unit with units
  beyond Latin-1 is cut to its low bytes.
\<close>

lemma fixUTF8_masks_other_units:
  assumes "utf8_correct P"
  shows "fixUTF8 P (JStr [0xC3, 0x4EA9]) = JStr [0xE9]"
proof -
  have "textDecode P (utf8 [0xE9]) = [0xE9]"
    using assms by (simp add: utf8_correct_def plainText_def isHigh_def isLow_def)
  moreover have "utf8 [0xE9] = [0xC3, 0xA9]" by (simp add: utf8_def utf8cp_def isHigh_def isLow_def)
  ultimately show ?thesis by (simp add: fixUTF8_def fixString_def weirdUnit_def)
qed

text \<open>An identifier made by the client passes the server's check.\<close>

lemma randomIdBytes_uuid: "length buf = 16 \<Longrightarrow> isUuidLike (JStr (randomIdBytes buf))"
proof -
  assume "length buf = 16"
  moreover have "length (concat (map hexByte bs)) = 2 * length bs" for bs
    by (induction bs) (simp_all add: hexByte_def)
  ultimately show ?thesis by (simp add: randomIdBytes_def Let_def slice_def)
qed

declare base36.simps [simp del]

lemma base36_length: "n < 36 ^ Suc k \<Longrightarrow> length (base36 n) \<le> Suc k"
proof (induction k arbitrary: n)
  case (Suc k)
  then have "n div 36 < 36 ^ Suc k" by (simp add: less_mult_imp_div_less)
  then show ?case using Suc.IH [of "n div 36"] by (subst base36.simps) simp
qed (subst base36.simps, simp)

lemma base36_length_ge: "36 ^ k \<le> n \<Longrightarrow> k < length (base36 n)"
proof (induction k arbitrary: n)
  case 0
  then show ?case by (subst base36.simps) simp
next
  case (Suc k)
  then have "36 ^ k \<le> n div 36" by (simp add: less_eq_div_iff_mult_less_eq mult.commute)
  moreover have "\<not> n < 36" using Suc.prems zero_less_power [of "36 :: nat" k] unfolding power_Suc by linarith
  ultimately show ?case using Suc.IH [of "n div 36"] by (subst base36.simps) simp
qed

text \<open>
  The three ways agree on this: from 1972 (36 to the power 7 milliseconds) on until 5188 the
  last resort passes the check as well, whatever the digits of the random number.
\<close>

lemma randomId_uuid:
  assumes "\<And>u. native = Some u \<Longrightarrow> length u = 36" "\<And>buf. bytes = Some buf \<Longrightarrow> length buf = 16"
    and "length random36 \<le> 54" "36 ^ 7 \<le> now" "now < 36 ^ 9"
  shows "isUuidLike (JStr (randomId native bytes random36 now))"
proof (cases native)
  case None
  have "length (base36 now) \<le> 9" "7 < length (base36 now)"
    using base36_length [of now 8] base36_length_ge [of 7 now] assms(4,5) by simp_all
  then show ?thesis
    using None assms(3) randomIdBytes_uuid [OF assms(2)]
    by (cases bytes) (simp_all add: randomId_def)
qed (use assms(1) in \<open>simp add: randomId_def\<close>)

text \<open>The chat log keeps the last fifty lines.\<close>

lemma trimLog_eq: "trimLog xs = drop (length xs - 50) xs"
proof (induction xs)
  case (Cons x xs)
  then show ?case by (cases "length (x # xs) > 50") (auto simp: drop_Cons')
qed simp

lemma appendChatLog_bound: "length (snd (appendChatLog line st)) \<le> 50"
  by (cases st) (simp add: appendChatLog_def trimLog_eq)

end
