(* ===== verification/Client_Scene.thy ===== *)
theory Client_Scene
  imports Client_Utils Geometry
begin

text \<open>
  The moving things of the browser client: the players (\<open>client_src/player.js\<close>) and the snowballs
  (\<open>client_src/snowball.js\<close>). An object keeps the fields its methods compute with; geometry,
  materials and sprites are drawing only and are left out, up to the colours a player is drawn in
  and the glow of the snowman that stands for a bot. The vector library three.js is a parameter (record \<open>three\<close>), whose
  documented behaviour the theorems take as hypotheses.
\<close>

section \<open>The vector library\<close>

record three =
  t_add :: "vec3 \<Rightarrow> vec3 \<Rightarrow> vec3"
  t_scale :: "vec3 \<Rightarrow> real \<Rightarrow> vec3"
  t_lerp :: "vec3 \<Rightarrow> vec3 \<Rightarrow> real \<Rightarrow> vec3"
  t_length :: "vec3 \<Rightarrow> real"
  t_distance :: "vec3 \<Rightarrow> vec3 \<Rightarrow> real"
  t_normalize :: "vec3 \<Rightarrow> vec3"
  t_eulerY :: "real \<Rightarrow> vec3 \<Rightarrow> vec3"
  t_eulerYXZ :: "real \<Rightarrow> real \<Rightarrow> vec3 \<Rightarrow> vec3"
  t_clamp :: "real \<Rightarrow> real \<Rightarrow> real \<Rightarrow> real"
  t_mlerp :: "real \<Rightarrow> real \<Rightarrow> real \<Rightarrow> real"

definition vadd :: "vec3 \<Rightarrow> vec3 \<Rightarrow> vec3" where
  "vadd a b = vec (vx a + vx b) (vy a + vy b) (vz a + vz b)"

definition vlerp :: "vec3 \<Rightarrow> vec3 \<Rightarrow> real \<Rightarrow> vec3" where
  "vlerp a b k = vec (vx a + (vx b - vx a) * k) (vy a + (vy b - vy a) * k) (vz a + (vz b - vz a) * k)"

text \<open>What three.js documents of these operations.\<close>

definition three_vectors :: "three \<Rightarrow> bool" where
  "three_vectors T \<longleftrightarrow> t_add T = vadd \<and> t_scale T = vec3Mul \<and> t_lerp T = vlerp"

definition three_clamp :: "three \<Rightarrow> bool" where
  "three_clamp T \<longleftrightarrow> (\<forall>x lo hi. t_clamp T x lo hi = max lo (min hi x))"

definition three_directions :: "three \<Rightarrow> bool" where
  "three_directions T \<longleftrightarrow> (\<forall>v. t_length T v = vec3Len v) \<and>
     (\<forall>v. vec3Len v > 0 \<longrightarrow> vec3Len (t_normalize T v) = 1) \<and>
     (\<forall>y v. vec3Len (t_eulerY T y v) = vec3Len v)"

section \<open>Players\<close>

record keys =
  k_w :: bool
  k_a :: bool
  k_s :: bool
  k_d :: bool
  k_space :: bool
  k_shift :: bool
  k_r :: bool

definition noKeys :: keys where
  "noKeys = \<lparr>k_w = False, k_a = False, k_s = False, k_d = False, k_space = False, k_shift = False, k_r = False\<rparr>"

text \<open>The joints that the animation turns.\<close>

record limbs =
  l_bodyY :: real
  l_bodyLean :: real
  l_leftLeg :: real
  l_rightLeg :: real
  l_leftArm :: real
  l_rightArm :: real
  l_leftArmZ :: real
  l_rightArmZ :: real

definition restLimbs :: limbs where
  "restLimbs = \<lparr>l_bodyY = 75 / 100, l_bodyLean = 0, l_leftLeg = 0, l_rightLeg = 0, l_leftArm = 0,
     l_rightArm = 0, l_leftArmZ = 0, l_rightArmZ = 0\<rparr>"

record colours =
  col_skin :: "nat option"
  col_shirt :: "nat option"
  col_pants :: "nat option"

text \<open>The glow of a mesh of the snowman model; the loader gives every mesh a material.\<close>

record glow =
  gl_emissive :: "nat option"
  gl_intensity :: real

record player_model =
  pm_id :: jsstr
  pm_isRemote :: bool
  pm_name :: jsval
  pm_pingMs :: "jsnum option"
  pm_dead :: bool
  pm_health :: int
  pm_lastShotAt :: real
  pm_isBot :: bool
  pm_velocity :: vec3
  pm_onGround :: bool
  pm_isCrouching :: bool
  pm_targetCrouch :: bool
  pm_input :: keys
  pm_targetPos :: vec3
  pm_targetRotY :: real
  pm_targetVel :: vec3
  pm_baseColors :: colours
  pm_shown :: colours
  pm_hitFlashTime :: real
  pm_pos :: vec3
  pm_rotX :: real
  pm_rotY :: real
  pm_visible :: bool
  pm_walkTime :: real
  pm_attackTime :: real
  pm_limbs :: limbs
  pm_chat :: "jsstr option"
  pm_lastHpAt :: "int option"
  pm_snowman :: "glow list option"

text \<open>\<open>(name && name.trim()) ? name.trim() : id\<close>.\<close>

definition paletteKey :: "jsval \<Rightarrow> jsstr \<Rightarrow> js_err + jsstr" where
  "paletteKey name pid =
     (if \<not> truthy name then Inr pid
      else case name of
        JStr s \<Rightarrow> Inr (if trim s \<noteq> [] then trim s else pid)
      | _ \<Rightarrow> Inl TypeError)"

definition newPlayerModel ::
  "platform \<Rightarrow> real \<Rightarrow> jsstr \<Rightarrow> vec3 \<Rightarrow> jsval \<Rightarrow> bool \<Rightarrow> js_err + player_model" where
  "newPlayerModel P worldSeed pid pos name isRemote =
     ebind (paletteKey name pid) (\<lambda>key.
       let pastel = pickPastelPair key;
           base = \<lparr>col_skin = Some 0xFACC9E, col_shirt = fst pastel, col_pants = snd pastel\<rparr>;
           initialY = (if isRemote then vy pos else terrainHeight worldSeed (vx pos) (vz pos))
       in Inr \<lparr>pm_id = pid, pm_isRemote = isRemote, pm_name = fixUTF8 P name, pm_pingMs = None,
            pm_dead = False, pm_health = 100, pm_lastShotAt = 0,
            pm_isBot = startsWith pid (jslit ''bot-''), pm_velocity = vec 0 0 0, pm_onGround = False,
            pm_isCrouching = False, pm_targetCrouch = False, pm_input = noKeys,
            pm_targetPos = vec (vx pos) (vy pos) (vz pos), pm_targetRotY = 0, pm_targetVel = vec 0 0 0,
            pm_baseColors = base, pm_shown = base, pm_hitFlashTime = 0,
            pm_pos = vec (vx pos) initialY (vz pos), pm_rotX = 0, pm_rotY = 0, pm_visible = True,
            pm_walkTime = 0, pm_attackTime = 0, pm_limbs = restLimbs, pm_chat = None, pm_lastHpAt = None,
            pm_snowman = None\<rparr>)"

text \<open>
  A bot is drawn by a snowman, with or without hat by a random number. The model arrives later, with
  the glow its file gives each mesh.
\<close>

definition loadSnowmanModel :: "real \<Rightarrow> string" where
  "loadSnowmanModel random =
     ''/assets/kenney_holiday_kit/Models/GLB format/'' @ (if random > 1 / 2 then ''snowman-hat.glb'' else ''snowman.glb'')"

definition snowmanLoaded :: "glow list \<Rightarrow> player_model \<Rightarrow> player_model" where
  "snowmanLoaded meshes p = p\<lparr>pm_snowman := Some meshes\<rparr>"

definition onHit :: "player_model \<Rightarrow> player_model" where
  "onHit p = p\<lparr>pm_hitFlashTime := 25 / 100\<rparr>"

definition updateNameLabel :: "platform \<Rightarrow> jsval \<Rightarrow> player_model \<Rightarrow> player_model" where
  "updateNameLabel P name p =
     (let fixedName = fixUTF8 P name in if pm_name p = fixedName then p else p\<lparr>pm_name := fixedName\<rparr>)"

definition updatePing :: "jsnum \<Rightarrow> player_model \<Rightarrow> player_model" where
  "updatePing ping p = p\<lparr>pm_pingMs := Some ping\<rparr>"

definition showChat :: "jsstr \<Rightarrow> player_model \<Rightarrow> player_model" where
  "showChat txt p = p\<lparr>pm_chat := Some txt\<rparr>"

text \<open>The timer of a chat bubble, which a newer bubble replaces.\<close>

definition hideChat :: "player_model \<Rightarrow> player_model" where
  "hideChat p = p\<lparr>pm_chat := None\<rparr>"

definition setRemoteTarget ::
  "three \<Rightarrow> vec3 \<Rightarrow> real \<Rightarrow> vec3 \<Rightarrow> bool \<Rightarrow> player_model \<Rightarrow> player_model" where
  "setRemoteTarget T pos rotY vel crouch p =
     (let half = c_mapHalf CLIENT_CONFIG;
          clampedX = t_clamp T (vx pos) (- half) half;
          clampedZ = t_clamp T (vz pos) (- half) half
      in p\<lparr>pm_targetPos := vec clampedX (vy pos) clampedZ, pm_targetRotY := rotY,
           pm_targetVel := vec (vx vel) (vy vel) (vz vel), pm_targetCrouch := crouch\<rparr>)"

text \<open>
  \<open>throwSnowball\<close>: nothing while dead or within the cooldown; otherwise the changed player with the
  origin and the direction of the ball.
\<close>

definition throwSnowball :: "three \<Rightarrow> real \<Rightarrow> real \<Rightarrow> player_model \<Rightarrow> (player_model \<times> vec3 \<times> vec3) option" where
  "throwSnowball T now cameraPitch p =
     (if pm_dead p then None
      else if now - pm_lastShotAt p < c_snowballCooldown CLIENT_CONFIG then None
      else
        let dir = t_normalize T (t_eulerYXZ T cameraPitch (pm_rotY p) (vec 0 0 (-1)));
            origin = (pm_pos p)\<lparr>vy := vy (pm_pos p) + 14 / 10\<rparr>;
            origin = t_add T origin (t_scale T dir (5 / 10))
        in Some (p\<lparr>pm_lastShotAt := now, pm_attackTime := 1\<rparr>, origin, dir))"

definition applyKnockback :: "vec3 \<Rightarrow> player_model \<Rightarrow> player_model" where
  "applyKnockback impulse p =
     (let v = pm_velocity p
      in p\<lparr>pm_velocity := vec (vx v + vx impulse) (vy v + vy impulse) (vz v + vz impulse),
           pm_onGround := False\<rparr>)"

section \<open>A frame of a player\<close>

text \<open>The two loops that bring the current angle within half a turn of the target.\<close>

function turnUp :: "real \<Rightarrow> real \<Rightarrow> real" where
  "turnUp tarY curY = (if tarY - curY > pi then turnUp tarY (curY + pi * 2) else curY)"
  by pat_completeness auto

function turnDown :: "real \<Rightarrow> real \<Rightarrow> real" where
  "turnDown tarY curY = (if tarY - curY < - pi then turnDown tarY (curY - pi * 2) else curY)"
  by pat_completeness auto

text \<open>Each round takes a full turn off the distance, which stays above half a turn until the end.\<close>

lemma turn_decreases:
  assumes "d > pi"
  shows "nat \<lceil>(d - pi * 2) / (pi * 2) + 1\<rceil> < nat \<lceil>d / (pi * 2) + 1\<rceil>"
proof -
  have "(d - pi * 2) / (pi * 2) + 1 = d / (pi * 2)" by (simp add: diff_divide_distrib)
  moreover have "\<lceil>d / (pi * 2) + 1\<rceil> = \<lceil>d / (pi * 2)\<rceil> + 1" by simp
  moreover have "0 < d / (pi * 2)" using assms pi_gt_zero by (intro divide_pos_pos) linarith+
  ultimately show ?thesis by (simp add: nat_less_eq_zless)
qed

termination turnUp
proof (relation "measure (\<lambda>(t, c). nat \<lceil>(t - c) / (pi * 2) + 1\<rceil>)")
  fix t c :: real
  assume "t - c > pi"
  from turn_decreases [OF this] show "((t, c + pi * 2), t, c) \<in> measure (\<lambda>(t, c). nat \<lceil>(t - c) / (pi * 2) + 1\<rceil>)"
    by (simp add: diff_diff_eq)
qed simp

termination turnDown
proof (relation "measure (\<lambda>(t, c). nat \<lceil>(c - t) / (pi * 2) + 1\<rceil>)")
  fix t c :: real
  assume "t - c < - pi"
  then have "c - t > pi" by simp
  from turn_decreases [OF this] have "nat \<lceil>(c - pi * 2 - t) / (pi * 2) + 1\<rceil> < nat \<lceil>(c - t) / (pi * 2) + 1\<rceil>"
    by (simp add: algebra_simps)
  then show "((t, c - pi * 2), t, c) \<in> measure (\<lambda>(t, c). nat \<lceil>(c - t) / (pi * 2) + 1\<rceil>)" by simp
qed simp

declare turnUp.simps [simp del] turnDown.simps [simp del]

definition remoteStep :: "three \<Rightarrow> real \<Rightarrow> player_model \<Rightarrow> player_model" where
  "remoteStep T dt p =
     (let k = 1 - exp (- c_remoteLerp CLIENT_CONFIG * dt);
          pos = t_lerp T (pm_pos p) (pm_targetPos p) k;
          tarY = pm_targetRotY p;
          curY = turnDown tarY (turnUp tarY (pm_rotY p))
      in p\<lparr>pm_pos := pos, pm_rotY := curY + (tarY - curY) * k,
           pm_velocity := t_lerp T (pm_velocity p) (pm_targetVel p) k, pm_isCrouching := pm_targetCrouch p\<rparr>)"

definition moveDirection :: "keys \<Rightarrow> vec3" where
  "moveDirection i =
     (let z = 0; z = (if k_w i then z - 1 else z); z = (if k_s i then z + 1 else z);
          x = 0; x = (if k_a i then x - 1 else x); x = (if k_d i then x + 1 else x)
      in vec x 0 z)"

text \<open>The local player: keys, friction, gravity, jump, spin, move, map edge, ground.\<close>

definition pushVelocity :: "three \<Rightarrow> real \<Rightarrow> player_model \<Rightarrow> vec3" where
  "pushVelocity T dt p =
     (let speed = (if k_shift (pm_input p) then c_crouchSpeed CLIENT_CONFIG else c_moveSpeed CLIENT_CONFIG);
          moveDir = moveDirection (pm_input p);
          v = pm_velocity p
      in if t_length T moveDir > 0 then
           (let moveDir = t_eulerY T (pm_rotY p) (t_normalize T moveDir)
            in vec (vx v + vx moveDir * speed * dt * 8) (vy v) (vz v + vz moveDir * speed * dt * 8))
         else v)"

text \<open>Friction, gravity and the jump: the velocity, the flag and the keys after them.\<close>

definition jumpVelocity :: "three \<Rightarrow> real \<Rightarrow> player_model \<Rightarrow> vec3 \<times> bool \<times> keys" where
  "jumpVelocity T dt p =
     (let v = pushVelocity T dt p;
          friction = (if pm_onGround p then exp (- 10 * dt) else exp (- 2 * dt));
          v = vec (vx v * friction) (vy v - c_gravity CLIENT_CONFIG * dt) (vz v * friction);
          i = pm_input p
      in if k_space i \<and> pm_onGround p
         then (v\<lparr>vy := c_jumpForce CLIENT_CONFIG\<rparr>, False, i\<lparr>k_space := False\<rparr>)
         else (v, pm_onGround p, i))"

definition clampToMap :: "three \<Rightarrow> vec3 \<Rightarrow> vec3" where
  "clampToMap T pos =
     (let half = c_mapHalf CLIENT_CONFIG
      in vec (t_clamp T (vx pos) (- half) half) (vy pos) (t_clamp T (vz pos) (- half) half))"

definition landing :: "real \<Rightarrow> vec3 \<Rightarrow> vec3 \<Rightarrow> bool \<Rightarrow> vec3 \<times> vec3 \<times> bool" where
  "landing worldSeed pos v onGround =
     (let groundY = groundHeightWithObstacles worldSeed (vx pos) (vz pos)
      in if vy pos \<le> groundY then (pos\<lparr>vy := groundY\<rparr>, v\<lparr>vy := 0\<rparr>, True) else (pos, v, onGround))"

definition localStep :: "three \<Rightarrow> real \<Rightarrow> real \<Rightarrow> player_model \<Rightarrow> real \<Rightarrow> player_model \<times> real" where
  "localStep T worldSeed dt p cameraYaw =
     (let (v, onGround, i) = jumpVelocity T dt p;
          rotY = (if k_r i then pm_rotY p + 20 * dt else pm_rotY p);
          cameraYaw = (if k_r i then rotY else cameraYaw);
          pos = clampToMap T (t_add T (pm_pos p) (t_scale T v dt));
          (pos, v, onGround) = landing worldSeed pos v onGround
      in (p\<lparr>pm_isCrouching := k_shift (pm_input p), pm_velocity := v, pm_onGround := onGround, pm_input := i,
            pm_rotY := rotY, pm_pos := pos\<rparr>, cameraYaw))"

text \<open>\<open>updateAnimation\<close>; \<open>clockMs\<close> is \<open>Date.now()\<close>.\<close>

definition swing :: "player_model \<Rightarrow> real \<Rightarrow> limbs \<Rightarrow> limbs" where
  "swing p walkTime l =
     (let amp = (if pm_isCrouching p then 0 else 6 / 10);
          angle = sin walkTime * amp;
          l = l\<lparr>l_leftLeg := angle, l_rightLeg := - angle, l_leftArm := - angle, l_rightArm := angle,
                l_leftArmZ := 0, l_rightArmZ := 0\<rparr>
      in if pm_isCrouching p then l\<lparr>l_leftArm := 5 / 10, l_rightArm := 5 / 10\<rparr> else l)"

definition rest :: "three \<Rightarrow> real \<Rightarrow> real \<Rightarrow> player_model \<Rightarrow> limbs \<Rightarrow> limbs" where
  "rest T dt clockMs p l =
     (let lerpSpeed = dt * 10;
          breath = sin (clockMs / 300) * (2 / 100);
          l = l\<lparr>l_leftLeg := t_mlerp T (l_leftLeg l) 0 lerpSpeed,
                l_rightLeg := t_mlerp T (l_rightLeg l) 0 lerpSpeed,
                l_leftArmZ := 5 / 100 + breath, l_rightArmZ := - (5 / 100) - breath\<rparr>
      in if pm_attackTime p \<le> 0 then
           l\<lparr>l_leftArm := t_mlerp T (l_leftArm l) 0 lerpSpeed, l_rightArm := t_mlerp T (l_rightArm l) 0 lerpSpeed\<rparr>
         else l)"

definition updateAnimation :: "three \<Rightarrow> real \<Rightarrow> real \<Rightarrow> player_model \<Rightarrow> player_model" where
  "updateAnimation T dt clockMs p =
     (let hSpeed = hypot2 (vx (pm_velocity p)) (vz (pm_velocity p));
          isMoving = hSpeed > 1 / 10;
          l = pm_limbs p;
          targetBodyY = (if pm_isCrouching p then 60 / 100 else 75 / 100);
          l = l\<lparr>l_bodyY := t_mlerp T (l_bodyY l) targetBodyY (dt * 15)\<rparr>;
          targetLean = (if pm_isCrouching p then - (8 / 10) else 0);
          l = l\<lparr>l_bodyLean := t_mlerp T (l_bodyLean l) targetLean (dt * 10)\<rparr>;
          animSpeed = (if pm_isCrouching p then 6 else 10);
          walkTime = (if isMoving then pm_walkTime p + dt * animSpeed else pm_walkTime p);
          l = (if isMoving then swing p walkTime l else rest T dt clockMs p l);
          attackTime = (if pm_attackTime p > 0 then pm_attackTime p - dt * 4 else pm_attackTime p);
          phase = 1 - attackTime;
          armRot = (if phase < 2 / 10 then - pi / 2 * (phase / (2 / 10))
                    else - pi / 2 + (pi / (15 / 10)) * ((phase - 2 / 10) / (8 / 10)));
          l = (if pm_attackTime p > 0 then l\<lparr>l_rightArm := armRot\<rparr> else l)
      in p\<lparr>pm_walkTime := walkTime, pm_attackTime := attackTime, pm_limbs := l\<rparr>)"

text \<open>
  The flash after a hit: a player changes colour, the meshes of a loaded snowman glow red and fade.
  The list of original materials that guards both branches holds every mesh of the model, so it is
  missing only when there is no mesh to change.
\<close>

definition flashColours :: colours where
  "flashColours = \<lparr>col_skin = Some 0xFF4444, col_shirt = Some 0xFF4444, col_pants = Some 0xFF4444\<rparr>"

definition redGlow :: "real \<Rightarrow> glow" where
  "redGlow t = \<lparr>gl_emissive = Some 0xFF0000, gl_intensity = max (t / (25 / 100)) 0 * (5 / 10)\<rparr>"

definition noGlow :: glow where
  "noGlow = \<lparr>gl_emissive = Some 0x000000, gl_intensity = 0\<rparr>"

definition setGlow :: "glow \<Rightarrow> player_model \<Rightarrow> player_model" where
  "setGlow g p = p\<lparr>pm_snowman := map_option (map (\<lambda>_. g)) (pm_snowman p)\<rparr>"

definition updateFlash :: "real \<Rightarrow> player_model \<Rightarrow> player_model" where
  "updateFlash dt p =
     (if pm_hitFlashTime p > 0 then
        (let p = p\<lparr>pm_hitFlashTime := pm_hitFlashTime p - dt\<rparr>
         in if pm_isBot p then setGlow (redGlow (pm_hitFlashTime p)) p else p\<lparr>pm_shown := flashColours\<rparr>)
      else if pm_isBot p then setGlow noGlow p else p\<lparr>pm_shown := pm_baseColors p\<rparr>)"

definition updatePlayer ::
  "three \<Rightarrow> real \<Rightarrow> real \<Rightarrow> real \<Rightarrow> player_model \<Rightarrow> real \<Rightarrow> player_model \<times> real" where
  "updatePlayer T worldSeed dt clockMs p cameraYaw =
     (if pm_dead p then
        (p\<lparr>pm_rotX := - pi / 2,
           pm_pos := (pm_pos p)\<lparr>vy := groundHeightWithObstacles worldSeed (vx (pm_pos p)) (vz (pm_pos p)) + 2 / 10\<rparr>\<rparr>,
         cameraYaw)
      else
        let p = p\<lparr>pm_rotX := 0\<rparr>
        in if \<not> pm_isRemote p \<and> pm_isBot p then (p, cameraYaw)
           else
             let (p, cameraYaw) = (if pm_isRemote p then (remoteStep T dt p, cameraYaw)
                                   else localStep T worldSeed dt p cameraYaw);
                 p = (if pm_isBot p then p else updateAnimation T dt clockMs p)
             in (updateFlash dt p, cameraYaw))"

section \<open>Snowballs\<close>

record box =
  bx_min :: vec3
  bx_max :: vec3

record snowball =
  sb_id :: jsstr
  sb_active :: bool
  sb_ownerId :: jsstr
  sb_pos :: vec3
  sb_velocity :: vec3
  sb_spin :: real

definition newSnowball :: "three \<Rightarrow> jsstr \<Rightarrow> vec3 \<Rightarrow> vec3 \<Rightarrow> jsstr \<Rightarrow> snowball" where
  "newSnowball T bid pos dir ownerId =
     \<lparr>sb_id = bid, sb_active = True, sb_ownerId = ownerId, sb_pos = pos,
      sb_velocity = t_scale T (vec (vx dir) (vy dir) (vz dir)) (c_snowballSpeed CLIENT_CONFIG), sb_spin = 0\<rparr>"

text \<open>\<open>destroy\<close>, without its removal from the table of snowballs, which its callers do.\<close>

definition destroyBall :: "snowball \<Rightarrow> snowball" where
  "destroyBall b = b\<lparr>sb_active := False\<rparr>"

definition hitsBox :: "vec3 \<Rightarrow> box \<Rightarrow> bool" where
  "hitsBox p b =
     (let radius = 2 / 10
      in if vy p + radius < vy (bx_min b) \<or> vy p - radius > vy (bx_max b) then False
         else
           let minX = vx (bx_min b) - radius; maxX = vx (bx_max b) + radius;
               minZ = vz (bx_min b) - radius; maxZ = vz (bx_max b) + radius
           in vx p \<ge> minX \<and> vx p \<le> maxX \<and> vz p \<ge> minZ \<and> vz p \<le> maxZ)"

fun obstacleLoop :: "vec3 \<Rightarrow> box list \<Rightarrow> bool" where
  "obstacleLoop p [] = False"
| "obstacleLoop p (b # bs) = (if hitsBox p b then True else obstacleLoop p bs)"

definition updateSnowball :: "three \<Rightarrow> real \<Rightarrow> box list \<Rightarrow> real \<Rightarrow> snowball \<Rightarrow> snowball" where
  "updateSnowball T worldSeed obstacles dt b =
     (if \<not> sb_active b then b
      else
        let v = (sb_velocity b)\<lparr>vy := vy (sb_velocity b) - c_gravity CLIENT_CONFIG * dt\<rparr>;
            pos = t_add T (sb_pos b) (t_scale T v dt);
            b = b\<lparr>sb_velocity := v, sb_pos := pos, sb_spin := sb_spin b + dt * 10\<rparr>;
            groundY = terrainHeight worldSeed (vx pos) (vz pos)
        in if vy pos \<le> groundY then destroyBall b
           else if obstacleLoop pos obstacles then destroyBall b
           else b)"

section \<open>Lemmas: turning\<close>

lemma turnUp_props:
  "\<exists>n :: nat. turnUp t c = c + 2 * pi * real n \<and> (n = 0 \<or> t - turnUp t c > - pi)" "t - turnUp t c \<le> pi"
proof (induction t c rule: turnUp.induct)
  case (1 t c)
  {
    case 1
    show ?case
    proof (cases "t - c > pi")
      case True
      then obtain n :: nat where n: "turnUp t (c + pi * 2) = c + pi * 2 + 2 * pi * real n"
        "n = 0 \<or> t - turnUp t (c + pi * 2) > - pi"
        using \<open>t - c > pi \<Longrightarrow> \<exists>n. _ n\<close> by blast
      then have "turnUp t c = c + 2 * pi * real (Suc n)" "t - turnUp t c > - pi"
        using True by (subst turnUp.simps, simp add: algebra_simps, subst turnUp.simps, auto)
      then show ?thesis by blast
    next
      case False
      then show ?thesis by (intro exI [of _ 0]) (simp add: turnUp.simps)
    qed
  }
  {
    case 2
    show ?case using 1 by (cases "t - c > pi") (simp_all add: turnUp.simps [of t c])
  }
qed

lemma turnDown_mirror: "turnDown t c = - turnUp (- t) (- c)"
proof (induction t c rule: turnDown.induct)
  case (1 t c)
  show ?case
  proof (cases "t - c < - pi")
    case True
    then have "turnUp (- t) (- c) = turnUp (- t) (- c + pi * 2)" by (subst turnUp.simps) simp
    then show ?thesis using 1 True by (simp add: turnDown.simps [of t c])
  next
    case False
    then have "turnUp (- t) (- c) = - c" by (subst turnUp.simps) simp
    then show ?thesis using False by (simp add: turnDown.simps [of t c])
  qed
qed

text \<open>After both loops the angle is the old one up to full turns, at most half a turn from the target.\<close>

lemma turned:
  "\<exists>n :: int. turnDown t (turnUp t c) = c + 2 * pi * of_int n" "\<bar>t - turnDown t (turnUp t c)\<bar> \<le> pi"
proof -
  let ?u = "turnUp t c"
  obtain n :: nat where n: "?u = c + 2 * pi * real n" "n = 0 \<or> t - ?u > - pi" "t - ?u \<le> pi"
    using turnUp_props by blast
  obtain m :: nat where m: "turnUp (- t) (- ?u) = - ?u + 2 * pi * real m"
      "m = 0 \<or> - t - turnUp (- t) (- ?u) > - pi" "- t - turnUp (- t) (- ?u) \<le> pi"
    using turnUp_props by blast
  have d: "turnDown t ?u = ?u - 2 * pi * real m" using m(1) by (simp add: turnDown_mirror)
  then have "turnDown t ?u = c + 2 * pi * of_int (int n - int m)" using n(1) by (simp add: algebra_simps)
  then show "\<exists>n :: int. turnDown t ?u = c + 2 * pi * of_int n" by blast
  have "t - turnDown t ?u \<le> pi" using m(1,2) n(3) by (auto simp: turnDown_mirror)
  moreover have "- pi \<le> t - turnDown t ?u" using m(3) by (simp add: turnDown_mirror)
  ultimately show "\<bar>t - turnDown t ?u\<bar> \<le> pi" by (simp add: abs_le_iff)
qed

section \<open>Properties of players\<close>

lemma lerp_distance: "\<bar>(a + (b - a) * (1 - e)) - b\<bar> = \<bar>e\<bar> * \<bar>a - b\<bar>" for a b e :: real
proof -
  have "(a + (b - a) * (1 - e)) - b = e * (a - b)" by (simp add: algebra_simps)
  then show ?thesis by (simp add: abs_mult)
qed

text \<open>The rounds that the first loop makes, and how many they are at least.\<close>

function turnUpRounds :: "real \<Rightarrow> real \<Rightarrow> nat" where
  "turnUpRounds tarY curY = (if tarY - curY > pi then Suc (turnUpRounds tarY (curY + pi * 2)) else 0)"
  by pat_completeness auto
termination
proof (relation "measure (\<lambda>(t, c). nat \<lceil>(t - c) / (pi * 2) + 1\<rceil>)")
  fix t c :: real
  assume "t - c > pi"
  from turn_decreases [OF this] show "((t, c + pi * 2), t, c) \<in> measure (\<lambda>(t, c). nat \<lceil>(t - c) / (pi * 2) + 1\<rceil>)"
    by (simp add: diff_diff_eq)
qed simp

declare turnUpRounds.simps [simp del]

lemma turnUp_rounds: "turnUp t c = c + pi * 2 * real (turnUpRounds t c)"
proof (induction t c rule: turnUp.induct)
  case (1 t c)
  then show ?case
    by (cases "t - c > pi") (simp_all add: turnUp.simps [of t c] turnUpRounds.simps [of t c] algebra_simps)
qed

lemma turnUpRounds_many:
  assumes "c + pi * 2 * real n + pi \<le> t"
  shows "n \<le> turnUpRounds t c"
proof -
  have "pi * 2 * real n \<le> pi * 2 * real (turnUpRounds t c)"
    using turnUp_props(2) [of t c] assms unfolding turnUp_rounds by linarith
  then show ?thesis by simp
qed

lemma turned_closer: "\<bar>turnDown t (turnUp t c) - t\<bar> \<le> \<bar>c - t\<bar>"
proof (cases "\<bar>c - t\<bar> \<le> pi")
  case True
  then have "turnUp t c = c" "turnDown t c = c"
    by (subst turnUp.simps, simp add: abs_le_iff, subst turnDown.simps, simp add: abs_le_iff)
  then show ?thesis by simp
next
  case False
  then show ?thesis using turned(2) [of t c] by (simp add: abs_minus_commute)
qed

text \<open>How far a remote player is from its target: coordinates and angle.\<close>

definition apart :: "player_model \<Rightarrow> real list" where
  "apart p = [\<bar>vx (pm_pos p) - vx (pm_targetPos p)\<bar>, \<bar>vy (pm_pos p) - vy (pm_targetPos p)\<bar>,
     \<bar>vz (pm_pos p) - vz (pm_targetPos p)\<bar>, \<bar>pm_rotY p - pm_targetRotY p\<bar>]"

lemma remoteStep_apart:
  assumes "three_vectors T"
  shows "list_all2 (\<lambda>a b. a \<le> exp (- 12 * dt) * b) (apart (remoteStep T dt p)) (apart p)"
proof -
  let ?c = "turnDown (pm_targetRotY p) (turnUp (pm_targetRotY p) (pm_rotY p))"
  have l: "t_lerp T = vlerp" using assms by (simp add: three_vectors_def)
  have k: "c_remoteLerp CLIENT_CONFIG = 12" by (simp add: CLIENT_CONFIG_def)
  have r: "pm_rotY (remoteStep T dt p) = ?c + (pm_targetRotY p - ?c) * (1 - exp (- 12 * dt))"
    "pm_pos (remoteStep T dt p) = vlerp (pm_pos p) (pm_targetPos p) (1 - exp (- 12 * dt))"
    "pm_targetPos (remoteStep T dt p) = pm_targetPos p" "pm_targetRotY (remoteStep T dt p) = pm_targetRotY p"
    unfolding remoteStep_def Let_def l k by simp_all
  show ?thesis
    unfolding apart_def r vlerp_def vec_sel lerp_distance
    using mult_left_mono [OF turned_closer [of "pm_targetRotY p" "pm_rotY p"], of "exp (- 12 * dt)"] by simp
qed

lemma frames_apart:
  assumes "three_vectors T"
  shows "list_all2 (\<lambda>a b. a \<le> exp (- 12 * sum_list dts) * b) (apart (foldl (\<lambda>p dt. remoteStep T dt p) p dts)) (apart p)"
proof (induction dts arbitrary: p)
  case (Cons dt dts)
  let ?q = "foldl (\<lambda>p dt. remoteStep T dt p) (remoteStep T dt p) dts"
  have "a \<le> exp (- 12 * (dt + sum_list dts)) * c"
    if "a \<le> exp (- 12 * sum_list dts) * b" "b \<le> exp (- 12 * dt) * c" for a b c
  proof -
    have "a \<le> exp (- 12 * sum_list dts) * (exp (- 12 * dt) * c)"
      by (rule order_trans [OF that(1)]) (rule mult_left_mono [OF that(2)], simp)
    then show ?thesis by (simp add: distrib_left exp_add mult_ac flip: exp_add)
  qed
  from list_all2_trans [OF this Cons.IH [of "remoteStep T dt p"] remoteStep_apart [OF assms]]
  show ?case by simp
qed (simp add: apart_def)


text \<open>A library that does what is documented, for the witnesses.\<close>

definition ex_three :: three where
  "ex_three = \<lparr>t_add = vadd, t_scale = vec3Mul, t_lerp = vlerp, t_length = vec3Len,
     t_distance = (\<lambda>a b. hypot3 (vx a - vx b) (vy a - vy b) (vz a - vz b)),
     t_normalize = vec3Normalize, t_eulerY = (\<lambda>y v. v), t_eulerYXZ = (\<lambda>x y v. v),
     t_clamp = (\<lambda>x lo hi. max lo (min hi x)), t_mlerp = (\<lambda>a b k. a + (b - a) * k)\<rparr>"

lemma ex_three_ok: "three_vectors ex_three" "three_clamp ex_three" "three_directions ex_three"
proof -
  have "vec3Len (vec3Normalize v) = 1" if "vec3Len v > 0" for v
  proof -
    have "v \<noteq> vec 0 0 0" using that by (auto simp: vec3Len_def hypot3_def)
    then show ?thesis using vec3Len_norm [of v] by (simp add: norm_vec_eq_normalize)
  qed
  then show "three_vectors ex_three" "three_clamp ex_three" "three_directions ex_three"
    by (simp_all add: ex_three_def three_vectors_def three_clamp_def three_directions_def)
qed

definition ex_player :: "vec3 \<Rightarrow> player_model" where
  "ex_player pos =
     \<lparr>pm_id = [], pm_isRemote = False, pm_name = JNull, pm_pingMs = None, pm_dead = False, pm_health = 100,
      pm_lastShotAt = 0, pm_isBot = False, pm_velocity = vec 0 0 0, pm_onGround = True, pm_isCrouching = False,
      pm_targetCrouch = False, pm_input = noKeys\<lparr>k_w := True\<rparr>, pm_targetPos = vec 0 0 0, pm_targetRotY = 7,
      pm_targetVel = vec 0 0 0, pm_baseColors = flashColours, pm_shown = flashColours, pm_hitFlashTime = 0,
      pm_pos = pos, pm_rotX = 0, pm_rotY = 0, pm_visible = True, pm_walkTime = 0, pm_attackTime = 0,
      pm_limbs = restLimbs, pm_chat = None, pm_lastHpAt = None, pm_snowman = None\<rparr>"


lemma hypot2_triangle: "hypot2 (a + c) (b + d) \<le> hypot2 a b + hypot2 c d"
  unfolding hypot2_def by (rule real_sqrt_sum_squares_triangle_ineq)

lemma hypot2_scale: "0 \<le> k \<Longrightarrow> hypot2 (a * k) (b * k) = hypot2 a b * k"
proof -
  assume k: "0 \<le> k"
  have "(a * k)\<^sup>2 + (b * k)\<^sup>2 = (a\<^sup>2 + b\<^sup>2) * k\<^sup>2" by (simp add: power_mult_distrib algebra_simps)
  then show ?thesis using k by (simp add: hypot2_def real_sqrt_mult)
qed

lemma hypot2_le_len: "hypot2 (vx v) (vz v) \<le> vec3Len v"
  unfolding hypot2_def vec3Len_def hypot3_def by (rule real_sqrt_le_mono) simp

text \<open>The horizontal speed of a player.\<close>

definition hSpeed :: "vec3 \<Rightarrow> real" where
  "hSpeed v = hypot2 (vx v) (vz v)"

lemma pushVelocity_speed:
  assumes "three_directions T" "0 \<le> dt"
  shows "hSpeed (pushVelocity T dt p) \<le> hSpeed (pm_velocity p) + 64 * dt"
proof (cases "t_length T (moveDirection (pm_input p)) > 0")
  case False
  then show ?thesis using assms(2) by (simp add: pushVelocity_def Let_def)
next
  case True
  let ?m = "t_eulerY T (pm_rotY p) (t_normalize T (moveDirection (pm_input p)))"
  let ?s = "if k_shift (pm_input p) then 3 else 8 :: real"
  have "vec3Len ?m = 1" using True assms(1) by (simp add: three_directions_def)
  then have m: "hypot2 (vx ?m) (vz ?m) \<le> 1" using hypot2_le_len [of ?m] by simp
  have k: "0 \<le> ?s * dt * 8" "?s * dt * 8 \<le> 64 * dt" using assms(2) by auto
  have e: "hSpeed (pushVelocity T dt p) =
      hypot2 (vx (pm_velocity p) + vx ?m * (?s * dt * 8)) (vz (pm_velocity p) + vz ?m * (?s * dt * 8))"
    using True by (simp add: hSpeed_def pushVelocity_def Let_def CLIENT_CONFIG_def mult.assoc)
  have "hSpeed (pushVelocity T dt p) \<le> hSpeed (pm_velocity p) + hypot2 (vx ?m * (?s * dt * 8)) (vz ?m * (?s * dt * 8))"
    unfolding e unfolding hSpeed_def by (rule hypot2_triangle)
  also have "hypot2 (vx ?m * (?s * dt * 8)) (vz ?m * (?s * dt * 8)) = hypot2 (vx ?m) (vz ?m) * (?s * dt * 8)"
    by (rule hypot2_scale [OF k(1)])
  also have "hypot2 (vx ?m) (vz ?m) * (?s * dt * 8) \<le> 1 * (64 * dt)"
    by (rule mult_mono [OF m k(2) zero_le_one k(1)])
  finally show ?thesis by simp
qed

lemma friction_bound:
  assumes "s \<le> 32" "0 \<le> dt" "f \<le> exp (- 2 * dt)" "0 \<le> f" "v \<le> s + 64 * dt"
  shows "v * f \<le> (32 :: real)"
proof -
  have "1 + 2 * dt \<le> exp (2 * dt)" by (rule exp_ge_add_one_self)
  then have "32 + 64 * dt \<le> 32 * exp (2 * dt)" by linarith
  then have "(32 + 64 * dt) * exp (- 2 * dt) \<le> 32 * exp (2 * dt) * exp (- 2 * dt)"
    by (rule mult_right_mono) simp
  also have "\<dots> = 32" by (simp add: mult.assoc flip: exp_add)
  finally have "(32 + 64 * dt) * exp (- 2 * dt) \<le> 32" .
  moreover have "v * f \<le> (32 + 64 * dt) * exp (- 2 * dt)"
  proof (cases "0 \<le> v")
    case True
    then show ?thesis using assms by (intro mult_mono) auto
  next
    case False
    then have "v * f \<le> 0" using assms(4) by (simp add: mult_nonpos_nonneg)
    also have "0 \<le> (32 + 64 * dt) * exp (- 2 * dt)" using assms(2) by simp
    finally show ?thesis .
  qed
  ultimately show ?thesis by linarith
qed

lemma jumpVelocity_speed:
  assumes "three_directions T" "0 \<le> dt" "hSpeed (pm_velocity p) \<le> 32" "jumpVelocity T dt p = (v, g, i)"
  shows "hSpeed v \<le> 32"
proof -
  let ?f = "if pm_onGround p then exp (- 10 * dt) else exp (- 2 * dt)"
  let ?u = "pushVelocity T dt p"
  have f: "?f \<le> exp (- 2 * dt)" "0 \<le> ?f" using assms(2) by simp_all
  have "vx v = vx ?u * ?f \<and> vz v = vz ?u * ?f"
    using assms(4) by (auto simp: jumpVelocity_def Let_def split: if_splits)
  then have "hSpeed v = hSpeed ?u * ?f" by (simp only: hSpeed_def hypot2_scale [OF f(2)])
  then show ?thesis using friction_bound [OF assms(3,2) f pushVelocity_speed [OF assms(1,2)]] by simp
qed

lemma clampToMap_bound: "three_clamp T \<Longrightarrow> \<bar>vx (clampToMap T q)\<bar> \<le> 190 \<and> \<bar>vz (clampToMap T q)\<bar> \<le> 190"
  by (auto simp: clampToMap_def three_clamp_def CLIENT_CONFIG_def abs_le_iff max_def min_def)

lemma landing_keeps:
  assumes "landing w q v g = (q', v', g')"
  shows "vx q' = vx q" "vz q' = vz q" "vx v' = vx v" "vz v' = vz v" "terrainHeight w (vx q') (vz q') \<le> vy q'"
  using assms by (auto simp: landing_def groundHeightWithObstacles_def Let_def split: if_splits)



text \<open>The times at which calls of \<open>throwSnowball\<close> throw; between calls only other fields change.\<close>

fun throwTimes :: "three \<Rightarrow> (real \<times> real \<times> (player_model \<Rightarrow> player_model)) list \<Rightarrow> player_model \<Rightarrow> real list" where
  "throwTimes T [] p = []"
| "throwTimes T ((now, pitch, change) # calls) p =
     (case throwSnowball T now pitch p of
        None \<Rightarrow> throwTimes T calls (change p)
      | Some (p', _) \<Rightarrow> now # throwTimes T calls (change p'))"

lemma throwSnowball_Some:
  "throwSnowball T now pitch p = Some (p', x) \<Longrightarrow>
   \<not> pm_dead p \<and> pm_lastShotAt p + 250 \<le> now \<and> pm_lastShotAt p' = now"
  by (auto simp: throwSnowball_def Let_def CLIENT_CONFIG_def split: if_splits)

text \<open>
  The cooldown: however often the button is pressed and whatever happens to the player in
  between, two throws are at least 250 milliseconds apart.
\<close>

lemma throws_are_spaced:
  assumes "list_all (\<lambda>(_, _, change). \<forall>q. pm_lastShotAt (change q) = pm_lastShotAt q) calls"
  shows "successively (\<lambda>a b. a + 250 \<le> b) (throwTimes T calls p) \<and>
    (throwTimes T calls p \<noteq> [] \<longrightarrow> pm_lastShotAt p + 250 \<le> hd (throwTimes T calls p))"
  using assms
proof (induction calls arbitrary: p)
  case (Cons call calls)
  obtain now pitch change where call: "call = (now, pitch, change)" by (cases call)
  have ch: "pm_lastShotAt (change q) = pm_lastShotAt q" for q using Cons.prems call by simp
  have "list_all (\<lambda>(_, _, change). \<forall>q. pm_lastShotAt (change q) = pm_lastShotAt q) calls"
    using Cons.prems by simp
  note IH = Cons.IH [OF this, of "change _", unfolded ch]
  show ?case
  proof (cases "throwSnowball T now pitch p")
    case None
    then show ?thesis using IH [of p] call by simp
  next
    case (Some r)
    obtain p' x y where r: "r = (p', x, y)" by (cases r)
    have "pm_lastShotAt p + 250 \<le> now" "pm_lastShotAt p' = now"
      using throwSnowball_Some [OF Some [unfolded r]] by auto
    then show ?thesis
      using IH [of p'] Some r call by (cases "throwTimes T calls (change p')") auto
  qed
qed simp

section \<open>Properties of snowballs\<close>

lemma obstacleLoop_iff: "obstacleLoop p bs \<longleftrightarrow> list_ex (hitsBox p) bs"
  by (induction bs) auto

lemma updateSnowball_active:
  assumes "three_vectors T" "sb_active (updateSnowball T w obs dt b)"
  shows "sb_active b" "vx (sb_velocity (updateSnowball T w obs dt b)) = vx (sb_velocity b)"
    "vz (sb_velocity (updateSnowball T w obs dt b)) = vz (sb_velocity b)"
    "vy (sb_velocity (updateSnowball T w obs dt b)) = vy (sb_velocity b) - 22 * dt"
    "sb_pos (updateSnowball T w obs dt b) =
       vec (vx (sb_pos b) + vx (sb_velocity b) * dt) (vy (sb_pos b) + (vy (sb_velocity b) - 22 * dt) * dt)
         (vz (sb_pos b) + vz (sb_velocity b) * dt)"
  using assms
  by (auto simp: updateSnowball_def Let_def three_vectors_def vadd_def vec3Mul_def CLIENT_CONFIG_def destroyBall_def
      split: if_splits)

text \<open>
  Claim C35. The path of a snowball on the client: as long as it meets neither ground nor obstacle,
  after \<open>n\<close> frames of length \<open>dt\<close> it is on the discrete parabola of speed 28 and gravity 22. The
  server flies the same ball with speed 25 and gravity 20: the picture is ahead by 3 units of the
  direction per second.
\<close>

theorem snowball_path_on_client:
  assumes "three_vectors T" "sb_active ((updateSnowball T w obs dt ^^ n) (newSnowball T bid from dir owner))"
  shows "sb_pos ((updateSnowball T w obs dt ^^ n) (newSnowball T bid from dir owner)) =
      vec (vx from + 28 * vx dir * (real n * dt))
        (vy from + 28 * vy dir * (real n * dt) - 11 * (real n * dt) * (real n * dt + dt))
        (vz from + 28 * vz dir * (real n * dt)) \<and>
    vx (sb_pos ((updateSnowball T w obs dt ^^ n) (newSnowball T bid from dir owner))) -
      vx (snowballPosAt from (vec3Mul dir (snowballSpeed (GAME CONFIG))) (real n * dt)) = 3 * vx dir * (real n * dt)"
proof -
  let ?b = "\<lambda>n. (updateSnowball T w obs dt ^^ n) (newSnowball T bid from dir owner)"
  have "sb_pos (?b n) = vec (vx from + 28 * vx dir * (real n * dt))
        (vy from + 28 * vy dir * (real n * dt) - 11 * (real n * dt) * (real n * dt + dt))
        (vz from + 28 * vz dir * (real n * dt)) \<and>
      vx (sb_velocity (?b n)) = 28 * vx dir \<and> vz (sb_velocity (?b n)) = 28 * vz dir \<and>
      vy (sb_velocity (?b n)) = 28 * vy dir - 22 * (real n * dt)"
    using assms(2)
  proof (induction n)
    case 0
    show ?case
      using assms(1) by (simp add: newSnowball_def three_vectors_def vec3Mul_def CLIENT_CONFIG_def vec_eq_iff)
  next
    case (Suc n)
    have "sb_active (updateSnowball T w obs dt (?b n))" using Suc.prems by simp
    note u = updateSnowball_active [OF assms(1) this]
    note e = Suc.IH [OF u(1)]
    have "?b (Suc n) = updateSnowball T w obs dt (?b n)" by simp
    then show ?case
      using e u(2-4) by (simp only: u(5) vec_sel) (simp add: vec_eq_iff algebra_simps)
  qed
  then show ?thesis by (simp add: snowballPosAt_def vec3Mul_def CONFIG_def algebra_simps)
qed

theorem snowball_path_on_client_witness:
  "sb_pos ((updateSnowball ex_three 0 [] (1 / 2) ^^ 1) (newSnowball ex_three [] (vec 0 100 0) (vec 1 0 0) [])) =
     vec 14 (100 - 11 * (1 / 2)) 0"
proof -
  have "\<not> 89 \<le> terrainHeight 0 14 0" using terrainHeight_abs [of 0 14 0] by linarith
  then have "sb_active ((updateSnowball ex_three 0 [] (1 / 2) ^^ 1)
      (newSnowball ex_three [] (vec 0 100 0) (vec 1 0 0) []))"
    by (simp add: updateSnowball_def newSnowball_def ex_three_def vadd_def vec3Mul_def CLIENT_CONFIG_def Let_def)
  from snowball_path_on_client [OF ex_three_ok(1) this] show ?thesis by simp
qed

text \<open>
  The glow of a bot stays between none and one half, and a frame without a flash turns every mesh
  dark, whatever glow its file gave it: the materials saved when the model was loaded are not
  restored.
\<close>

lemma snowman_glow_bounded:
  assumes "pm_isBot p" "pm_snowman p = Some ms" "pm_hitFlashTime p \<le> 25 / 100" "0 \<le> dt"
  shows "\<exists>ms'. pm_snowman (updateFlash dt p) = Some ms' \<and> length ms' = length ms \<and>
    (\<forall>g \<in> set ms'. 0 \<le> gl_intensity g \<and> gl_intensity g \<le> 1 / 2)"
  using assms by (auto simp: updateFlash_def setGlow_def redGlow_def noGlow_def Let_def max_def)

lemma idle_snowman_goes_dark:
  assumes "pm_isBot p" "pm_snowman p = Some ms" "pm_hitFlashTime p \<le> 0"
  shows "pm_snowman (updateFlash dt p) = Some (replicate (length ms) noGlow)"
  using assms by (simp add: updateFlash_def setGlow_def map_replicate_const)

end
