(* ===== verification/Client_Net.thy ===== *)
theory Client_Net
  imports Client_Scene
begin

text \<open>
  The network part of the browser client, \<open>client_src/network.js\<close>: connection and reconnection, the
  messages of the server, and the tables of players and snowballs. The objects live in a store and
  the tables hold references to them, because the source keeps one object in several tables. Frames
  are cut at their encryption: what is handed to \<open>wsEncode\<close> is recorded in order, and a message of
  the server arrives as the value of \<open>protocol.ts\<close> it was printed from. An exception ends the handler
  of its message and keeps what was changed before it.
\<close>

section \<open>State\<close>

datatype client_msg =
    CHello jsval
  | CPing int
  | CChat jsstr
  | CState vec3 real vec3 bool "int option"
  | CSnowball jsstr vec3 int

datatype ws_state = WsConnecting | WsOpen | WsClosed

record net =
  nm_ws :: "ws_state option"
  nm_connected :: bool
  nm_lastStateSend :: real
  nm_pendingSnapshot :: "snapshot list option"
  nm_lastPingMs :: "int option"
  nm_lastPingSentAt :: real
  nm_pingTimerId :: bool
  nm_playerName :: jsval
  nm_connectAttempts :: nat
  nm_reconnectTimer :: bool
  nm_reloadTimer :: bool
  nm_status :: jsstr
  nm_statusColor :: string

text \<open>The texts of the status line; the first one is in the mark-up.\<close>

definition notConnectedText :: jsstr where
  "notConnectedText = [0xD83D, 0xDD34, 0x0020, 0x672A, 0x8FDE, 0x63A5]"

definition gaveUpText :: jsstr where
  "gaveUpText = [0xD83D, 0xDD34, 0x0020, 0x91CD, 0x8FDE, 0x5931, 0x8D25, 0x0020, 0x0033, 0x0020, 0x6B21, 0xFF0C, 0x0031, 0x0020, 0x79D2, 0x540E, 0x5237, 0x65B0, 0x9875, 0x9762, 0x002E, 0x002E, 0x002E]"

definition intText :: "int \<Rightarrow> jsstr" where
  "intText n = jslit (if n < 0 then CHR ''-'' # decimal (nat (- n)) else decimal (nat n))"

definition retryText :: "nat \<Rightarrow> jsstr" where
  "retryText n = [0xD83D, 0xDFE1, 0x0020, 0x8FDE, 0x63A5, 0x65AD, 0x5F00, 0xFF0C, 0x7B2C, 0x0020] @ jslit (decimal n) @
     [0x0020, 0x6B21, 0x91CD, 0x8FDE, 0xFF08, 0x0031, 0x0020, 0x79D2, 0x540E, 0x91CD, 0x8BD5, 0xFF09, 0x002E, 0x002E, 0x002E]"

definition connectingText :: jsstr where
  "connectingText = [0xD83D, 0xDFE1, 0x0020, 0x8FDE, 0x63A5, 0x4E2D, 0x002E, 0x002E, 0x002E]"

definition connectedText :: jsstr where
  "connectedText = [0xD83D, 0xDFE2, 0x0020, 0x5DF2, 0x8FDE, 0x63A5]"

definition errorText :: "jsstr \<Rightarrow> jsstr" where
  "errorText message = [0xD83D, 0xDD34, 0x0020] @ message"

definition pingText :: "int \<Rightarrow> jsstr" where
  "pingText ms = connectedText @ jslit '' - ping: '' @ intText ms @ jslit '' ms''"

definition status :: "jsstr \<Rightarrow> string \<Rightarrow> net \<Rightarrow> net" where
  "status txt color n =
     (let n = n\<lparr>nm_status := txt\<rparr> in if color \<noteq> [] then n\<lparr>nm_statusColor := color\<rparr> else n)"

text \<open>The address of the socket, from the address of the page.\<close>

definition wsUrl :: "jsstr \<Rightarrow> jsstr \<Rightarrow> jsstr" where
  "wsUrl protocol host =
     (let proto = (if protocol = jslit ''https:'' then ''wss'' else ''ws'')
      in jslit proto @ jslit ''://'' @ host @ jslit ''/ws'')"

definition maxConnectAttempts :: nat where
  "maxConnectAttempts = 3"

definition newNetworkManager :: net where
  "newNetworkManager = \<lparr>nm_ws = None, nm_connected = False, nm_lastStateSend = 0, nm_pendingSnapshot = None,
     nm_lastPingMs = None, nm_lastPingSentAt = 0, nm_pingTimerId = False, nm_playerName = JNull,
     nm_connectAttempts = 0, nm_reconnectTimer = False, nm_reloadTimer = False,
     nm_status = notConnectedText, nm_statusColor = []\<rparr>"

text \<open>A line of the chat log: a message, or the notice of a kill.\<close>

datatype chat_line = ChatLine jsval jsstr | KillLine jsval jsval

record client =
  cl_models :: "player_model list"
  cl_localPlayer :: "nat option"
  cl_localPlayerId :: "jsstr option"
  cl_players :: "nat list"
  cl_playersById :: "(jsstr, nat) jsmap"
  cl_balls :: "snowball list"
  cl_snowballs :: "nat list"
  cl_snowballsById :: "(jsstr, nat) jsmap"
  cl_obstacles :: "box list"
  cl_cameraYaw :: real
  cl_cameraPitch :: real
  cl_worldSeed :: int
  cl_environmentReady :: bool
  cl_deadUI :: bool
  cl_hpUI :: "int \<times> nat"
  cl_chatLog :: "nat \<times> (nat \<times> chat_line) list"
  cl_alert :: "jsstr option"
  cl_flashes :: nat
  cl_net :: net
  cl_sent :: "client_msg list"

definition model :: "('z) client_scheme \<Rightarrow> nat \<Rightarrow> player_model" where
  "model s r = cl_models s ! r"

definition modify :: "nat \<Rightarrow> (player_model \<Rightarrow> player_model) \<Rightarrow> ('z) client_scheme \<Rightarrow> ('z) client_scheme" where
  "modify r f s = s\<lparr>cl_models := (cl_models s)[r := f (cl_models s ! r)]\<rparr>"

definition modNet :: "(net \<Rightarrow> net) \<Rightarrow> ('z) client_scheme \<Rightarrow> ('z) client_scheme" where
  "modNet f s = s\<lparr>cl_net := f (cl_net s)\<rparr>"

definition send :: "client_msg \<Rightarrow> ('z) client_scheme \<Rightarrow> ('z) client_scheme" where
  "send m s = s\<lparr>cl_sent := cl_sent s @ [m]\<rparr>"

definition wsIsOpen :: "('z) client_scheme \<Rightarrow> bool" where
  "wsIsOpen s \<longleftrightarrow> nm_ws (cl_net s) = Some WsOpen"

text \<open>\<open>!localPlayerId\<close>.\<close>

definition noLocalId :: "('z) client_scheme \<Rightarrow> bool" where
  "noLocalId s = (case cl_localPlayerId s of None \<Rightarrow> True | Some pid \<Rightarrow> pid = [])"

definition logChat :: "chat_line \<Rightarrow> ('z) client_scheme \<Rightarrow> ('z) client_scheme" where
  "logChat line s = s\<lparr>cl_chatLog := appendChatLog line (cl_chatLog s)\<rparr>"

lemma modify_flashes [simp]: "cl_flashes (modify r f s) = cl_flashes s"
  by (simp add: modify_def)

section \<open>Players\<close>

text \<open>\<open>new PlayerModel\<close>, \<open>players.push\<close>, \<open>playersById.set\<close>, for a remote player.\<close>

definition addRemote ::
  "platform \<Rightarrow> jsstr \<Rightarrow> vec3 \<Rightarrow> jsval \<Rightarrow> ('z) client_scheme \<Rightarrow> ('z) client_scheme \<times> js_err option" where
  "addRemote P pid pos name s =
     (case newPlayerModel P (of_int (cl_worldSeed s)) pid pos name True of
        Inl e \<Rightarrow> (s, Some e)
      | Inr m \<Rightarrow>
          let r = length (cl_models s)
          in (s\<lparr>cl_models := cl_models s @ [m], cl_players := cl_players s @ [r],
                cl_playersById := map_set pid r (cl_playersById s)\<rparr>, None))"

definition createLocalPlayer ::
  "platform \<Rightarrow> snapshot \<Rightarrow> ('z) client_scheme \<Rightarrow> ('z) client_scheme \<times> js_err option" where
  "createLocalPlayer P snap s =
     (case newPlayerModel P (of_int (cl_worldSeed s)) (ps_id snap) (ps_pos snap) (ps_name snap) False of
        Inl e \<Rightarrow> (s, Some e)
      | Inr m \<Rightarrow>
          let r = length (cl_models s);
              m = m\<lparr>pm_lastHpAt := Some (ps_updatedAt snap), pm_health := ps_hp snap\<rparr>
          in (s\<lparr>cl_models := cl_models s @ [m], cl_localPlayer := Some r, cl_players := cl_players s @ [r],
                cl_playersById := map_set (ps_id snap) r (cl_playersById s),
                cl_cameraYaw := ps_rotY snap, cl_hpUI := setHpUI (ps_hp snap)\<rparr>, None))"

definition removePlayer :: "jsstr \<Rightarrow> ('z) client_scheme \<Rightarrow> ('z) client_scheme" where
  "removePlayer pid s =
     (case map_get (cl_playersById s) pid of
        None \<Rightarrow> s
      | Some r \<Rightarrow>
          s\<lparr>cl_playersById := map_delete pid (cl_playersById s), cl_players := remove1 r (cl_players s)\<rparr>)"

section \<open>Snapshots\<close>

text \<open>\<open>typeof snap.pingMs === "number"\<close> after JSON, which prints an infinite number as \<open>null\<close>.\<close>

definition wirePing :: "jsnum option \<Rightarrow> jsnum option" where
  "wirePing p = (case p of Some (JFin r) \<Rightarrow> Some (JFin r) | _ \<Rightarrow> None)"

definition pingLabel :: "jsnum option \<Rightarrow> nat \<Rightarrow> ('z) client_scheme \<Rightarrow> ('z) client_scheme" where
  "pingLabel p r s = (case wirePing p of Some n \<Rightarrow> modify r (updatePing n) s | None \<Rightarrow> s)"

text \<open>The entry of the local player: hit points are taken unless a newer hit is known.\<close>

definition snapLocal :: "platform \<Rightarrow> snapshot \<Rightarrow> ('z) client_scheme \<Rightarrow> ('z) client_scheme \<times> js_err option" where
  "snapLocal P snap s =
     (let (s, e) = (if cl_localPlayer s = None then createLocalPlayer P snap s else (s, None))
      in case (e, cl_localPlayer s) of
           (None, Some r) \<Rightarrow>
             let snapAt = ps_updatedAt snap;
                 lastHpAt = (case pm_lastHpAt (model s r) of None \<Rightarrow> 0 | Some t \<Rightarrow> t);
                 s = (if snapAt \<ge> lastHpAt
                      then (modify r (\<lambda>m. m\<lparr>pm_health := ps_hp snap, pm_lastHpAt := Some snapAt\<rparr>) s)
                             \<lparr>cl_hpUI := setHpUI (ps_hp snap)\<rparr>
                      else s)
             in (pingLabel (ps_pingMs snap) r s, None)
         | _ \<Rightarrow> (s, e))"

definition snapRemote ::
  "platform \<Rightarrow> three \<Rightarrow> snapshot \<Rightarrow> ('z) client_scheme \<Rightarrow> ('z) client_scheme \<times> js_err option" where
  "snapRemote P T snap s =
     (let (s, e) = (if map_get (cl_playersById s) (ps_id snap) = None
                    then addRemote P (ps_id snap) (ps_pos snap) (ps_name snap) s else (s, None))
      in case (e, map_get (cl_playersById s) (ps_id snap)) of
           (None, Some r) \<Rightarrow>
             let s = modify r (setRemoteTarget T (ps_pos snap) (ps_rotY snap) (ps_vel snap) (ps_crouch snap)) s;
                 s = modify r (updateNameLabel P (ps_name snap)) s
             in (pingLabel (ps_pingMs snap) r s, None)
         | _ \<Rightarrow> (s, e))"

fun snapLoop ::
  "platform \<Rightarrow> three \<Rightarrow> snapshot list \<Rightarrow> jsstr list \<Rightarrow> ('z) client_scheme \<Rightarrow> jsstr list \<times> ('z) client_scheme \<times> js_err option"
where
  "snapLoop P T [] ids s = (ids, s, None)"
| "snapLoop P T (snap # list) ids s =
     (if ps_id snap = [] then snapLoop P T list ids s
      else
        let ids = ids @ [ps_id snap];
            (s, e) = (if Some (ps_id snap) = cl_localPlayerId s then snapLocal P snap s else snapRemote P T snap s)
        in case e of Some e \<Rightarrow> (ids, s, Some e) | None \<Rightarrow> snapLoop P T list ids s)"

definition applySnapshot ::
  "platform \<Rightarrow> three \<Rightarrow> snapshot list \<Rightarrow> ('z) client_scheme \<Rightarrow> ('z) client_scheme \<times> js_err option" where
  "applySnapshot P T list s =
     (case snapLoop P T list [] s of
        (ids, s, Some e) \<Rightarrow> (s, Some e)
      | (ids, s, None) \<Rightarrow>
          (foldl (\<lambda>s pid. if Some pid \<noteq> cl_localPlayerId s \<and> pid \<notin> set ids then removePlayer pid s else s)
             s (map_keys (cl_playersById s)), None))"

section \<open>Events\<close>

text \<open>\<open>ev.name || "Unknown"\<close>.\<close>

definition nameOr :: "jsval \<Rightarrow> string \<Rightarrow> jsval" where
  "nameOr v d = orElse v (JStr (jslit d))"

definition addBall :: "three \<Rightarrow> jsstr \<Rightarrow> vec3 \<Rightarrow> vec3 \<Rightarrow> jsstr \<Rightarrow> ('z) client_scheme \<Rightarrow> ('z) client_scheme" where
  "addBall T bid origin dir owner s =
     (let b = length (cl_balls s)
      in s\<lparr>cl_balls := cl_balls s @ [newSnowball T bid origin dir owner], cl_snowballs := cl_snowballs s @ [b],
           cl_snowballsById := map_set bid b (cl_snowballsById s)\<rparr>)"

text \<open>\<open>destroy\<close> of a snowball, also by its timer after three seconds.\<close>

definition destroySnowball :: "nat \<Rightarrow> ('z) client_scheme \<Rightarrow> ('z) client_scheme" where
  "destroySnowball b s =
     (if \<not> sb_active (cl_balls s ! b) then s
      else s\<lparr>cl_balls := (cl_balls s)[b := destroyBall (cl_balls s ! b)],
             cl_snowballsById := map_delete (sb_id (cl_balls s ! b)) (cl_snowballsById s)\<rparr>)"

definition applyEvent ::
  "platform \<Rightarrow> three \<Rightarrow> int \<Rightarrow> world_event \<Rightarrow> ('z) client_scheme \<Rightarrow> ('z) client_scheme \<times> js_err option" where
  "applyEvent P T nowMs ev s =
     (case ev_of ev of
        EvJoin player \<Rightarrow>
          if noLocalId s then (s, None)
          else if Some (ps_id player) = cl_localPlayerId s then
            (if cl_localPlayer s = None then createLocalPlayer P player s else (s, None))
          else if map_has (cl_playersById s) (ps_id player) then (s, None)
          else addRemote P (ps_id player) (ps_pos player) (ps_name player) s
      | EvLeave playerId name \<Rightarrow> (removePlayer playerId s, None)
      | EvChat playerId name txt \<Rightarrow>
          (case map_get (cl_playersById s) playerId of
             Some r \<Rightarrow> (logChat (ChatLine (pm_name (model s r)) txt) (modify r (showChat txt) s), None)
           | None \<Rightarrow> (logChat (ChatLine (fixUTF8 P (nameOr name ''Unknown'')) txt) s, None))
      | EvState playerId pos rotY vel crouch \<Rightarrow>
          (case map_get (cl_playersById s) playerId of
             Some r \<Rightarrow>
               (if Some playerId \<noteq> cl_localPlayerId s then modify r (setRemoteTarget T pos rotY vel crouch) s else s, None)
           | None \<Rightarrow> (s, None))
      | EvSnowball bid ownerId origin dir speed \<Rightarrow>
          (if map_has (cl_snowballsById s) bid then s else addBall T bid origin dir ownerId s, None)
      | EvHit attackerId victimId impulse victimHp shotId \<Rightarrow>
          let s = (case map_get (cl_playersById s) victimId of Some r \<Rightarrow> modify r onHit s | None \<Rightarrow> s)
          in (case cl_localPlayer s of
                Some r \<Rightarrow>
                  if Some victimId = cl_localPlayerId s then
                    (let s = modify r (\<lambda>m. (applyKnockback impulse m)\<lparr>pm_health := victimHp,
                           pm_lastHpAt := Some (if ev_at ev \<noteq> 0 then ev_at ev else nowMs)\<rparr>) s;
                         s = s\<lparr>cl_hpUI := setHpUI victimHp, cl_flashes := cl_flashes s + 1\<rparr>
                     in if victimHp \<le> 0 then ((modify r (\<lambda>m. m\<lparr>pm_dead := True\<rparr>) s)\<lparr>cl_deadUI := True\<rparr>, None)
                        else (s, None))
                  else (s, None)
              | None \<Rightarrow> (s, None))
      | EvRename playerId name \<Rightarrow>
          (case map_get (cl_playersById s) playerId of
             Some r \<Rightarrow> (modify r (updateNameLabel P (JStr name)) s, None)
           | None \<Rightarrow> (s, None))
      | EvDeath victimId victimName attackerId attackerName shotId respawnAt \<Rightarrow>
          let s = (case map_get (cl_playersById s) victimId of
                     Some r \<Rightarrow>
                       let s = modify r (\<lambda>m. m\<lparr>pm_dead := True\<rparr>) s
                       in if Some (pm_id (model s r)) = cl_localPlayerId s then s\<lparr>cl_deadUI := True\<rparr> else s
                   | None \<Rightarrow> s)
          in (logChat (KillLine (fixUTF8 P (nameOr attackerName ''???'')) (fixUTF8 P (nameOr victimName ''???''))) s, None)
      | EvRespawn playerId pos hp \<Rightarrow>
          (case map_get (cl_playersById s) playerId of
             Some r \<Rightarrow>
               let s = modify r (\<lambda>m. m\<lparr>pm_dead := False, pm_health := hp, pm_visible := True,
                          pm_pos := vec (vx pos) (vy pos) (vz pos)\<rparr>) s
               in (if Some (pm_id (model s r)) = cl_localPlayerId s
                   then s\<lparr>cl_deadUI := False, cl_hpUI := setHpUI hp\<rparr> else s, None)
           | None \<Rightarrow> (s, None)))"

section \<open>Messages\<close>

text \<open>\<open>ensureEnvironment\<close>: the scenery is built once; \<open>build\<close> gives its obstacles for a seed.\<close>

definition ensureEnvironment :: "(int \<Rightarrow> box list) \<Rightarrow> ('z) client_scheme \<Rightarrow> ('z) client_scheme" where
  "ensureEnvironment build s =
     (if cl_environmentReady s then s
      else s\<lparr>cl_obstacles := cl_obstacles s @ build (cl_worldSeed s), cl_environmentReady := True\<rparr>)"

definition onWelcome ::
  "platform \<Rightarrow> three \<Rightarrow> (int \<Rightarrow> box list) \<Rightarrow> jsstr \<Rightarrow> int \<Rightarrow> ('z) client_scheme \<Rightarrow> ('z) client_scheme \<times> js_err option" where
  "onWelcome P T build pid seed s =
     (let s = (case cl_localPlayer s of
                 Some r \<Rightarrow> if pm_id (model s r) \<noteq> pid
                           then (removePlayer (pm_id (model s r)) s)\<lparr>cl_localPlayer := None\<rparr> else s
               | None \<Rightarrow> s);
          s = s\<lparr>cl_localPlayerId := Some pid\<rparr>;
          s = ensureEnvironment build (s\<lparr>cl_worldSeed := seed\<rparr>)
      in case nm_pendingSnapshot (cl_net s) of
           None \<Rightarrow> (s, None)
         | Some list \<Rightarrow>
             (case applySnapshot P T list s of
                (s, Some e) \<Rightarrow> (s, Some e)
              | (s, None) \<Rightarrow> (modNet (\<lambda>n. n\<lparr>nm_pendingSnapshot := None\<rparr>) s, None)))"

definition applyState ::
  "platform \<Rightarrow> three \<Rightarrow> pending_state \<Rightarrow> ('z) client_scheme \<Rightarrow> ('z) client_scheme \<times> js_err option" where
  "applyState P T st s =
     (if pn_id st = [] \<or> Some (pn_id st) = cl_localPlayerId s then (s, None)
      else
        let (s, e) = (if map_get (cl_playersById s) (pn_id st) = None
                      then addRemote P (pn_id st) (pn_pos st) (JStr (jslit ''Player'')) s else (s, None))
        in case (e, map_get (cl_playersById s) (pn_id st)) of
             (None, Some r) \<Rightarrow>
               (modify r (setRemoteTarget T (pn_pos st) (pn_rotY st) (pn_vel st) (pn_crouch st)) s, None)
           | _ \<Rightarrow> (s, e))"

fun statesLoop ::
  "platform \<Rightarrow> three \<Rightarrow> pending_state list \<Rightarrow> ('z) client_scheme \<Rightarrow> ('z) client_scheme \<times> js_err option" where
  "statesLoop P T [] s = (s, None)"
| "statesLoop P T (st # list) s =
     (case applyState P T st s of (s, Some e) \<Rightarrow> (s, Some e) | (s, None) \<Rightarrow> statesLoop P T list s)"

definition onPong :: "real \<Rightarrow> ('z) client_scheme \<Rightarrow> ('z) client_scheme" where
  "onPong perfNow s =
     (if nm_lastPingSentAt (cl_net s) \<noteq> 0
      then
        (let rtt = perfNow - nm_lastPingSentAt (cl_net s); ms = \<lfloor>rtt + 1 / 2\<rfloor>
         in modNet (\<lambda>n. status (pingText ms) ''#55FF55'' (n\<lparr>nm_lastPingMs := Some ms\<rparr>)) s)
      else s)"

text \<open>The clocks a handler reads: \<open>Date.now()\<close> and \<open>performance.now()\<close>.\<close>

definition defaultErrorText :: jsstr where
  "defaultErrorText = [0x8FDE, 0x63A5, 0x9519, 0x8BEF]"

definition handleServerMsg ::
  "platform \<Rightarrow> three \<Rightarrow> (int \<Rightarrow> box list) \<Rightarrow> int \<Rightarrow> real \<Rightarrow> server_msg \<Rightarrow> ('z) client_scheme \<Rightarrow>
   ('z) client_scheme \<times> js_err option" where
  "handleServerMsg P T build nowMs perfNow msg s =
     (case msg of
        MsgError message \<Rightarrow>
          let shown = (if message \<noteq> [] then message else defaultErrorText);
              s = modNet (status (errorText shown) ''#FF5555'') s
          in (modNet (\<lambda>n. n\<lparr>nm_connectAttempts := maxConnectAttempts\<rparr>) (s\<lparr>cl_alert := Some shown\<rparr>), None)
      | MsgWelcome pid world now seed \<Rightarrow> onWelcome P T build pid (int seed) s
      | MsgSnapshot world list seq \<Rightarrow>
          if noLocalId s
          then (modNet (\<lambda>n. n\<lparr>nm_pendingSnapshot := Some list\<rparr>) s, None)
          else applySnapshot P T list s
      | MsgStates at' list \<Rightarrow> statesLoop P T list s
      | MsgEvent ev \<Rightarrow> applyEvent P T nowMs ev s
      | MsgPong now \<Rightarrow> (onPong perfNow s, None))"

section \<open>Connection\<close>

definition scheduleReconnect :: "('z) client_scheme \<Rightarrow> ('z) client_scheme" where
  "scheduleReconnect s =
     (if nm_connectAttempts (cl_net s) \<ge> maxConnectAttempts
      then modNet (\<lambda>n. (status gaveUpText ''#FF5555'' n)\<lparr>nm_reloadTimer := True\<rparr>) s
      else
        let attempts = nm_connectAttempts (cl_net s) + 1
        in modNet (\<lambda>n. (status (retryText attempts) ''#FFFF55'' (n\<lparr>nm_connectAttempts := attempts\<rparr>))
                          \<lparr>nm_reconnectTimer := True\<rparr>) s)"

text \<open>The body of \<open>tick\<close>: it stops when the socket is not open, else pings and sets its timer again.\<close>

definition pingTick :: "int \<Rightarrow> real \<Rightarrow> ('z) client_scheme \<Rightarrow> ('z) client_scheme" where
  "pingTick nowMs perfNow s =
     (if \<not> wsIsOpen s then modNet (\<lambda>n. n\<lparr>nm_pingTimerId := False\<rparr>) s
      else
        let s = modNet (\<lambda>n. n\<lparr>nm_lastPingSentAt := perfNow\<rparr>) s;
            s = send (CPing nowMs) s
        in modNet (\<lambda>n. n\<lparr>nm_pingTimerId := True\<rparr>) s)"

definition startPingLoop :: "int \<Rightarrow> real \<Rightarrow> ('z) client_scheme \<Rightarrow> ('z) client_scheme" where
  "startPingLoop nowMs perfNow s = (if nm_pingTimerId (cl_net s) then s else pingTick nowMs perfNow s)"

definition connect :: "jsval \<Rightarrow> ('z) client_scheme \<Rightarrow> ('z) client_scheme" where
  "connect playerName s =
     modNet (\<lambda>n. (status connectingText ''#FFFF55''
                      (n\<lparr>nm_playerName := (if truthy playerName then playerName else nm_playerName n)\<rparr>))
                    \<lparr>nm_ws := Some WsConnecting\<rparr>) s"

text \<open>\<open>playerName\<close> is the argument of the \<open>connect\<close> that made the socket.\<close>

definition onOpen :: "int \<Rightarrow> real \<Rightarrow> jsval \<Rightarrow> ('z) client_scheme \<Rightarrow> ('z) client_scheme" where
  "onOpen nowMs perfNow playerName s =
     (let s = modNet (\<lambda>n. status connectedText ''#55FF55''
                 (n\<lparr>nm_ws := Some WsOpen, nm_connected := True, nm_connectAttempts := 0\<rparr>)) s;
          s = send (CHello (orElse (nm_playerName (cl_net s)) playerName)) s
      in startPingLoop nowMs perfNow s)"

definition onCloseWs :: "('z) client_scheme \<Rightarrow> ('z) client_scheme" where
  "onCloseWs s =
     (let s = modNet (\<lambda>n. n\<lparr>nm_ws := Some WsClosed, nm_connected := False, nm_pingTimerId := False\<rparr>) s
      in scheduleReconnect s)"

text \<open>The timer of a reconnection.\<close>

definition reconnectFires :: "('z) client_scheme \<Rightarrow> ('z) client_scheme" where
  "reconnectFires s =
     connect (orElse (nm_playerName (cl_net s)) (JStr (jslit ''Player'')))
       (modNet (\<lambda>n. n\<lparr>nm_reconnectTimer := False\<rparr>) s)"

section \<open>Sending\<close>

definition sendChat :: "jsstr \<Rightarrow> ('z) client_scheme \<Rightarrow> ('z) client_scheme" where
  "sendChat txt s = (if wsIsOpen s then send (CChat txt) s else s)"

definition maybeSendLocalState :: "real \<Rightarrow> ('z) client_scheme \<Rightarrow> ('z) client_scheme" where
  "maybeSendLocalState perfNow s =
     (case cl_localPlayer s of
        None \<Rightarrow> s
      | Some r \<Rightarrow>
          if \<not> wsIsOpen s then s
          else if perfNow - nm_lastStateSend (cl_net s) < 1000 / c_netSendHz CLIENT_CONFIG then s
          else
            let s = modNet (\<lambda>n. n\<lparr>nm_lastStateSend := perfNow\<rparr>) s;
                m = model s r
            in send (CState (pm_pos m) (pm_rotY m) (pm_velocity m) (k_shift (pm_input m)) (nm_lastPingMs (cl_net s))) s)"

definition sendSnowball :: "jsstr \<Rightarrow> vec3 \<Rightarrow> int \<Rightarrow> ('z) client_scheme \<Rightarrow> ('z) client_scheme" where
  "sendSnowball shotId dir nowMs s = (if wsIsOpen s then send (CSnowball shotId dir nowMs) s else s)"

text \<open>Renaming is disabled: the name comes from the login.\<close>

definition sendRename :: "jsstr \<Rightarrow> ('z) client_scheme \<Rightarrow> ('z) client_scheme" where
  "sendRename name s = s"

section \<open>The invariant of the tables\<close>

lemma status_sel [simp]:
  "nm_ws (status t c n) = nm_ws n" "nm_connected (status t c n) = nm_connected n"
  "nm_lastStateSend (status t c n) = nm_lastStateSend n" "nm_pendingSnapshot (status t c n) = nm_pendingSnapshot n"
  "nm_lastPingMs (status t c n) = nm_lastPingMs n" "nm_lastPingSentAt (status t c n) = nm_lastPingSentAt n"
  "nm_pingTimerId (status t c n) = nm_pingTimerId n" "nm_playerName (status t c n) = nm_playerName n"
  "nm_connectAttempts (status t c n) = nm_connectAttempts n" "nm_reconnectTimer (status t c n) = nm_reconnectTimer n"
  "nm_reloadTimer (status t c n) = nm_reloadTimer n" "nm_status (status t c n) = t"
  by (simp_all add: status_def Let_def)

text \<open>
  Every entry of the table of players refers to an object with that identifier that is also drawn;
  no object is drawn twice; the local player is not a remote one, carries the local identifier and
  is alone under it; every other entry is remote.
\<close>

definition players_ok :: "('z) client_scheme \<Rightarrow> bool" where
  "players_ok s \<longleftrightarrow> map_ok (cl_playersById s) \<and> distinct (cl_players s) \<and>
     (\<forall>r \<in> set (cl_players s). r < length (cl_models s)) \<and>
     (\<forall>k r. map_get (cl_playersById s) k = Some r \<longrightarrow>
        r \<in> set (cl_players s) \<and> pm_id (cl_models s ! r) = k \<and>
        (cl_localPlayer s \<noteq> Some r \<longrightarrow> pm_isRemote (cl_models s ! r))) \<and>
     (\<forall>r. cl_localPlayer s = Some r \<longrightarrow>
        r < length (cl_models s) \<and> \<not> pm_isRemote (cl_models s ! r) \<and>
        cl_localPlayerId s = Some (pm_id (cl_models s ! r)) \<and>
        (\<forall>r'. map_get (cl_playersById s) (pm_id (cl_models s ! r)) = Some r' \<longrightarrow> r' = r))"

text \<open>Updates that leave the tables and the identity of every object alone.\<close>

definition same_players :: "('z) client_scheme \<Rightarrow> ('z) client_scheme \<Rightarrow> bool" where
  "same_players s s' \<longleftrightarrow> cl_localPlayer s' = cl_localPlayer s \<and> cl_localPlayerId s' = cl_localPlayerId s \<and>
     cl_players s' = cl_players s \<and> cl_playersById s' = cl_playersById s \<and>
     map pm_id (cl_models s') = map pm_id (cl_models s) \<and>
     map pm_isRemote (cl_models s') = map pm_isRemote (cl_models s)"

lemma same_players_refl [simp]: "same_players s s"
  by (simp add: same_players_def)

lemma same_players_trans: "same_players s t \<Longrightarrow> same_players t u \<Longrightarrow> same_players s u"
  by (simp add: same_players_def)

lemma same_players_nth:
  assumes "same_players s s'"
  shows "length (cl_models s') = length (cl_models s)"
    "r < length (cl_models s) \<Longrightarrow> pm_id (cl_models s' ! r) = pm_id (cl_models s ! r) \<and>
       pm_isRemote (cl_models s' ! r) = pm_isRemote (cl_models s ! r)"
proof -
  show l: "length (cl_models s') = length (cl_models s)"
    using assms unfolding same_players_def by (metis length_map)
  show "pm_id (cl_models s' ! r) = pm_id (cl_models s ! r) \<and>
       pm_isRemote (cl_models s' ! r) = pm_isRemote (cl_models s ! r)" if "r < length (cl_models s)"
    using assms l that unfolding same_players_def by (metis nth_map)
qed

lemma players_ok_same:
  assumes "same_players s s'" "players_ok s"
  shows "players_ok s'"
proof -
  note n = same_players_nth [OF assms(1)]
  have "pm_id (cl_models s' ! r) = pm_id (cl_models s ! r) \<and>
       pm_isRemote (cl_models s' ! r) = pm_isRemote (cl_models s ! r)" if "r \<in> set (cl_players s)" for r
    using assms(2) that n(2) unfolding players_ok_def by blast
  then show ?thesis
    using assms n unfolding players_ok_def same_players_def by auto
qed

lemma map_update_same:
  assumes "\<And>m. g (f m) = g m"
  shows "map g (xs[r := f (xs ! r)]) = map g xs"
  using assms by (cases "r < length xs") (simp_all add: map_update list_update_same_conv list_update_beyond)

lemma modify_same:
  assumes "\<And>m. pm_id (f m) = pm_id m \<and> pm_isRemote (f m) = pm_isRemote m"
  shows "same_players s (modify r f s)"
  using assms by (simp add: same_players_def modify_def map_update_same)

lemma keeps_identity [simp]:
  "pm_id (setRemoteTarget T a b c d m) = pm_id m" "pm_isRemote (setRemoteTarget T a b c d m) = pm_isRemote m"
  "pm_id (updateNameLabel P v m) = pm_id m" "pm_isRemote (updateNameLabel P v m) = pm_isRemote m"
  "pm_id (updatePing n m) = pm_id m" "pm_isRemote (updatePing n m) = pm_isRemote m"
  "pm_id (showChat txt m) = pm_id m" "pm_isRemote (showChat txt m) = pm_isRemote m"
  "pm_id (onHit m) = pm_id m" "pm_isRemote (onHit m) = pm_isRemote m"
  "pm_id (applyKnockback i m) = pm_id m" "pm_isRemote (applyKnockback i m) = pm_isRemote m"
  by (simp_all add: setRemoteTarget_def updateNameLabel_def updatePing_def showChat_def onHit_def
      applyKnockback_def Let_def)

lemma newPlayerModel_identity:
  "newPlayerModel P w pid pos name rem = Inr m \<Longrightarrow> pm_id m = pid \<and> pm_isRemote m = rem \<and> pm_health m = 100"
  by (cases "paletteKey name pid") (auto simp: newPlayerModel_def Let_def)

lemma players_okD:
  assumes "players_ok s"
  shows "map_get (cl_playersById s) k = Some r \<Longrightarrow> r \<in> set (cl_players s) \<and> r < length (cl_models s) \<and>
      pm_id (cl_models s ! r) = k"
    "cl_localPlayer s = Some r \<Longrightarrow> r < length (cl_models s) \<and> cl_localPlayerId s = Some (pm_id (cl_models s ! r))"
    "map_get (cl_playersById s) k = Some r \<Longrightarrow> cl_localPlayer s \<noteq> Some r \<Longrightarrow> pm_isRemote (cl_models s ! r)"
    "cl_localPlayer s = Some r \<Longrightarrow> \<not> pm_isRemote (cl_models s ! r)"
    "cl_localPlayer s = Some r \<Longrightarrow> map_get (cl_playersById s) (pm_id (cl_models s ! r)) = Some r' \<Longrightarrow> r' = r"
    "map_ok (cl_playersById s)" "distinct (cl_players s)" "r \<in> set (cl_players s) \<Longrightarrow> r < length (cl_models s)"
  using assms unfolding players_ok_def by blast+

lemma addRemote_ok:
  assumes "players_ok s" "cl_localPlayerId s \<noteq> Some pid"
  shows "players_ok (fst (addRemote P pid pos name s))"
proof (cases "newPlayerModel P (of_int (cl_worldSeed s)) pid pos name True")
  case (Inl e)
  then show ?thesis using assms by (simp add: addRemote_def)
next
  case (Inr m)
  note d = players_okD [OF assms(1)]
  have m: "pm_id m = pid" "pm_isRemote m" using newPlayerModel_identity [OF Inr] by simp_all
  have lt: "r < length (cl_models s)" if "r \<in> set (cl_players s)" for r using d(8) that .
  have l: "r < length (cl_models s)" "pm_id (cl_models s ! r) \<noteq> pid" if "cl_localPlayer s = Some r" for r
    using d(2) [OF that] assms(2) by auto
  let ?s = "fst (addRemote P pid pos name s)"
  have s: "cl_models ?s = cl_models s @ [m]" "cl_players ?s = cl_players s @ [length (cl_models s)]"
    "cl_playersById ?s = map_set pid (length (cl_models s)) (cl_playersById s)"
    "cl_localPlayer ?s = cl_localPlayer s" "cl_localPlayerId ?s = cl_localPlayerId s"
    using Inr by (simp_all add: addRemote_def Let_def)
  have get: "map_get (cl_playersById ?s) k = Some r \<longleftrightarrow>
      (if k = pid then r = length (cl_models s) else map_get (cl_playersById s) k = Some r)" for k r
    by (auto simp: s)
  show ?thesis
    unfolding players_ok_def s(2,4,5)
  proof (intro conjI allI impI ballI)
    show "map_ok (cl_playersById ?s)" using d(6) by (simp add: s)
    show "distinct (cl_players s @ [length (cl_models s)])" using d(7) lt by auto
    show "r < length (cl_models ?s)" if "r \<in> set (cl_players s @ [length (cl_models s)])" for r
      using that lt by (auto simp: s less_Suc_eq)
    fix k r
    assume g: "map_get (cl_playersById ?s) k = Some r"
    show "r \<in> set (cl_players s @ [length (cl_models s)])" "pm_id (cl_models ?s ! r) = k"
      "cl_localPlayer s \<noteq> Some r \<Longrightarrow> pm_isRemote (cl_models ?s ! r)"
      using g d(1,3) m unfolding get by (auto simp: s nth_append split: if_splits)
  next
    fix r
    assume r: "cl_localPlayer s = Some r"
    show "r < length (cl_models ?s)" "\<not> pm_isRemote (cl_models ?s ! r)"
      "cl_localPlayerId s = Some (pm_id (cl_models ?s ! r))"
      using d(2,4) [OF r] by (auto simp: s nth_append)
    show "r' = r" if "map_get (cl_playersById ?s) (pm_id (cl_models ?s ! r)) = Some r'" for r'
      using that l [OF r] d(5) [OF r, of r'] unfolding get by (auto simp: s nth_append split: if_splits)
  qed
qed

lemma createLocalPlayer_ok:
  assumes "players_ok s" "cl_localPlayer s = None" "cl_localPlayerId s = Some (ps_id snap)"
  shows "players_ok (fst (createLocalPlayer P snap s))"
proof (cases "newPlayerModel P (of_int (cl_worldSeed s)) (ps_id snap) (ps_pos snap) (ps_name snap) False")
  case (Inl e)
  then show ?thesis using assms by (simp add: createLocalPlayer_def)
next
  case (Inr m)
  note d = players_okD [OF assms(1)]
  let ?m = "m\<lparr>pm_lastHpAt := Some (ps_updatedAt snap), pm_health := ps_hp snap\<rparr>"
  have m: "pm_id ?m = ps_id snap" "\<not> pm_isRemote ?m" using newPlayerModel_identity [OF Inr] by simp_all
  have lt: "r < length (cl_models s)" if "r \<in> set (cl_players s)" for r using d(8) that .
  let ?s = "fst (createLocalPlayer P snap s)"
  have s: "cl_models ?s = cl_models s @ [?m]" "cl_players ?s = cl_players s @ [length (cl_models s)]"
    "cl_playersById ?s = map_set (ps_id snap) (length (cl_models s)) (cl_playersById s)"
    "cl_localPlayer ?s = Some (length (cl_models s))" "cl_localPlayerId ?s = Some (ps_id snap)"
    using Inr assms(3) by (simp_all add: createLocalPlayer_def Let_def)
  have get: "map_get (cl_playersById ?s) k = Some r \<longleftrightarrow>
      (if k = ps_id snap then r = length (cl_models s) else map_get (cl_playersById s) k = Some r)" for k r
    by (auto simp: s)
  show ?thesis
    unfolding players_ok_def s(2,4,5)
  proof (intro conjI allI impI ballI)
    show "map_ok (cl_playersById ?s)" using d(6) by (simp add: s)
    show "distinct (cl_players s @ [length (cl_models s)])" using d(7) lt by auto
    show "r < length (cl_models ?s)" if "r \<in> set (cl_players s @ [length (cl_models s)])" for r
      using that lt by (auto simp: s less_Suc_eq)
    fix k r
    assume g: "map_get (cl_playersById ?s) k = Some r"
    show "r \<in> set (cl_players s @ [length (cl_models s)])" "pm_id (cl_models ?s ! r) = k"
      "Some (length (cl_models s)) \<noteq> Some r \<Longrightarrow> pm_isRemote (cl_models ?s ! r)"
      using g d(1,3) m assms(2) unfolding get by (auto simp: s nth_append split: if_splits)
  next
    fix r
    assume r: "Some (length (cl_models s)) = Some r"
    show "r < length (cl_models ?s)" "\<not> pm_isRemote (cl_models ?s ! r)"
      "Some (ps_id snap) = Some (pm_id (cl_models ?s ! r))"
      using r m by (auto simp: s)
    show "r' = r" if "map_get (cl_playersById ?s) (pm_id (cl_models ?s ! r)) = Some r'" for r'
      using that r m unfolding get by (auto simp: s)
  qed
qed

lemma removePlayer_fields:
  "cl_models (removePlayer pid s) = cl_models s" "cl_localPlayer (removePlayer pid s) = cl_localPlayer s"
  "cl_localPlayerId (removePlayer pid s) = cl_localPlayerId s"
  "map_get (cl_playersById (removePlayer pid s)) k = (if k = pid then None else map_get (cl_playersById s) k)"
  "cl_net (removePlayer pid s) = cl_net s"
  by (auto simp: removePlayer_def split: option.splits)

lemma removePlayer_ok:
  assumes "players_ok s"
  shows "players_ok (removePlayer pid s)"
proof (cases "map_get (cl_playersById s) pid")
  case None
  then show ?thesis using assms by (simp add: removePlayer_def)
next
  case (Some q)
  note d = players_okD [OF assms]
  have "r \<noteq> q" if "map_get (cl_playersById s) k = Some r" "k \<noteq> pid" for k r
    using d(1) [OF that(1)] d(1) [OF Some] that(2) by auto
  then show ?thesis
    using assms d(7) Some unfolding players_ok_def
    by (auto simp: removePlayer_def dest: in_set_remove1 notin_set_remove1)
qed

text \<open>A new local identifier, once the old local player is gone.\<close>

lemma forget_local_ok:
  assumes "players_ok s" "cl_localPlayer s = Some r"
  shows "players_ok ((removePlayer (pm_id (model s r)) s)\<lparr>cl_localPlayer := None\<rparr>)"
proof -
  let ?k = "pm_id (model s r)"
  have ok: "players_ok (removePlayer ?k s)" by (rule removePlayer_ok [OF assms(1)])
  note d = players_okD [OF assms(1)]
  have "pm_isRemote (cl_models s ! q)" if "map_get (cl_playersById (removePlayer ?k s)) k = Some q" for k q
  proof -
    have "k \<noteq> ?k" "map_get (cl_playersById s) k = Some q"
      using that by (auto simp: removePlayer_fields split: if_splits)
    then have "q \<noteq> r" using d(1) by (auto simp: model_def)
    then show ?thesis using d(3) [OF \<open>map_get (cl_playersById s) k = Some q\<close>] assms(2) by simp
  qed
  then show ?thesis using ok unfolding players_ok_def by (simp add: removePlayer_fields)
qed

lemma modNet_same [simp]: "same_players s (modNet f s)"
  by (simp add: same_players_def modNet_def)

lemma send_same [simp]: "same_players s (send m s)"
  by (simp add: same_players_def send_def)

lemma logChat_same [simp]: "same_players s (logChat line s)"
  by (simp add: same_players_def logChat_def)

lemma ui_same [simp]:
  "same_players s (s\<lparr>cl_hpUI := u\<rparr>)" "same_players s (s\<lparr>cl_deadUI := b\<rparr>)" "same_players s (s\<lparr>cl_alert := a\<rparr>)"
  "same_players s (s\<lparr>cl_deadUI := b, cl_hpUI := u\<rparr>)" "same_players s (s\<lparr>cl_worldSeed := w\<rparr>)"
  "same_players s (s\<lparr>cl_obstacles := o', cl_environmentReady := e\<rparr>)"
  "same_players s (s\<lparr>cl_hpUI := u, cl_flashes := n\<rparr>)"
  by (simp_all add: same_players_def)

lemma pingLabel_same: "same_players s (pingLabel p r s)"
  by (simp add: pingLabel_def modify_same split: option.split)

lemma same_players_ping: "same_players s t \<Longrightarrow> same_players s (pingLabel p r t)"
  by (rule same_players_trans [OF _ pingLabel_same])

lemma addBall_same: "same_players s (addBall T bid o' d w s)"
  by (simp add: same_players_def addBall_def Let_def)

text \<open>After the entry of the local player has been made sure of, only its object changes.\<close>

lemma snapLocal_same:
  assumes "(if cl_localPlayer s = None then createLocalPlayer P snap s else (s, None)) = (s1, e1)"
  shows "same_players s1 (fst (snapLocal P snap s))"
proof (cases "e1 = None \<and> (\<exists>r. cl_localPlayer s1 = Some r)")
  case False
  then have "fst (snapLocal P snap s) = s1"
    using assms by (auto simp: snapLocal_def Let_def split: option.splits)
  then show ?thesis by simp
next
  case True
  then obtain r where r: "e1 = None" "cl_localPlayer s1 = Some r" by blast
  let ?u = "\<lambda>m. m\<lparr>pm_health := ps_hp snap, pm_lastHpAt := Some (ps_updatedAt snap)\<rparr>"
  have "same_players s1 ((modify r ?u s1)\<lparr>cl_hpUI := setHpUI (ps_hp snap)\<rparr>)"
    by (rule same_players_trans [OF modify_same ui_same(1)]) simp
  then show ?thesis using r by (auto simp: snapLocal_def assms Let_def intro: same_players_ping)
qed

lemma snapLocal_ok:
  assumes "players_ok s" "cl_localPlayerId s = Some (ps_id snap)" "snapLocal P snap s = (s', e)"
  shows "players_ok s'" "cl_localPlayerId s' = cl_localPlayerId s"
    "k \<noteq> ps_id snap \<Longrightarrow> map_has (cl_playersById s') k = map_has (cl_playersById s) k"
proof -
  obtain s1 e1 where 1: "(if cl_localPlayer s = None then createLocalPlayer P snap s else (s, None)) = (s1, e1)"
    by (metis surj_pair)
  have ok: "players_ok s1"
    using createLocalPlayer_ok [OF assms(1) _ assms(2)] assms(1) 1 by (metis fst_conv)
  have c: "cl_localPlayerId s1 = cl_localPlayerId s"
    "k \<noteq> ps_id snap \<Longrightarrow> map_has (cl_playersById s1) k = map_has (cl_playersById s) k" for k
    using 1 by (auto simp: createLocalPlayer_def Let_def split: if_splits sum.splits)
  have "same_players s1 s'" using snapLocal_same [OF 1] assms(3) by simp
  then show "players_ok s'" "cl_localPlayerId s' = cl_localPlayerId s"
    "k \<noteq> ps_id snap \<Longrightarrow> map_has (cl_playersById s') k = map_has (cl_playersById s) k"
    using players_ok_same [OF _ ok] c by (auto simp: same_players_def)
qed

lemma addRemote_cases:
  obtains e where "addRemote P pid pos name s = (s, Some e)"
  | s' where "addRemote P pid pos name s = (s', None)" "cl_localPlayerId s' = cl_localPlayerId s"
      "cl_playersById s' = map_set pid (length (cl_models s)) (cl_playersById s)"
  by (cases "newPlayerModel P (of_int (cl_worldSeed s)) pid pos name True") (auto simp: addRemote_def Let_def)

text \<open>Finding a remote player by identifier, or adding it.\<close>

lemma findOrAdd_ok:
  assumes "players_ok s" "cl_localPlayerId s \<noteq> Some pid"
    and "(if map_get (cl_playersById s) pid = None then addRemote P pid pos name s else (s, None)) = (s', e)"
  shows "players_ok s'" "cl_localPlayerId s' = cl_localPlayerId s"
    "e = None \<Longrightarrow> \<exists>r. map_get (cl_playersById s') pid = Some r"
    "map_has (cl_playersById s') k \<longleftrightarrow> map_has (cl_playersById s) k \<or> (k = pid \<and> e = None)"
proof -
  have "players_ok s' \<and> cl_localPlayerId s' = cl_localPlayerId s \<and>
      (e = None \<longrightarrow> (\<exists>r. map_get (cl_playersById s') pid = Some r)) \<and>
      (map_has (cl_playersById s') k \<longleftrightarrow> map_has (cl_playersById s) k \<or> (k = pid \<and> e = None))"
  proof (cases "map_get (cl_playersById s) pid")
    case None
    show ?thesis
    proof (cases rule: addRemote_cases [of P pid pos name s])
      case (1 e')
      then show ?thesis using assms None by auto
    next
      case (2 s2)
      then have "players_ok s2" using addRemote_ok [OF assms(1,2), of P pos name] by simp
      then show ?thesis using assms(3) None 2 by (auto simp: map_has_set)
    qed
  next
    case (Some r)
    then show ?thesis using assms by (auto simp: map_has_get)
  qed
  then show "players_ok s'" "cl_localPlayerId s' = cl_localPlayerId s"
    "e = None \<Longrightarrow> \<exists>r. map_get (cl_playersById s') pid = Some r"
    "map_has (cl_playersById s') k \<longleftrightarrow> map_has (cl_playersById s) k \<or> (k = pid \<and> e = None)" by blast+
qed

lemma snapRemote_same:
  assumes "(if map_get (cl_playersById s) (ps_id snap) = None
      then addRemote P (ps_id snap) (ps_pos snap) (ps_name snap) s else (s, None)) = (s1, e1)"
    and "e1 = None \<Longrightarrow> \<exists>r. map_get (cl_playersById s1) (ps_id snap) = Some r"
  shows "same_players s1 (fst (snapRemote P T snap s)) \<and> snd (snapRemote P T snap s) = e1"
proof (cases e1)
  case (Some x)
  then show ?thesis by (simp add: snapRemote_def assms(1) Let_def)
next
  case None
  then obtain r where r: "map_get (cl_playersById s1) (ps_id snap) = Some r" using assms(2) by blast
  let ?t = "modify r (setRemoteTarget T (ps_pos snap) (ps_rotY snap) (ps_vel snap) (ps_crouch snap)) s1"
  have "same_players s1 (modify r (updateNameLabel P (ps_name snap)) ?t)"
    by (rule same_players_trans [OF modify_same modify_same]) simp_all
  then show ?thesis using None r by (auto simp: snapRemote_def assms(1) Let_def intro: same_players_ping)
qed

lemma snapRemote_ok:
  assumes "players_ok s" "cl_localPlayerId s \<noteq> Some (ps_id snap)" "snapRemote P T snap s = (s', e)"
  shows "players_ok s'" "cl_localPlayerId s' = cl_localPlayerId s"
    "map_has (cl_playersById s') k \<longleftrightarrow> map_has (cl_playersById s) k \<or> (k = ps_id snap \<and> e = None)"
proof -
  obtain s1 e1 where 1: "(if map_get (cl_playersById s) (ps_id snap) = None
      then addRemote P (ps_id snap) (ps_pos snap) (ps_name snap) s else (s, None)) = (s1, e1)"
    by (metis surj_pair)
  note f = findOrAdd_ok [OF assms(1,2) 1]
  have "same_players s1 s' \<and> e = e1" using snapRemote_same [OF 1 f(3), of T] assms(3) by simp
  then show "players_ok s'" "cl_localPlayerId s' = cl_localPlayerId s"
    "map_has (cl_playersById s') k \<longleftrightarrow> map_has (cl_playersById s) k \<or> (k = ps_id snap \<and> e = None)"
    using players_ok_same [OF _ f(1)] f(2,4) by (auto simp: same_players_def)
qed

lemma snapLoop_ok:
  assumes "players_ok s" "snapLoop P T list ids s = (ids', s', e)"
  shows "players_ok s' \<and> cl_localPlayerId s' = cl_localPlayerId s \<and>
    (e = None \<longrightarrow> ids' = ids @ filter (\<lambda>k. k \<noteq> []) (map ps_id list) \<and>
      (\<forall>k. cl_localPlayerId s \<noteq> Some k \<longrightarrow>
        (map_has (cl_playersById s') k \<longleftrightarrow> map_has (cl_playersById s) k \<or> (k \<noteq> [] \<and> k \<in> set (map ps_id list)))))"
  using assms
proof (induction list arbitrary: ids s)
  case (Cons snap list)
  show ?case
  proof (cases "ps_id snap = []")
    case True
    then have "snapLoop P T list ids s = (ids', s', e)" using Cons.prems(2) by simp
    from Cons.IH [OF Cons.prems(1) this] show ?thesis using True by auto
  next
    case False
    obtain s1 e1 where 1: "(if Some (ps_id snap) = cl_localPlayerId s then snapLocal P snap s else snapRemote P T snap s) =
        (s1, e1)" by (metis surj_pair)
    have "players_ok s1 \<and> cl_localPlayerId s1 = cl_localPlayerId s"
      using 1 snapLocal_ok [OF Cons.prems(1)] snapRemote_ok [OF Cons.prems(1)] by (metis (no_types))
    then have ok: "players_ok s1" "cl_localPlayerId s1 = cl_localPlayerId s" by simp_all
    have has: "map_has (cl_playersById s1) k \<longleftrightarrow> map_has (cl_playersById s) k \<or> k = ps_id snap"
      if "cl_localPlayerId s \<noteq> Some k" "e1 = None" for k
    proof (cases "Some (ps_id snap) = cl_localPlayerId s")
      case True
      then have "k \<noteq> ps_id snap" using that by auto
      then show ?thesis using True 1 that snapLocal_ok(3) [OF Cons.prems(1), of snap P s1 e1 k] by auto
    next
      case False
      then show ?thesis using 1 that snapRemote_ok(3) [OF Cons.prems(1), of snap P T s1 e1 k] by auto
    qed
    show ?thesis
    proof (cases e1)
      case (Some x)
      then show ?thesis using Cons.prems(2) False 1 ok by auto
    next
      case None
      then have "snapLoop P T list (ids @ [ps_id snap]) s1 = (ids', s', e)"
        using Cons.prems(2) False 1 by simp
      from Cons.IH [OF ok(1) this] show ?thesis using ok(2) has None False by auto
    qed
  qed
qed auto

text \<open>The sweep that removes everybody the snapshot does not list.\<close>

definition sweep :: "jsstr list \<Rightarrow> jsstr list \<Rightarrow> ('z) client_scheme \<Rightarrow> ('z) client_scheme" where
  "sweep ids ks s =
     foldl (\<lambda>s pid. if Some pid \<noteq> cl_localPlayerId s \<and> pid \<notin> set ids then removePlayer pid s else s) s ks"

lemma sweep_ok:
  assumes "players_ok s"
  shows "players_ok (sweep ids ks s) \<and> cl_localPlayerId (sweep ids ks s) = cl_localPlayerId s \<and>
    cl_models (sweep ids ks s) = cl_models s \<and> cl_net (sweep ids ks s) = cl_net s \<and>
    map_get (cl_playersById (sweep ids ks s)) k =
      (if k \<in> set ks \<and> Some k \<noteq> cl_localPlayerId s \<and> k \<notin> set ids then None else map_get (cl_playersById s) k)"
  using assms
proof (induction ks arbitrary: s)
  case (Cons p ks)
  let ?s = "if Some p \<noteq> cl_localPlayerId s \<and> p \<notin> set ids then removePlayer p s else s"
  have e: "sweep ids (p # ks) s = sweep ids ks ?s" by (simp add: sweep_def)
  have "players_ok ?s" "cl_localPlayerId ?s = cl_localPlayerId s" "cl_models ?s = cl_models s" "cl_net ?s = cl_net s"
    "map_get (cl_playersById ?s) k =
      (if k = p \<and> Some k \<noteq> cl_localPlayerId s \<and> k \<notin> set ids then None else map_get (cl_playersById s) k)"
    using Cons.prems removePlayer_ok by (auto simp: removePlayer_fields)
  with Cons.IH [of ?s] show ?case unfolding e by auto
qed (simp add: sweep_def)

lemma applySnapshot_eq:
  "applySnapshot P T list s =
     (case snapLoop P T list [] s of
        (ids, s, Some e) \<Rightarrow> (s, Some e)
      | (ids, s, None) \<Rightarrow> (sweep ids (map_keys (cl_playersById s)) s, None))"
  unfolding applySnapshot_def sweep_def ..

lemma applySnapshot_ok:
  assumes "players_ok s"
  shows "players_ok (fst (applySnapshot P T list s)) \<and>
    cl_localPlayerId (fst (applySnapshot P T list s)) = cl_localPlayerId s"
proof -
  obtain ids s1 e where 1: "snapLoop P T list [] s = (ids, s1, e)" by (metis surj_pair)
  note l = snapLoop_ok [OF assms 1]
  then show ?thesis using sweep_ok [of s1 ids] by (cases e) (simp_all add: applySnapshot_eq 1)
qed

lemma hit_same:
  assumes "ev_of ev = EvHit a v i hp sh"
  shows "same_players s (fst (applyEvent P T now ev s))"
proof -
  define s1 where "s1 = (case map_get (cl_playersById s) v of Some r \<Rightarrow> modify r onHit s | None \<Rightarrow> s)"
  have 1: "same_players s s1" unfolding s1_def by (auto split: option.split intro: modify_same)
  define s2 where "s2 r = (modify r (\<lambda>m. (applyKnockback i m)\<lparr>pm_health := hp,
      pm_lastHpAt := Some (if ev_at ev \<noteq> 0 then ev_at ev else now)\<rparr>) s1)\<lparr>cl_hpUI := setHpUI hp,
      cl_flashes := cl_flashes s1 + 1\<rparr>" for r
  have 2: "same_players s (s2 r)" for r
    unfolding s2_def by (rule same_players_trans [OF 1 same_players_trans [OF modify_same ui_same(7)]]) simp
  have 3: "same_players s ((modify r (\<lambda>m. m\<lparr>pm_dead := True\<rparr>) (s2 r))\<lparr>cl_deadUI := True\<rparr>)" for r
    by (rule same_players_trans [OF 2 same_players_trans [OF modify_same ui_same(2)]]) simp
  have "fst (applyEvent P T now ev s) \<in> {s1} \<union> range s2 \<union>
      range (\<lambda>r. (modify r (\<lambda>m. m\<lparr>pm_dead := True\<rparr>) (s2 r))\<lparr>cl_deadUI := True\<rparr>)"
    by (auto simp: applyEvent_def assms s1_def [symmetric] s2_def Let_def split: option.split)
  then show ?thesis using 1 2 3 by auto
qed

lemma applyEvent_ok:
  assumes "players_ok s"
  shows "players_ok (fst (applyEvent P T now ev s))"
proof -
  note same = players_ok_same [OF _ assms]
  have upd: "same_players s (modify r f s)"
    if "\<And>m. pm_id (f m) = pm_id m \<and> pm_isRemote (f m) = pm_isRemote m" for r f
    by (rule modify_same [OF that])
  show ?thesis
  proof (cases "ev_of ev")
    case (EvJoin p)
    show ?thesis
      using assms EvJoin createLocalPlayer_ok [OF assms, of p P]
        addRemote_ok [OF assms, of "ps_id p" P "ps_pos p" "ps_name p"]
      by (auto simp: applyEvent_def noLocalId_def)
  next
    case (EvLeave k n)
    then show ?thesis using removePlayer_ok [OF assms] by (simp add: applyEvent_def)
  next
    case (EvChat k n tx)
    have "same_players s (logChat l (modify r (showChat tx) s))" for l r
      by (rule same_players_trans [OF upd logChat_same]) simp
    then show ?thesis using EvChat same by (simp add: applyEvent_def split: option.split)
  next
    case (EvState k pos rotY vel cr)
    have "same_players s (modify r (setRemoteTarget T pos rotY vel cr) s)" for r by (rule upd) simp
    then show ?thesis using EvState same assms by (simp add: applyEvent_def split: option.split)
  next
    case (EvSnowball b w o' d sp)
    then show ?thesis using same [OF addBall_same] assms by (auto simp: applyEvent_def)
  next
    case (EvHit a v i hp sh)
    then show ?thesis using same [OF hit_same] by simp
  next
    case (EvRename k nm)
    have "same_players s (modify r (updateNameLabel P (JStr nm)) s)" for r by (rule upd) simp
    then show ?thesis using EvRename same assms by (simp add: applyEvent_def split: option.split)
  next
    case (EvDeath v vn a an sh t)
    have 1: "same_players s (modify r (\<lambda>m. m\<lparr>pm_dead := True\<rparr>) s)" for r by (rule upd) simp
    have "same_players s (logChat l ((modify r (\<lambda>m. m\<lparr>pm_dead := True\<rparr>) s)\<lparr>cl_deadUI := True\<rparr>))"
      "same_players s (logChat l (modify r (\<lambda>m. m\<lparr>pm_dead := True\<rparr>) s))" for r l
      by (rule same_players_trans [OF 1 same_players_trans [OF ui_same(2) logChat_same]],
          rule same_players_trans [OF 1 logChat_same])
    then show ?thesis
      using EvDeath same by (simp add: applyEvent_def Let_def split: option.split)
  next
    case (EvRespawn k pos hp)
    have 1: "same_players s (modify r (\<lambda>m. m\<lparr>pm_dead := False, pm_health := hp, pm_visible := True,
        pm_pos := vec (vx pos) (vy pos) (vz pos)\<rparr>) s)" for r by (rule upd) simp
    have "same_players s ((modify r (\<lambda>m. m\<lparr>pm_dead := False, pm_health := hp, pm_visible := True,
        pm_pos := vec (vx pos) (vy pos) (vz pos)\<rparr>) s)\<lparr>cl_deadUI := False, cl_hpUI := setHpUI hp\<rparr>)" for r
      by (rule same_players_trans [OF 1 ui_same(4)])
    then show ?thesis
      using EvRespawn same 1 assms by (simp add: applyEvent_def Let_def split: option.split)
  qed
qed

lemma statesLoop_ok:
  assumes "players_ok s"
  shows "players_ok (fst (statesLoop P T list s))"
  using assms
proof (induction list arbitrary: s)
  case (Cons st list)
  obtain s1 e1 where 1: "applyState P T st s = (s1, e1)" by (metis surj_pair)
  have "players_ok s1"
  proof (cases "pn_id st = [] \<or> Some (pn_id st) = cl_localPlayerId s")
    case True
    then show ?thesis using 1 Cons.prems by (simp add: applyState_def)
  next
    case False
    obtain s2 e2 where 2: "(if map_get (cl_playersById s) (pn_id st) = None
        then addRemote P (pn_id st) (pn_pos st) (JStr (jslit ''Player'')) s else (s, None)) = (s2, e2)"
      by (metis surj_pair)
    have ok: "players_ok s2" by (rule findOrAdd_ok(1) [OF Cons.prems _ 2]) (use False in auto)
    have "players_ok (modify r (setRemoteTarget T a b c d) s2)" for r a b c d
      by (rule players_ok_same [OF modify_same ok]) simp
    then show ?thesis
      using 1 False 2 ok by (auto simp: applyState_def Let_def split: option.splits)
  qed
  then show ?case using Cons.IH [of s1] 1 by (cases e1) auto
qed simp

lemma players_ok_id: "players_ok s \<Longrightarrow> cl_localPlayer s = None \<Longrightarrow> players_ok (s\<lparr>cl_localPlayerId := i\<rparr>)"
  by (simp add: players_ok_def)

lemma ensureEnvironment_same: "same_players s (ensureEnvironment build s)"
  by (simp add: ensureEnvironment_def)

lemma onWelcome_ok:
  assumes "players_ok s"
  shows "players_ok (fst (onWelcome P T build pid seed s))"
proof -
  define s1 where "s1 = (case cl_localPlayer s of
      Some r \<Rightarrow> if pm_id (model s r) \<noteq> pid then (removePlayer (pm_id (model s r)) s)\<lparr>cl_localPlayer := None\<rparr> else s
    | None \<Rightarrow> s)"
  have "players_ok (s1\<lparr>cl_localPlayerId := Some pid\<rparr>)"
  proof (cases "cl_localPlayer s")
    case None
    then show ?thesis using assms players_ok_id by (simp add: s1_def)
  next
    case (Some r)
    show ?thesis
    proof (cases "pm_id (model s r) = pid")
      case True
      then have "s1\<lparr>cl_localPlayerId := Some pid\<rparr> = s"
        using players_okD(2) [OF assms Some] Some by (simp add: s1_def model_def)
      then show ?thesis using assms by simp
    next
      case False
      then show ?thesis using players_ok_id [OF forget_local_ok [OF assms Some]] Some by (simp add: s1_def)
    qed
  qed
  then have ok: "players_ok (ensureEnvironment build (s1\<lparr>cl_localPlayerId := Some pid, cl_worldSeed := seed\<rparr>))"
    by (rule players_ok_same [OF same_players_trans [OF ui_same(5) ensureEnvironment_same]])
  let ?s = "ensureEnvironment build (s1\<lparr>cl_localPlayerId := Some pid, cl_worldSeed := seed\<rparr>)"
  show ?thesis
  proof (cases "nm_pendingSnapshot (cl_net ?s)")
    case None
    then show ?thesis using ok by (simp add: onWelcome_def Let_def s1_def [symmetric])
  next
    case (Some list)
    obtain s2 e where a: "applySnapshot P T list ?s = (s2, e)" by (metis surj_pair)
    then have "players_ok s2" using applySnapshot_ok [OF ok, of P T list] by simp
    then have "players_ok s2" "players_ok (modNet (\<lambda>n. n\<lparr>nm_pendingSnapshot := None\<rparr>) s2)"
      using players_ok_same [OF modNet_same] by blast+
    then show ?thesis
      using Some a by (cases e) (simp_all add: onWelcome_def Let_def s1_def [symmetric])
  qed
qed

lemma handleServerMsg_ok: "players_ok s \<Longrightarrow> players_ok (fst (handleServerMsg P T build now perf msg s))"
  using applySnapshot_ok [of s] applyEvent_ok [of s] onWelcome_ok [of s] statesLoop_ok [of s]
    players_ok_same [OF modNet_same, of s]
    players_ok_same [OF same_players_trans [OF modNet_same same_players_trans [OF ui_same(3) modNet_same]], of s]
  by (auto simp: handleServerMsg_def onPong_def Let_def split: server_msg.split)

section \<open>Properties\<close>

text \<open>A name the constructor of a player accepts: a string, or nothing.\<close>

definition plainName :: "jsval \<Rightarrow> bool" where
  "plainName v \<longleftrightarrow> \<not> truthy v \<or> (\<exists>s. v = JStr s)"

lemma newPlayerModel_plain: "plainName name \<Longrightarrow> \<exists>m. newPlayerModel P w pid pos name rem = Inr m"
proof -
  assume "plainName name"
  then have "\<exists>key. paletteKey name pid = Inr key" by (auto simp: plainName_def paletteKey_def)
  then show ?thesis by (auto simp: newPlayerModel_def Let_def)
qed

lemma snapLocal_plain: "plainName (ps_name snap) \<Longrightarrow> snd (snapLocal P snap s) = None"
proof -
  assume "plainName (ps_name snap)"
  then obtain m where "newPlayerModel P (of_int (cl_worldSeed s)) (ps_id snap) (ps_pos snap) (ps_name snap) False = Inr m"
    using newPlayerModel_plain by blast
  then show ?thesis by (cases "cl_localPlayer s") (simp_all add: snapLocal_def createLocalPlayer_def Let_def)
qed

lemma snapRemote_plain: "plainName (ps_name snap) \<Longrightarrow> snd (snapRemote P T snap s) = None"
proof -
  assume "plainName (ps_name snap)"
  then obtain m where "newPlayerModel P (of_int (cl_worldSeed s)) (ps_id snap) (ps_pos snap) (ps_name snap) True = Inr m"
    using newPlayerModel_plain by blast
  then show ?thesis
    by (cases "map_get (cl_playersById s) (ps_id snap)") (simp_all add: snapRemote_def addRemote_def Let_def)
qed

lemma snapLoop_plain:
  "list_all (\<lambda>p. plainName (ps_name p)) list \<Longrightarrow> snd (snd (snapLoop P T list ids s)) = None"
proof (induction list arbitrary: ids s)
  case (Cons snap list)
  obtain s1 e1 where 1: "(if Some (ps_id snap) = cl_localPlayerId s then snapLocal P snap s else snapRemote P T snap s) =
      (s1, e1)" by (metis surj_pair)
  have "e1 = None"
    using 1 snapLocal_plain [of snap P s] snapRemote_plain [of snap P T s] Cons.prems by (auto split: if_splits)
  then show ?case using Cons 1 by simp
qed simp

text \<open>
  A snapshot sets the list of players: if all names in it are strings, it is applied without an
  exception, and afterwards a client knows exactly the other players it lists.
\<close>

lemma snapshot_sets_roster:
  assumes "players_ok s" "list_all (\<lambda>p. plainName (ps_name p)) list" "cl_localPlayerId s \<noteq> Some k"
  shows "snd (applySnapshot P T list s) = None \<and>
    (map_has (cl_playersById (fst (applySnapshot P T list s))) k \<longleftrightarrow> k \<noteq> [] \<and> k \<in> set (map ps_id list))"
proof -
  obtain ids s1 e where 1: "snapLoop P T list [] s = (ids, s1, e)" by (metis surj_pair)
  have e: "e = None" using snapLoop_plain [OF assms(2), of P T "[]" s] 1 by simp
  note l = snapLoop_ok [OF assms(1) 1]
  have ids: "ids = filter (\<lambda>k. k \<noteq> []) (map ps_id list)" using l e by simp
  have "map_get (cl_playersById (sweep ids (map_keys (cl_playersById s1)) s1)) k =
      (if k \<in> set (map_keys (cl_playersById s1)) \<and> k \<notin> set ids then None else map_get (cl_playersById s1) k)"
    using sweep_ok [of s1 ids "map_keys (cl_playersById s1)" k] l assms(3) by auto
  moreover have "map_has (cl_playersById s1) k \<longleftrightarrow>
      map_has (cl_playersById s) k \<or> (k \<noteq> [] \<and> k \<in> set (map ps_id list))"
    using l e assms(3) by simp
  ultimately have "map_has (cl_playersById (sweep ids (map_keys (cl_playersById s1)) s1)) k \<longleftrightarrow>
      k \<noteq> [] \<and> k \<in> set (map ps_id list)"
    using ids by (auto simp: map_has_get map_has_keys [symmetric])
  then show ?thesis using 1 e by (simp add: applySnapshot_eq)
qed

text \<open>The client as \<open>utils.js\<close> and \<open>init.js\<close> create it.\<close>

definition emptyClient :: client where
  "emptyClient = \<lparr>cl_models = [], cl_localPlayer = None, cl_localPlayerId = None, cl_players = [], cl_playersById = [],
     cl_balls = [], cl_snowballs = [], cl_snowballsById = [], cl_obstacles = [], cl_cameraYaw = 0, cl_cameraPitch = 0,
     cl_worldSeed = 1, cl_environmentReady = False, cl_deadUI = False, cl_hpUI = (100, 5), cl_chatLog = (0, []),
     cl_alert = None, cl_flashes = 0, cl_net = newNetworkManager, cl_sent = []\<rparr>"

lemma emptyClient_ok: "players_ok emptyClient"
  by (simp add: players_ok_def emptyClient_def)

definition ex_snap :: "string \<Rightarrow> snapshot" where
  "ex_snap i = \<lparr>ps_id = jslit i, ps_name = JStr (jslit ''Ann''), ps_pos = vec 0 0 0, ps_rotY = 0, ps_vel = vec 0 0 0,
     ps_hp = 100, ps_crouch = False, ps_deadUntil = None, ps_updatedAt = 1, ps_pingMs = None\<rparr>"

text \<open>An object that no entry of the table refers to is drawn for ever: nothing removes it.\<close>

definition orphan :: "('z) client_scheme \<Rightarrow> nat \<Rightarrow> bool" where
  "orphan s q \<longleftrightarrow> q \<in> set (cl_players s) \<and> (\<forall>k. map_get (cl_playersById s) k \<noteq> Some q)"

lemma removePlayer_orphan: "orphan s q \<Longrightarrow> orphan (removePlayer pid s) q"
proof (cases "map_get (cl_playersById s) pid")
  case (Some r)
  moreover assume "orphan s q"
  ultimately have "q \<noteq> r" by (auto simp: orphan_def)
  then show ?thesis using \<open>orphan s q\<close> Some by (auto simp: orphan_def removePlayer_def)
qed (simp add: removePlayer_def)

lemma sweep_orphan: "orphan s q \<Longrightarrow> orphan (sweep ids ks s) q"
proof (induction ks arbitrary: s)
  case (Cons p ks)
  have "sweep ids (p # ks) s =
      sweep ids ks (if Some p \<noteq> cl_localPlayerId s \<and> p \<notin> set ids then removePlayer p s else s)"
    by (simp add: sweep_def)
  then show ?case using Cons removePlayer_orphan by auto
qed (simp add: sweep_def)

lemma orphan_same: "same_players s t \<Longrightarrow> orphan t q \<longleftrightarrow> orphan s q"
  by (simp add: orphan_def same_players_def)

text \<open>Creating the local player over an entry of the same identifier orphans the object it had.\<close>

lemma createLocalPlayer_orphan:
  assumes "players_ok s" "map_get (cl_playersById s) (ps_id snap) = Some q" "plainName (ps_name snap)"
  shows "orphan (fst (createLocalPlayer P snap s)) q \<and> snd (createLocalPlayer P snap s) = None"
proof -
  obtain m where m: "newPlayerModel P (of_int (cl_worldSeed s)) (ps_id snap) (ps_pos snap) (ps_name snap) False = Inr m"
    using newPlayerModel_plain [OF assms(3)] by blast
  note d = players_okD(1) [OF assms(1)]
  have "map_get (cl_playersById s) k \<noteq> Some q" if "k \<noteq> ps_id snap" for k
    using d [OF assms(2)] d [of k q] that by auto
  then show ?thesis using m d [OF assms(2)] by (auto simp: orphan_def createLocalPlayer_def Let_def)
qed

text \<open>The messages a reconnecting client gets: its own join event, the welcome, the snapshot.\<close>

definition rejoin ::
  "platform \<Rightarrow> three \<Rightarrow> (int \<Rightarrow> box list) \<Rightarrow> world_event \<Rightarrow> snapshot \<Rightarrow> snapshot list \<Rightarrow> client \<Rightarrow> client" where
  "rejoin P T build ev me others s =
     foldl (\<lambda>s m. fst (handleServerMsg P T build 0 0 m s)) s
       [MsgEvent (ev\<lparr>ev_of := EvJoin me\<rparr>), MsgWelcome (ps_id me) ''global'' 0 7, MsgSnapshot ''global'' (me # others) 1]"

lemma orphan_new:
  assumes "orphan s q" "players_ok s"
  shows "orphan (fst (addRemote P pid pos name s)) q" "orphan (fst (createLocalPlayer P snap s)) q"
proof -
  have "q < length (cl_models s)" using assms players_okD(8) [of s q] by (simp add: orphan_def)
  then show "orphan (fst (addRemote P pid pos name s)) q" "orphan (fst (createLocalPlayer P snap s)) q"
    using assms(1) by (auto simp: orphan_def addRemote_def createLocalPlayer_def Let_def split: sum.split)
qed

lemma snapLoop_orphan:
  assumes "orphan s q" "players_ok s"
  shows "orphan (fst (snd (snapLoop P T list ids s))) q"
  using assms
proof (induction list arbitrary: ids s)
  case (Cons snap list)
  show ?case
  proof (cases "ps_id snap = []")
    case False
    obtain s1 e1 where 1: "(if Some (ps_id snap) = cl_localPlayerId s then snapLocal P snap s else snapRemote P T snap s) =
        (s1, e1)" by (metis surj_pair)
    have ok: "players_ok s1"
      using 1 snapLocal_ok(1) [OF Cons.prems(2)] snapRemote_ok(1) [OF Cons.prems(2)] by (metis (no_types))
    have "orphan s1 q"
    proof (cases "Some (ps_id snap) = cl_localPlayerId s")
      case True
      obtain s2 e2 where 2: "(if cl_localPlayer s = None then createLocalPlayer P snap s else (s, None)) = (s2, e2)"
        by (metis surj_pair)
      have "orphan s2 q" using 2 orphan_new(2) [OF Cons.prems, of P snap] Cons.prems(1) by (auto split: if_splits)
      then show ?thesis using snapLocal_same [OF 2] 1 True by (simp add: orphan_same)
    next
      case False
      obtain s2 e2 where 2: "(if map_get (cl_playersById s) (ps_id snap) = None
          then addRemote P (ps_id snap) (ps_pos snap) (ps_name snap) s else (s, None)) = (s2, e2)"
        by (metis surj_pair)
      have "orphan s2 q"
        using 2 orphan_new(1) [OF Cons.prems, of P "ps_id snap" "ps_pos snap" "ps_name snap"] Cons.prems(1)
        by (auto split: if_splits)
      moreover have "cl_localPlayerId s \<noteq> Some (ps_id snap)" using False by auto
      ultimately show ?thesis
        using snapRemote_same [OF 2 findOrAdd_ok(3) [OF Cons.prems(2) _ 2], of T] 1 False orphan_same [of s2 s1]
        by simp
    qed
    then show ?thesis using Cons.IH [OF _ ok] False 1 by (cases e1) (simp_all add: Cons.prems)
  qed (use Cons in simp)
qed simp

lemma applySnapshot_orphan:
  assumes "orphan s q" "players_ok s"
  shows "orphan (fst (applySnapshot P T list s)) q"
proof -
  obtain ids s1 e where 1: "snapLoop P T list [] s = (ids, s1, e)" by (metis surj_pair)
  have "orphan s1 q" using snapLoop_orphan [OF assms, of P T list "[]"] 1 by simp
  then show ?thesis by (cases e) (simp_all add: applySnapshot_eq 1 sweep_orphan)
qed

text \<open>The three steps of a reconnection.\<close>

lemma join_adds_stranger:
  assumes "players_ok s" "cl_localPlayer s = Some r" "pm_id (model s r) \<noteq> ps_id me" "pm_id (model s r) \<noteq> []"
    and "map_get (cl_playersById s) (ps_id me) = None" "plainName (ps_name me)" "ev_of ev = EvJoin me"
  shows "map_get (cl_playersById (fst (applyEvent P T now ev s))) (ps_id me) = Some (length (cl_models s))"
    "cl_localPlayer (fst (applyEvent P T now ev s)) = Some r"
    "model (fst (applyEvent P T now ev s)) r = model s r" "cl_net (fst (applyEvent P T now ev s)) = cl_net s"
proof -
  have l: "r < length (cl_models s)" "cl_localPlayerId s = Some (pm_id (model s r))"
    using players_okD(2) [OF assms(1,2)] by (simp_all add: model_def)
  obtain m where "newPlayerModel P (of_int (cl_worldSeed s)) (ps_id me) (ps_pos me) (ps_name me) True = Inr m"
    using newPlayerModel_plain [OF assms(6)] by blast
  then have "fst (applyEvent P T now ev s) =
      s\<lparr>cl_models := cl_models s @ [m], cl_players := cl_players s @ [length (cl_models s)],
         cl_playersById := map_set (ps_id me) (length (cl_models s)) (cl_playersById s)\<rparr>"
    using assms l by (simp add: applyEvent_def noLocalId_def addRemote_def map_has_get Let_def)
  then show "map_get (cl_playersById (fst (applyEvent P T now ev s))) (ps_id me) = Some (length (cl_models s))"
    "cl_localPlayer (fst (applyEvent P T now ev s)) = Some r"
    "model (fst (applyEvent P T now ev s)) r = model s r" "cl_net (fst (applyEvent P T now ev s)) = cl_net s"
    using assms(2) l(1) by (simp_all add: model_def nth_append)
qed

lemma welcome_forgets_local:
  assumes "cl_localPlayer s = Some r" "pm_id (model s r) \<noteq> pid" "nm_pendingSnapshot (cl_net s) = None"
    "map_get (cl_playersById s) pid = Some q"
  shows "map_get (cl_playersById (fst (onWelcome P T build pid seed s))) pid = Some q"
    "cl_localPlayer (fst (onWelcome P T build pid seed s)) = None"
    "cl_localPlayerId (fst (onWelcome P T build pid seed s)) = Some pid"
  using assms by (simp_all add: onWelcome_def ensureEnvironment_def removePlayer_fields Let_def)

lemma snapshot_orphans_stranger:
  assumes "players_ok s" "cl_localPlayer s = None" "cl_localPlayerId s = Some (ps_id me)" "ps_id me \<noteq> []"
    and "map_get (cl_playersById s) (ps_id me) = Some q" "plainName (ps_name me)"
  shows "orphan (fst (applySnapshot P T (me # others) s)) q"
proof -
  obtain s1 e1 where 1: "createLocalPlayer P me s = (s1, e1)" by (metis surj_pair)
  obtain s2 e2 where 2: "snapLocal P me s = (s2, e2)" by (metis surj_pair)
  have "orphan s1 q" using createLocalPlayer_orphan [OF assms(1,5,6), of P] 1 by simp
  then have o2: "orphan s2 q" using snapLocal_same [of s P me s1 e1] assms(2) 1 2 orphan_same [of s1 s2] by simp
  have "e2 = None" using snapLocal_plain [OF assms(6), of P s] 2 by simp
  moreover obtain ids s3 e3 where 3: "snapLoop P T others [ps_id me] s2 = (ids, s3, e3)" by (metis surj_pair)
  ultimately have "snapLoop P T (me # others) [] s = (ids, s3, e3)" using assms(3,4) 2 by simp
  moreover have "orphan s3 q"
    using snapLoop_orphan [OF o2 snapLocal_ok(1) [OF assms(1,3) 2], of P T others "[ps_id me]"] 3 by simp
  ultimately show ?thesis by (cases e3) (simp_all add: applySnapshot_eq sweep_orphan)
qed


definition ex_client :: client where
  "ex_client = emptyClient\<lparr>cl_models := [(ex_player (vec 0 0 0))\<lparr>pm_id := [97]\<rparr>], cl_localPlayer := Some 0,
     cl_localPlayerId := Some [97], cl_players := [0], cl_playersById := [([97], 0)]\<rparr>"

lemma ex_client_ok: "players_ok ex_client"
  by (auto simp: players_ok_def ex_client_def emptyClient_def ex_player_def map_get_def map_ok_def map_keys_def
      split: if_splits)


text \<open>A closed connection whose retry never opens: the timer fires, the new socket closes.\<close>

definition failedRetry :: "('z) client_scheme \<Rightarrow> ('z) client_scheme" where
  "failedRetry s = onCloseWs (reconnectFires s)"

lemma failedRetry_net:
  "nm_connectAttempts (cl_net (failedRetry s)) = (if nm_connectAttempts (cl_net s) \<ge> 3
     then nm_connectAttempts (cl_net s) else nm_connectAttempts (cl_net s) + 1)"
  "nm_reloadTimer (cl_net (failedRetry s)) \<longleftrightarrow> nm_reloadTimer (cl_net s) \<or> nm_connectAttempts (cl_net s) \<ge> 3"
  by (simp_all add: failedRetry_def reconnectFires_def connect_def onCloseWs_def scheduleReconnect_def modNet_def
      maxConnectAttempts_def Let_def)

text \<open>
  The client gives up: after the first loss of a connection and \<open>n\<close> retries that fail, the
  number of attempts is \<open>n + 1\<close> but never more than 3, and the page reload is due exactly from the
  third failed retry on. An error message of the server makes it due at the next close.
\<close>

lemma reconnect_gives_up:
  assumes "nm_connectAttempts (cl_net s) = 0" "\<not> nm_reloadTimer (cl_net s)"
  shows "nm_connectAttempts (cl_net ((failedRetry ^^ n) (onCloseWs s))) = min 3 (n + 1) \<and>
    (nm_reloadTimer (cl_net ((failedRetry ^^ n) (onCloseWs s))) \<longleftrightarrow> n \<ge> 3) \<and>
    nm_reloadTimer (cl_net (onCloseWs (fst (handleServerMsg P T build now perf (MsgError e) s))))"
proof -
  have "nm_connectAttempts (cl_net (onCloseWs s)) = 1" "\<not> nm_reloadTimer (cl_net (onCloseWs s))"
    using assms by (simp_all add: onCloseWs_def scheduleReconnect_def modNet_def maxConnectAttempts_def Let_def)
  then have "nm_connectAttempts (cl_net ((failedRetry ^^ n) (onCloseWs s))) = min 3 (n + 1) \<and>
      (nm_reloadTimer (cl_net ((failedRetry ^^ n) (onCloseWs s))) \<longleftrightarrow> n \<ge> 3)"
    by (induction n) (auto simp: failedRetry_net)
  then show ?thesis
    by (simp add: handleServerMsg_def onCloseWs_def scheduleReconnect_def modNet_def Let_def)
qed

end
