(* ===== verification/Drawing.thy ===== *)
theory Drawing
  imports Protocol
begin

text \<open>
  What the browser client hands to the drawing library: objects with a pose and children, made of
  geometries, materials, canvas textures, sprites and lights, with the arguments that the source
  gives to the constructors. The second part says what the library documents of a drawn object: the
  solid of a geometry, the order of scaling, rotation and translation, and the points that an object
  with its children takes up in the world.
\<close>

section \<open>Objects\<close>

text \<open>The calls on the context of a canvas, in order.\<close>

datatype canvas_op =
    FillStyle string
  | FillGradient "(real \<times> real \<times> real) \<times> (real \<times> real \<times> real)" "(real \<times> string) list"
  | StrokeStyle string
  | LineWidth real
  | FillRect real real real real
  | StrokeRect real real real real
  | ShadowColor string
  | ShadowBlur real
  | ShadowOffset real real
  | Font string
  | TextAlign string
  | TextBaseline string
  | FillText jsstr real real

record texture =
  tx_width :: nat
  tx_height :: nat
  tx_ops :: "canvas_op list"
  tx_nearest :: bool
  tx_repeat :: "(real \<times> real) option"

datatype colour = Hex nat | HSL real real real

text \<open>The options of a material, as its literal lists them.\<close>

datatype mat_option =
    Color colour
  | Emissive colour
  | EmissiveIntensity real
  | Roughness real
  | Metalness real
  | FlatShading bool
  | Map texture
  | Transparent bool
  | Opacity real
  | PointSize real
  | AdditiveBlending

datatype mat_kind = BasicMaterial | StandardMaterial | SpriteMaterial | PointsMaterial

datatype material = Material mat_kind "mat_option list"

text \<open>A \<open>BufferGeometry\<close> is given by its vertices.\<close>

datatype geometry =
    BoxGeometry real real real
  | PlaneGeometry real real
  | CylinderGeometry real real real nat
  | SphereGeometry real nat nat
  | ExtrudeGeometry "(real \<times> real) list" real real real nat
  | BufferGeometry "vec3 list"

datatype object_kind =
    Group
  | Mesh geometry material
  | Sprite material
  | Points geometry material
  | PointLight nat real real
  | AmbientLight nat real
  | DirectionalLight nat real "nat \<times> nat" "real \<times> real \<times> real \<times> real"

record pose =
  po_position :: vec3
  po_rotation :: vec3
  po_scale :: vec3
  po_castShadow :: bool
  po_receiveShadow :: bool
  po_visible :: bool

datatype object3d = Object3D object_kind pose "object3d list"

text \<open>The pose of a new object, moved.\<close>

definition posed :: "real \<Rightarrow> real \<Rightarrow> real \<Rightarrow> pose" where
  "posed x y z = \<lparr>po_position = vec x y z, po_rotation = vec 0 0 0, po_scale = vec 1 1 1, po_castShadow = False,
     po_receiveShadow = False, po_visible = True\<rparr>"

definition casting :: "pose \<Rightarrow> pose" where
  "casting p = p\<lparr>po_castShadow := True\<rparr>"

definition receiving :: "pose \<Rightarrow> pose" where
  "receiving p = p\<lparr>po_receiveShadow := True\<rparr>"

definition turned :: "real \<Rightarrow> real \<Rightarrow> real \<Rightarrow> pose \<Rightarrow> pose" where
  "turned a b c p = p\<lparr>po_rotation := vec a b c\<rparr>"

definition scaled :: "real \<Rightarrow> real \<Rightarrow> real \<Rightarrow> pose \<Rightarrow> pose" where
  "scaled a b c p = p\<lparr>po_scale := vec a b c\<rparr>"

definition showing :: "bool \<Rightarrow> pose \<Rightarrow> pose" where
  "showing b p = p\<lparr>po_visible := b\<rparr>"

lemmas pose_defs = posed_def casting_def receiving_def turned_def scaled_def showing_def

section \<open>What the library documents of them\<close>

definition turnX :: "real \<Rightarrow> vec3 \<Rightarrow> vec3" where
  "turnX a v = vec (vx v) (vy v * cos a - vz v * sin a) (vy v * sin a + vz v * cos a)"

definition turnY :: "real \<Rightarrow> vec3 \<Rightarrow> vec3" where
  "turnY a v = vec (vx v * cos a + vz v * sin a) (vy v) (vz v * cos a - vx v * sin a)"

definition turnZ :: "real \<Rightarrow> vec3 \<Rightarrow> vec3" where
  "turnZ a v = vec (vx v * cos a - vy v * sin a) (vx v * sin a + vy v * cos a) (vz v)"

text \<open>Scale, turn by the Euler angles in the order XYZ, move.\<close>

definition place :: "pose \<Rightarrow> vec3 \<Rightarrow> vec3" where
  "place p v =
     (let v = vec (vx v * vx (po_scale p)) (vy v * vy (po_scale p)) (vz v * vz (po_scale p));
          v = turnX (vx (po_rotation p)) (turnY (vy (po_rotation p)) (turnZ (vz (po_rotation p)) v))
      in vec (vx v + vx (po_position p)) (vy v + vy (po_position p)) (vz v + vz (po_position p)))"

text \<open>
  The solid of a geometry around the origin of its object. Of a mesh of given vertices and of an
  extruded shape only the vertices, without the bevel, are counted.
\<close>

fun solid :: "geometry \<Rightarrow> vec3 set" where
  "solid (BoxGeometry w h d) = {v. \<bar>vx v\<bar> \<le> w / 2 \<and> \<bar>vy v\<bar> \<le> h / 2 \<and> \<bar>vz v\<bar> \<le> d / 2}"
| "solid (PlaneGeometry w h) = {v. \<bar>vx v\<bar> \<le> w / 2 \<and> \<bar>vy v\<bar> \<le> h / 2 \<and> vz v = 0}"
| "solid (CylinderGeometry rt rb h n) =
     {v. \<bar>vy v\<bar> \<le> h / 2 \<and> (vx v)\<^sup>2 + (vz v)\<^sup>2 \<le> (rb + (rt - rb) * (vy v / h + 1 / 2))\<^sup>2}"
| "solid (SphereGeometry r m n) = {v. (vx v)\<^sup>2 + (vy v)\<^sup>2 + (vz v)\<^sup>2 \<le> r\<^sup>2}"
| "solid (ExtrudeGeometry ps d bt bs n) = {v. (vx v, vy v) \<in> set ps \<and> (vz v = 0 \<or> vz v = d)}"
| "solid (BufferGeometry vs) = set vs"

text \<open>Only meshes are solid; sprites face the camera and lights have no shape.\<close>

fun kindPoints :: "object_kind \<Rightarrow> vec3 set" where
  "kindPoints (Mesh g m) = solid g"
| "kindPoints _ = {}"

primrec points :: "(pose \<Rightarrow> vec3 \<Rightarrow> vec3) \<Rightarrow> object3d \<Rightarrow> vec3 set" where
  "points P (Object3D k p cs) = P p ` (kindPoints k \<union> \<Union> (set (map (points P) cs)))"

section \<open>Lemmas\<close>

lemma points_group: "points P (Object3D Group p cs) = (\<Union>c \<in> set cs. P p ` points P c)"
  by auto

lemma points_sprite [simp]: "points P (Object3D (Sprite m) p []) = {}"
  by simp

lemma points_mesh: "points P (Object3D (Mesh g m) p []) = P p ` solid g"
  by simp

lemma place_posed: "place (posed x y z) v = vec (vx v + x) (vy v + y) (vz v + z)"
  by (simp add: place_def posed_def turnX_def turnY_def turnZ_def)

lemma place_flags [simp]:
  "place (casting p) = place p" "place (receiving p) = place p" "place (showing b p) = place p"
  by (simp_all add: fun_eq_iff place_def casting_def receiving_def showing_def)

lemma place_turned:
  "place (turned a b c (posed x y z)) v =
     (let u = turnX a (turnY b (turnZ c v)) in vec (vx u + x) (vy u + y) (vz u + z))"
  by (simp add: place_def posed_def turned_def turnZ_def Let_def)

text \<open>A turn about the vertical axis keeps heights and distances from the axis.\<close>

lemma turnY_cylinder: "vy (turnY a v) = vy v" "(vx (turnY a v))\<^sup>2 + (vz (turnY a v))\<^sup>2 = (vx v)\<^sup>2 + (vz v)\<^sup>2"
proof -
  have "(x * c + z * d)\<^sup>2 + (z * c - x * d)\<^sup>2 = (x\<^sup>2 + z\<^sup>2) * (d\<^sup>2 + c\<^sup>2)" for x z c d :: real
    by (simp add: power2_eq_square algebra_simps)
  then show "(vx (turnY a v))\<^sup>2 + (vz (turnY a v))\<^sup>2 = (vx v)\<^sup>2 + (vz v)\<^sup>2" by (simp add: turnY_def)
qed (simp add: turnY_def)

text \<open>A turn mixes two coordinates and makes neither larger than their sum.\<close>

lemma turn_bound: "\<bar>x * cos a - y * sin a\<bar> \<le> \<bar>x\<bar> + \<bar>y\<bar>" "\<bar>x * sin a + y * cos a\<bar> \<le> \<bar>x\<bar> + \<bar>y\<bar>" for a x y :: real
proof -
  have "\<bar>u * cos a\<bar> \<le> \<bar>u\<bar>" "\<bar>u * sin a\<bar> \<le> \<bar>u\<bar>" for u
    using abs_cos_le_one [of a] abs_sin_le_one [of a]
    by (simp_all add: abs_mult mult_left_le)
  then have "\<bar>x * cos a\<bar> \<le> \<bar>x\<bar>" "\<bar>y * sin a\<bar> \<le> \<bar>y\<bar>" "\<bar>x * sin a\<bar> \<le> \<bar>x\<bar>" "\<bar>y * cos a\<bar> \<le> \<bar>y\<bar>" by simp_all
  then show "\<bar>x * cos a - y * sin a\<bar> \<le> \<bar>x\<bar> + \<bar>y\<bar>" "\<bar>x * sin a + y * cos a\<bar> \<le> \<bar>x\<bar> + \<bar>y\<bar>" by linarith+
qed

end
