(* ===== verification/Client_Env.thy ===== *)
theory Client_Env
  imports Client_Scene Drawing
begin

text \<open>
  The scenery of the browser client, \<open>client_src/environment.js\<close>: the lists of models, their
  placement by seeded random numbers, the tree in the centre with its decorations, ground, lights and
  snowflakes as the objects of the scene, and the boxes that snowballs collide with. A function that
  draws random numbers takes the state of the generator and returns the next one. Loading a model and
  measuring its meshes is the library's: the meshes with their bounding boxes are arguments, and so
  are the vertices of the library's cone and plane.
\<close>

section \<open>The models\<close>

definition KENNEY_GLBS :: "string list" where
  "KENNEY_GLBS =
    [''bench-short.glb'', ''bench.glb'', ''cabin-corner-bottom.glb'', ''cabin-corner-logs.glb'',
     ''cabin-corner.glb'', ''cabin-door-rotate.glb'', ''cabin-doorway-center.glb'',
     ''cabin-doorway-left.glb'', ''cabin-doorway-right.glb'', ''cabin-doorway.glb'',
     ''cabin-fence.glb'', ''cabin-overhang-door-rotate.glb'', ''cabin-overhang-doorway.glb'',
     ''cabin-roof-chimney.glb'', ''cabin-roof-corner.glb'', ''cabin-roof-dormer.glb'',
     ''cabin-roof-point.glb'', ''cabin-roof-snow-chimney.glb'', ''cabin-roof-snow-corner.glb'',
     ''cabin-roof-snow-dormer.glb'', ''cabin-roof-snow-point.glb'', ''cabin-roof-snow.glb'',
     ''cabin-roof-top.glb'', ''cabin-roof.glb'', ''cabin-wall-low.glb'',
     ''cabin-wall-roof-center.glb'', ''cabin-wall-roof.glb'', ''cabin-wall-wreath.glb'',
     ''cabin-wall.glb'', ''cabin-window-a.glb'', ''cabin-window-b.glb'', ''cabin-window-c.glb'',
     ''cabin-window-large.glb'', ''candy-cane-green.glb'', ''candy-cane-red.glb'',
     ''festivus-pole.glb'', ''floor-stone.glb'', ''floor-wood-snow.glb'', ''floor-wood.glb'',
     ''gingerbread-man.glb'', ''gingerbread-woman.glb'', ''hanukkah-dreidel.glb'',
     ''hanukkah-menorah-candles.glb'', ''hanukkah-menorah.glb'', ''kwanzaa-kikombe.glb'',
     ''kwanzaa-kinara-alternative.glb'', ''kwanzaa-kinara.glb'', ''lantern-hanging.glb'',
     ''lantern.glb'', ''lights-colored.glb'', ''lights-green.glb'', ''lights-red.glb'',
     ''nutcracker.glb'', ''present-a-cube.glb'', ''present-a-rectangle.glb'', ''present-a-round.glb'',
     ''present-b-cube.glb'', ''present-b-rectangle.glb'', ''present-b-round.glb'', ''reindeer.glb'',
     ''rocks-large.glb'', ''rocks-medium.glb'', ''rocks-small.glb'', ''sled-long.glb'', ''sled.glb'',
     ''snow-bunker.glb'', ''snow-flat-large.glb'', ''snow-flat.glb'', ''snow-pile.glb'',
     ''snowflake-a.glb'', ''snowflake-b.glb'', ''snowflake-c.glb'', ''snowman-hat.glb'',
     ''snowman.glb'', ''sock-green-cane.glb'', ''sock-green.glb'', ''sock-red-cane.glb'',
     ''sock-red.glb'', ''train-locomotive.glb'', ''train-tender.glb'', ''train-wagon-flat-short.glb'',
     ''train-wagon-flat.glb'', ''train-wagon-logs.glb'', ''train-wagon-short.glb'',
     ''train-wagon.glb'', ''trainset-rail-bend.glb'', ''trainset-rail-corner.glb'',
     ''trainset-rail-detailed-bend.glb'', ''trainset-rail-detailed-corner.glb'',
     ''trainset-rail-detailed-straight.glb'', ''trainset-rail-straight.glb'',
     ''tree-decorated-snow.glb'', ''tree-decorated.glb'', ''tree-snow-a.glb'', ''tree-snow-b.glb'',
     ''tree-snow-c.glb'', ''tree.glb'', ''wreath-decorated.glb'', ''wreath.glb'']"

definition KENNEY_OUTDOOR_GLBS :: "string list" where
  "KENNEY_OUTDOOR_GLBS =
    [''bench-short.glb'', ''bench.glb'', ''candy-cane-green.glb'', ''candy-cane-red.glb'',
     ''festivus-pole.glb'', ''gingerbread-man.glb'', ''gingerbread-woman.glb'',
     ''lantern-hanging.glb'', ''lantern.glb'', ''lights-colored.glb'', ''lights-green.glb'',
     ''lights-red.glb'', ''nutcracker.glb'', ''present-a-cube.glb'', ''present-a-rectangle.glb'',
     ''present-a-round.glb'', ''present-b-cube.glb'', ''present-b-rectangle.glb'',
     ''present-b-round.glb'', ''reindeer.glb'', ''rocks-large.glb'', ''rocks-medium.glb'',
     ''rocks-small.glb'', ''sled-long.glb'', ''sled.glb'', ''snow-bunker.glb'',
     ''snow-flat-large.glb'', ''snow-flat.glb'', ''snow-pile.glb'', ''snowflake-a.glb'',
     ''snowflake-b.glb'', ''snowflake-c.glb'', ''train-locomotive.glb'', ''train-tender.glb'',
     ''train-wagon-flat-short.glb'', ''train-wagon-flat.glb'', ''train-wagon-logs.glb'',
     ''train-wagon-short.glb'', ''train-wagon.glb'', ''tree-decorated-snow.glb'',
     ''tree-decorated.glb'', ''tree-snow-a.glb'', ''tree-snow-b.glb'', ''tree-snow-c.glb'',
     ''tree.glb'', ''wreath-decorated.glb'', ''wreath.glb'']"

section \<open>Obstacles of a loaded model\<close>

text \<open>The operations of the library's boxes, and what it documents of them.\<close>

record box_lib =
  b_size :: "box \<Rightarrow> vec3"
  b_center :: "box \<Rightarrow> vec3"

definition boxes_ok :: "box_lib \<Rightarrow> bool" where
  "boxes_ok B \<longleftrightarrow>
     (\<forall>b. b_size B b = vec (vx (bx_max b) - vx (bx_min b)) (vy (bx_max b) - vy (bx_min b)) (vz (bx_max b) - vz (bx_min b))) \<and>
     (\<forall>b. b_center B b = vec ((vx (bx_min b) + vx (bx_max b)) / 2) ((vy (bx_min b) + vy (bx_max b)) / 2)
        ((vz (bx_min b) + vz (bx_max b)) / 2))"

text \<open>An object of a model: whether it is a mesh, whether it is visible, and its box in the world.\<close>

record scene_object =
  so_isMesh :: bool
  so_visible :: bool
  so_worldBox :: "box option"

text \<open>The box of a mesh, pulled in at its sides; meshes that are small in every direction have none.\<close>

definition meshObstacle :: "box_lib \<Rightarrow> box \<Rightarrow> box option" where
  "meshObstacle B worldBox =
     (let size = b_size B worldBox
      in if vx size < 2 / 10 \<and> vy size < 2 / 10 \<and> vz size < 2 / 10 then None
         else
           let center = b_center B worldBox;
               halfX = vx size * (5 / 10);
               halfZ = vz size * (5 / 10);
               margin = 1 / 10;
               shrinkHalfX = max (halfX - margin) (halfX * (5 / 10));
               shrinkHalfZ = max (halfZ - margin) (halfZ * (5 / 10))
           in Some \<lparr>bx_min = vec (vx center - shrinkHalfX) (vy (bx_min worldBox)) (vz center - shrinkHalfZ),
                     bx_max = vec (vx center + shrinkHalfX) (vy (bx_max worldBox)) (vz center + shrinkHalfZ)\<rparr>)"

fun modelObstacles :: "box_lib \<Rightarrow> scene_object list \<Rightarrow> box list" where
  "modelObstacles B [] = []"
| "modelObstacles B (o1 # os) =
     (if \<not> so_isMesh o1 \<or> \<not> so_visible o1 then modelObstacles B os
      else case so_worldBox o1 of
        None \<Rightarrow> modelObstacles B os
      | Some worldBox \<Rightarrow>
          (case meshObstacle B worldBox of
             None \<Rightarrow> modelObstacles B os
           | Some b \<Rightarrow> b # modelObstacles B os))"

text \<open>
  \<open>encodeURI\<close> of the language: letters, digits and the signs of a URI stand for themselves, every other
  byte of the UTF-8 form becomes an escape, and a lone surrogate throws.
\<close>

definition uriPlain :: "nat \<Rightarrow> bool" where
  "uriPlain n \<longleftrightarrow> 48 \<le> n \<and> n \<le> 57 \<or> 65 \<le> n \<and> n \<le> 90 \<or> 97 \<le> n \<and> n \<le> 122 \<or>
     n \<in> {0x3B, 0x2F, 0x3F, 0x3A, 0x40, 0x26, 0x3D, 0x2B, 0x24, 0x2C, 0x23, 0x2D, 0x5F, 0x2E, 0x21, 0x7E, 0x2A, 0x27, 0x28, 0x29}"

definition uriByte :: "byte \<Rightarrow> jsstr" where
  "uriByte b =
     (let n = unat b in if uriPlain n then [of_nat n] else [37, upperHex (n div 16), upperHex (n mod 16)])"

definition encodeURI :: "jsstr \<Rightarrow> js_err + jsstr" where
  "encodeURI s = (if wellFormed16 (map unat s) then Inr (concat (map uriByte (utf8 s))) else Inl URIError)"

definition modelBaseUrl :: string where
  "modelBaseUrl = ''/assets/kenney_holiday_kit/Models/GLB format/''"

definition modelUrl :: "string \<Rightarrow> js_err + jsstr" where
  "modelUrl name = encodeURI (jslit (modelBaseUrl @ name))"

section \<open>The tree\<close>

definition treeScale :: real where
  "treeScale = 15 / 10"

record tree_layer =
  tl_y :: real
  tl_r :: real
  tl_h :: real

definition treeLayer :: "real \<Rightarrow> real \<Rightarrow> real \<Rightarrow> tree_layer" where
  "treeLayer y r h = \<lparr>tl_y = y * treeScale, tl_r = r * treeScale, tl_h = h * treeScale\<rparr>"

definition treeLayers :: "tree_layer list" where
  "treeLayers =
    [treeLayer (55 / 10) 6 5, treeLayer 8 (52 / 10) (45 / 10), treeLayer (105 / 10) (42 / 10) 4,
     treeLayer (128 / 10) (32 / 10) (35 / 10), treeLayer (148 / 10) (22 / 10) 3, treeLayer (165 / 10) (12 / 10) (25 / 10)]"

text \<open>The vertices of a cone, shaken except near the tip.\<close>

fun distortLoop :: "real \<Rightarrow> vec3 list \<Rightarrow> int32 \<Rightarrow> vec3 list \<times> int32" where
  "distortLoop h [] s = ([], s)"
| "distortLoop h (v # vs) s =
     (let distortion = 4 / 10;
          (v, s) = (if vy v < h / 2 - 1 / 10 then
              (let (a, s) = rng s; (b, s) = rng s; (c, s) = rng s
               in (vec (vx v + (a - 5 / 10) * distortion) (vy v + (b - 5 / 10) * distortion)
                     (vz v + (c - 5 / 10) * distortion), s))
            else (v, s));
          (vs, s) = distortLoop h vs s
      in (v # vs, s))"

definition leafMaterial :: material where
  "leafMaterial = Material StandardMaterial [Color (Hex 0x0a4d15), Roughness (7 / 10), Metalness (1 / 10), FlatShading True]"

definition trunkMaterial :: material where
  "trunkMaterial = Material StandardMaterial [Color (Hex 0x3e2723), Roughness 1]"

definition ornamentMaterials :: "material list" where
  "ornamentMaterials =
    [Material StandardMaterial [Color (Hex 0xff0000), Roughness (1 / 10), Metalness (4 / 10)],
     Material StandardMaterial [Color (Hex 0xffd700), Roughness (1 / 10), Metalness (8 / 10)],
     Material StandardMaterial [Color (Hex 0xeeeeee), Roughness (1 / 10), Metalness (5 / 10)],
     Material StandardMaterial [Color (Hex 0x2266ff), Roughness (1 / 10), Metalness (5 / 10)],
     Material StandardMaterial [Color (Hex 0xff00ff), Roughness (1 / 10), Metalness (4 / 10)]]"

definition trunk :: object3d where
  "trunk = Object3D (Mesh (CylinderGeometry (12 / 10 * treeScale) (18 / 10 * treeScale) (6 * treeScale) 8) trunkMaterial)
     (receiving (casting (posed 0 (3 * treeScale) 0))) []"

definition layerMesh :: "tree_layer \<Rightarrow> vec3 list \<Rightarrow> object3d" where
  "layerMesh layer vertices =
     Object3D (Mesh (BufferGeometry vertices) leafMaterial) (receiving (casting (posed 0 (tl_y layer) 0))) []"

text \<open>An ornament with its size and the number of its material; a bulb with its hue, speed and phase.\<close>

datatype decoration =
    Ball vec3 real nat
  | Bulb vec3 real real real

fun decorationObject :: "decoration \<Rightarrow> object3d" where
  "decorationObject (Ball pos r mat) =
     Object3D (Mesh (SphereGeometry r 16 16) (ornamentMaterials ! mat)) (casting (posed (vx pos) (vy pos) (vz pos))) []"
| "decorationObject (Bulb pos hue speed phase) =
     (let colorVal = HSL hue 1 (5 / 10)
      in Object3D (Mesh (SphereGeometry (12 / 100 * treeScale) 8 8)
           (Material StandardMaterial [Color colorVal, Emissive colorVal, EmissiveIntensity (8 / 10), Roughness (1 / 10)]))
           (posed (vx pos) (vy pos) (vz pos)) [])"

definition decorate :: "nat \<Rightarrow> tree_layer \<Rightarrow> nat \<Rightarrow> nat \<Rightarrow> int32 \<Rightarrow> decoration \<times> int32" where
  "decorate tierIndex layer decorCount i s =
     (let angle = (real i / real decorCount) * pi * 2 + real tierIndex * (15 / 10);
          (u, s) = rng s;
          ratio = 1 / 10 + u * (8 / 10);
          currentRadius = tl_r layer * ratio * (9 / 10);
          actualY = tl_y layer - (tl_h layer / 2) + (tl_h layer * (1 - ratio));
          x = cos angle * currentRadius;
          z = sin angle * currentRadius;
          offset = 2 / 10;
          finalX = x * (1 + offset / currentRadius);
          finalZ = z * (1 + offset / currentRadius);
          (u, s) = rng s
      in if u > 4 / 10 then
           (let (a, s) = rng s; size = (25 / 100 + a * (15 / 100)) * treeScale;
                (b, s) = rng s; mat = nat \<lfloor>b * real (length ornamentMaterials)\<rfloor>
            in (Ball (vec finalX (actualY - 2 / 10 * treeScale) finalZ) size mat, s))
         else
           (let (hue, s) = rng s; (a, s) = rng s; (b, s) = rng s
            in (Bulb (vec finalX actualY finalZ) hue (8 / 10 + a * (12 / 10)) (b * pi * 2), s)))"

fun decorLoop :: "nat \<Rightarrow> tree_layer \<Rightarrow> nat \<Rightarrow> nat list \<Rightarrow> int32 \<Rightarrow> decoration list \<times> int32" where
  "decorLoop tierIndex layer decorCount [] s = ([], s)"
| "decorLoop tierIndex layer decorCount (i # is) s =
     (let (d, s) = decorate tierIndex layer decorCount i s;
          (ds, s) = decorLoop tierIndex layer decorCount is s
      in (d # ds, s))"

text \<open>
  \<open>cone\<close> gives the vertices of the library's cone for a layer. Each layer yields its mesh and its
  decorations.
\<close>

fun layersLoop ::
  "(tree_layer \<Rightarrow> vec3 list) \<Rightarrow> nat \<Rightarrow> tree_layer list \<Rightarrow> int32 \<Rightarrow> (object3d \<times> decoration list) list \<times> int32" where
  "layersLoop cone tierIndex [] s = ([], s)"
| "layersLoop cone tierIndex (layer # layers) s =
     (let (vertices, s) = distortLoop (tl_h layer) (cone layer) s;
          decorCount = nat \<lfloor>tl_r layer * 7\<rfloor>;
          (ds, s) = decorLoop tierIndex layer decorCount [0..<decorCount] s;
          (rest, s) = layersLoop cone (tierIndex + 1) layers s
      in ((layerMesh layer vertices, ds) # rest, s))"

definition starPoints :: "(real \<times> real) list" where
  "starPoints =
     map (\<lambda>i. let r = (if i mod 2 = 0 then 12 / 10 * treeScale else 5 / 10 * treeScale);
                   a = (real i / (5 * 2)) * pi * 2
               in (cos a * r, sin a * r)) [0..<5 * 2]"

definition starMesh :: object3d where
  "starMesh =
     Object3D (Mesh (ExtrudeGeometry starPoints (3 / 10 * treeScale) (1 / 10 * treeScale) (1 / 10 * treeScale) 1)
       (Material StandardMaterial [Color (Hex 0xffd700), Emissive (Hex 0xffaa00), EmissiveIntensity (6 / 10),
          Metalness (8 / 10), Roughness (2 / 10)])) (posed 0 0 0) []"

definition createStarTexture :: texture where
  "createStarTexture = \<lparr>tx_width = 64, tx_height = 64,
     tx_ops = [FillGradient ((32, 32, 0), (32, 32, 32))
         [(0, ''rgba(255, 255, 200, 1)''), (4 / 10, ''rgba(255, 200, 50, 0.3)''), (1, ''rgba(255, 200, 0, 0)'')],
       FillRect 0 0 64 64], tx_nearest = False, tx_repeat = None\<rparr>"

definition glowSprite :: object3d where
  "glowSprite = Object3D (Sprite (Material SpriteMaterial
       [Map createStarTexture, Color (Hex 0xffdd44), Transparent True, AdditiveBlending]))
     (scaled (6 * treeScale) (6 * treeScale) 1 (posed 0 0 0)) []"

definition starGroup :: object3d where
  "starGroup = Object3D Group (posed 0 (182 / 10 * treeScale) 0)
     [starMesh, glowSprite, Object3D (PointLight 0xffaa00 (12 / 10) (15 * treeScale)) (posed 0 0 0) []]"

definition treeCollisionBox :: "int \<Rightarrow> box" where
  "treeCollisionBox worldSeed =
     (let centerY = terrainHeight (of_int worldSeed) 0 0
      in \<lparr>bx_min = vec (- 3 * treeScale) centerY (- 3 * treeScale),
          bx_max = vec (3 * treeScale) (centerY + 18 * treeScale) (3 * treeScale)\<rparr>)"

text \<open>The group of the tree, its decorations, which the animation uses, and the box pushed to the obstacles.\<close>

record christmas_tree =
  ct_group :: object3d
  ct_decorations :: "decoration list"
  ct_box :: box

definition createChristmasTree :: "(tree_layer \<Rightarrow> vec3 list) \<Rightarrow> int \<Rightarrow> christmas_tree" where
  "createChristmasTree cone worldSeed =
     (let layers = fst (layersLoop cone 0 treeLayers (makeRng (worldSeed + 12345)));
          leaves = concat (map (\<lambda>(mesh, ds). mesh # map decorationObject ds) layers);
          centerY = terrainHeight (of_int worldSeed) 0 0
      in \<lparr>ct_group = Object3D Group (posed 0 centerY 0) (trunk # leaves @ [starGroup]),
          ct_decorations = concat (map snd layers), ct_box = treeCollisionBox worldSeed\<rparr>)"

section \<open>Placing the models\<close>

definition centerExclusionRadius :: real where
  "centerExclusionRadius = 25"

definition minDistance :: real where
  "minDistance = 15"

fun tooCloseLoop :: "real \<Rightarrow> real \<Rightarrow> (real \<times> real) list \<Rightarrow> bool" where
  "tooCloseLoop x z [] = False"
| "tooCloseLoop x z (pos # ps) =
     (let dx = x - fst pos; dz = z - snd pos; dist = sqrt (dx * dx + dz * dz)
      in if dist < minDistance then True else tooCloseLoop x z ps)"

definition isTooClose :: "(real \<times> real) list \<Rightarrow> real \<Rightarrow> real \<Rightarrow> bool" where
  "isTooClose placed x z =
     (if sqrt (x * x + z * z) < centerExclusionRadius then True else tooCloseLoop x z placed)"

definition flatSampleOffset :: real where
  "flatSampleOffset = 4"

definition heightSamples :: "real \<Rightarrow> real \<Rightarrow> real \<Rightarrow> real list" where
  "heightSamples w x z =
     (let d = flatSampleOffset
      in [terrainHeight w x z, terrainHeight w (x + d) z, terrainHeight w (x - d) z, terrainHeight w x (z + d),
          terrainHeight w x (z - d), terrainHeight w (x + d) (z + d), terrainHeight w (x - d) (z + d),
          terrainHeight w (x + d) (z - d), terrainHeight w (x - d) (z - d)])"

definition tooSteep :: "real \<Rightarrow> real \<Rightarrow> real \<Rightarrow> bool" where
  "tooSteep w x z =
     (let hs = heightSamples w x z; hMin = foldl min (hd hs) (tl hs); hMax = foldl max (hd hs) (tl hs)
      in hMax - hMin > 3 / 10)"

text \<open>The search for a place: at most fifty draws of a point.\<close>

function placeLoop ::
  "real \<Rightarrow> (real \<times> real) list \<Rightarrow> nat \<Rightarrow> int32 \<Rightarrow> (real \<times> real \<times> real) option \<times> int32" where
  "placeLoop w placed attempts s =
     (let half = c_mapHalf CLIENT_CONFIG - 10;
          (u, s) = rng s; x = (u - 5 / 10) * half * 2;
          (v, s) = rng s; z = (v - 5 / 10) * half * 2;
          attempts = attempts + 1
      in if isTooClose placed x z then
           (if attempts < 50 then placeLoop w placed attempts s else (None, s))
         else
           let y = terrainHeight w x z
           in if \<not> tooSteep w x z then (Some (x, y, z), s)
              else if attempts < 50 then placeLoop w placed attempts s else (None, s))"
  by pat_completeness auto
termination
  by (relation "measure (\<lambda>(w, placed, attempts, s). 50 - attempts)") auto

declare placeLoop.simps [simp del]

record placement =
  pl_name :: string
  pl_x :: real
  pl_y :: real
  pl_z :: real
  pl_rotY :: real
  pl_scale :: real

fun placeInstances ::
  "real \<Rightarrow> string list \<Rightarrow> (real \<times> real) list \<Rightarrow> int32 \<Rightarrow> placement list \<times> int32" where
  "placeInstances w [] placed s = ([], s)"
| "placeInstances w (name # names) placed s =
     (case placeLoop w placed 0 s of
        (None, s) \<Rightarrow> placeInstances w names placed s
      | (Some (x, y, z), s) \<Rightarrow>
          let (a, s) = rng s; rotY = a * pi * 2;
              (b, s) = rng s; scale = (7 / 10 + b * (6 / 10)) * 9;
              (ps, s) = placeInstances w names (placed @ [(x, z)]) s
          in (\<lparr>pl_name = name, pl_x = x, pl_y = y, pl_z = z, pl_rotY = rotY, pl_scale = scale\<rparr> # ps, s))"

text \<open>
  \<open>placeKenneyModel\<close>: the pose that the model gets when it is loaded; its meshes, measured in this pose,
  then give the obstacles.
\<close>

definition placedPose :: "placement \<Rightarrow> pose" where
  "placedPose p = scaled (pl_scale p) (pl_scale p) (pl_scale p) (turned 0 (pl_rotY p) 0 (posed (pl_x p) (pl_y p) (pl_z p)))"

definition placeKenneyModel :: "box_lib \<Rightarrow> (pose \<Rightarrow> scene_object list) option \<Rightarrow> placement \<Rightarrow> (pose \<times> box list) option" where
  "placeKenneyModel B model p =
     (case model of
        None \<Rightarrow> None
      | Some objects \<Rightarrow> Some (placedPose p, modelObstacles B (objects (placedPose p))))"

definition instancesPerModel :: nat where
  "instancesPerModel = 2"

definition scatterKenneyModels :: "real \<Rightarrow> int32 \<Rightarrow> placement list" where
  "scatterKenneyModels w s =
     (let allNames = (if KENNEY_OUTDOOR_GLBS \<noteq> [] then KENNEY_OUTDOOR_GLBS else KENNEY_GLBS)
      in fst (placeInstances w (concat (map (replicate instancesPerModel) allNames)) [] s))"

section \<open>The environment\<close>

text \<open>Two hundred dots of the ground texture: three draws each.\<close>

fun dotsLoop :: "nat \<Rightarrow> int32 \<Rightarrow> (bool \<times> nat \<times> nat) list \<times> int32" where
  "dotsLoop 0 s = ([], s)"
| "dotsLoop (Suc n) s =
     (let (a, s) = rng s; (b, s) = rng s; (c, s) = rng s; (ds, s) = dotsLoop n s
      in ((a > 5 / 10, nat \<lfloor>b * 64\<rfloor>, nat \<lfloor>c * 64\<rfloor>) # ds, s))"

definition snowCount :: nat where
  "snowCount = 4000"

fun snowLoop :: "nat \<Rightarrow> int32 \<Rightarrow> vec3 list \<times> int32" where
  "snowLoop 0 s = ([], s)"
| "snowLoop (Suc n) s =
     (let (a, s) = rng s; (b, s) = rng s; (c, s) = rng s; (fs, s) = snowLoop n s
      in (vec ((a - 5 / 10) * 240) (b * 50) ((c - 5 / 10) * 240) # fs, s))"

text \<open>The ground: the height of every vertex of the library's plane, and its texture.\<close>

definition groundVertices :: "real \<Rightarrow> vec3 list \<Rightarrow> vec3 list" where
  "groundVertices w vs = map (\<lambda>v. v\<lparr>vy := terrainHeight w (vx v) (vz v)\<rparr>) vs"

definition groundSize :: real where
  "groundSize = 400"

definition gridTex :: "(bool \<times> nat \<times> nat) list \<Rightarrow> texture" where
  "gridTex dots = \<lparr>tx_width = 64, tx_height = 64,
     tx_ops = [FillStyle ''#FFFFFF'', FillRect 0 0 64 64] @
       concat (map (\<lambda>(light, x, y). [FillStyle (if light then ''#E0F7FA'' else ''#B2EBF2''), FillRect (real x) (real y) 2 2]) dots),
     tx_nearest = True, tx_repeat = Some (groundSize / 4, groundSize / 4)\<rparr>"

definition ground :: "texture \<Rightarrow> vec3 list \<Rightarrow> object3d" where
  "ground tex vertices =
     Object3D (Mesh (BufferGeometry vertices) (Material StandardMaterial [Map tex, Roughness (5 / 10), Metalness (1 / 10)]))
       (receiving (posed 0 0 0)) []"

definition sceneLights :: "object3d list" where
  "sceneLights =
    [Object3D (AmbientLight 0x8899AA (6 / 10)) (posed 0 0 0) [],
     Object3D (DirectionalLight 0xFFF0DD (8 / 10) (2048, 2048) (- 100, 100, 100, - 100)) (casting (posed 50 100 50)) []]"

definition snowPoints :: "vec3 list \<Rightarrow> object3d" where
  "snowPoints snow =
     Object3D (Points (BufferGeometry snow)
       (Material PointsMaterial [Color (Hex 0xFFFFFF), PointSize (3 / 10), Transparent True, Opacity (8 / 10)])) (posed 0 0 0) []"

record environment =
  en_dots :: "(bool \<times> nat \<times> nat) list"
  en_ground :: "vec3 list"
  en_snow :: "vec3 list"
  en_tree :: "decoration list"
  en_scene :: "object3d list"
  en_obstacles :: "box list"
  en_models :: "placement list"

definition createEnvironment :: "(tree_layer \<Rightarrow> vec3 list) \<Rightarrow> vec3 list \<Rightarrow> int \<Rightarrow> environment" where
  "createEnvironment cone planeVertices worldSeed =
     (let s = makeRng worldSeed;
          (dots, s) = dotsLoop 200 s;
          vertices = groundVertices (of_int worldSeed) planeVertices;
          (snow, s) = snowLoop snowCount s;
          tree = createChristmasTree cone worldSeed;
          models = scatterKenneyModels (of_int worldSeed) s
      in \<lparr>en_dots = dots, en_ground = vertices, en_snow = snow, en_tree = ct_decorations tree,
          en_scene = ground (gridTex dots) vertices # sceneLights @ [snowPoints snow, ct_group tree],
          en_obstacles = [ct_box tree], en_models = models\<rparr>)"

section \<open>Lemmas\<close>

text \<open>Two points of the plane that are not too close.\<close>

definition far :: "real \<times> real \<Rightarrow> real \<times> real \<Rightarrow> bool" where
  "far p q \<longleftrightarrow> 15 \<le> hypot2 (fst p - fst q) (snd p - snd q)"

lemma far_sym: "far p q \<longleftrightarrow> far q p"
  by (simp add: far_def hypot2_def power2_commute [of "fst p"] power2_commute [of "snd p"])

lemma tooCloseLoop_iff: "tooCloseLoop x z ps \<longleftrightarrow> (\<exists>q \<in> set ps. \<not> far (x, z) q)"
  by (induction ps) (auto simp: Let_def far_def minDistance_def hypot2_def power2_eq_square)

text \<open>A place as the search accepts it.\<close>

definition good_place :: "real \<Rightarrow> real \<Rightarrow> real \<Rightarrow> real \<Rightarrow> bool" where
  "good_place w x y z \<longleftrightarrow> \<bar>x\<bar> \<le> 180 \<and> \<bar>z\<bar> \<le> 180 \<and> 25 \<le> hypot2 x z \<and> y = terrainHeight w x z \<and>
     Max (set (heightSamples w x z)) - Min (set (heightSamples w x z)) \<le> 3 / 10"

lemma foldl_min_Min: "foldl min a xs = Min (set (a # xs))" for a :: real
proof -
  have "(\<lambda>x s. min s x) = (min :: real \<Rightarrow> real \<Rightarrow> real)" by (intro ext) (rule min.commute)
  then show ?thesis by (simp add: Min.set_eq_fold foldl_conv_fold del: set_simps)
qed

lemma foldl_max_Max: "foldl max a xs = Max (set (a # xs))" for a :: real
proof -
  have "(\<lambda>x s. max s x) = (max :: real \<Rightarrow> real \<Rightarrow> real)" by (intro ext) (rule max.commute)
  then show ?thesis by (simp add: Max.set_eq_fold foldl_conv_fold del: set_simps)
qed

lemma tooSteep_iff: "tooSteep w x z \<longleftrightarrow> Max (set (heightSamples w x z)) - Min (set (heightSamples w x z)) > 3 / 10"
proof -
  have "heightSamples w x z = hd (heightSamples w x z) # tl (heightSamples w x z)"
    by (simp add: heightSamples_def Let_def)
  then show ?thesis unfolding tooSteep_def Let_def foldl_min_Min foldl_max_Max by simp
qed

lemma coordinate_bound: "0 \<le> u \<Longrightarrow> u < 1 \<Longrightarrow> \<bar>(u - 5 / 10) * 180 * 2\<bar> \<le> (180 :: real)"
  by (simp add: abs_le_iff)

text \<open>One round of the search.\<close>

lemma placeLoop_round:
  obtains x z s' where "\<bar>x\<bar> \<le> 180" "\<bar>z\<bar> \<le> 180"
    "placeLoop w placed n s =
      (if isTooClose placed x z then (if n + 1 < 50 then placeLoop w placed (n + 1) s' else (None, s'))
       else if \<not> tooSteep w x z then (Some (x, terrainHeight w x z, z), s')
       else if n + 1 < 50 then placeLoop w placed (n + 1) s' else (None, s'))"
proof -
  obtain u s1 where u: "rng s = (u, s1)" by (cases "rng s")
  obtain v s2 where v: "rng s1 = (v, s2)" by (cases "rng s1")
  have b: "0 \<le> u" "u < 1" "0 \<le> v" "v < 1"
    using rng_unit [of s] rng_unit [of s1] u v by simp_all
  have half: "c_mapHalf CLIENT_CONFIG - 10 = 180" by (simp add: CLIENT_CONFIG_def)
  show thesis
    by (rule that [of _ _ s2, OF coordinate_bound [OF b(1,2)] coordinate_bound [OF b(3,4)]])
      (subst placeLoop.simps, simp add: u v half Let_def)
qed

lemma placeLoop_Some:
  assumes "placeLoop w placed n s = (Some (x, y, z), s')" "n < 50"
  shows "good_place w x y z \<and> (\<forall>q \<in> set placed. far (x, z) q)"
  using assms
proof (induction "50 - n" arbitrary: n s)
  case (Suc k)
  obtain x1 z1 s1 where 1: "\<bar>x1\<bar> \<le> 180" "\<bar>z1\<bar> \<le> 180"
    "placeLoop w placed n s =
      (if isTooClose placed x1 z1 then (if n + 1 < 50 then placeLoop w placed (n + 1) s1 else (None, s1))
       else if \<not> tooSteep w x1 z1 then (Some (x1, terrainHeight w x1 z1, z1), s1)
       else if n + 1 < 50 then placeLoop w placed (n + 1) s1 else (None, s1))"
    by (rule placeLoop_round)
  show ?case
  proof (cases "isTooClose placed x1 z1 \<or> tooSteep w x1 z1")
    case True
    then have "n + 1 < 50" "placeLoop w placed (n + 1) s1 = (Some (x, y, z), s')"
      using 1(3) Suc.prems(1) by (auto split: if_splits)
    moreover have "k = 50 - (n + 1)" using Suc.hyps(2) by simp
    ultimately show ?thesis using Suc.hyps(1) by blast
  next
    case False
    then have "x = x1" "z = z1" "y = terrainHeight w x1 z1" using 1(3) Suc.prems(1) by auto
    moreover have "\<not> 3 / 10 < Max (set (heightSamples w x1 z1)) - Min (set (heightSamples w x1 z1))"
      using False by (simp add: tooSteep_iff)
    moreover have "25 \<le> hypot2 x1 z1" "\<forall>q \<in> set placed. far (x1, z1) q"
      using False
      by (auto simp: isTooClose_def tooCloseLoop_iff centerExclusionRadius_def hypot2_def power2_eq_square
          split: if_splits)
    ultimately show ?thesis using 1(1,2) by (simp add: good_place_def not_less)
  qed
qed simp

text \<open>A placed model with its point.\<close>

definition pointOf :: "placement \<Rightarrow> real \<times> real" where
  "pointOf p = (pl_x p, pl_z p)"

definition good_placement :: "real \<Rightarrow> placement \<Rightarrow> bool" where
  "good_placement w p \<longleftrightarrow> good_place w (pl_x p) (pl_y p) (pl_z p) \<and> 0 \<le> pl_rotY p \<and> pl_rotY p < 2 * pi \<and>
     63 / 10 \<le> pl_scale p \<and> pl_scale p < 117 / 10"

lemma rot_scale_bounds:
  assumes "0 \<le> a" "a < 1" "0 \<le> b" "b < (1 :: real)"
  shows "0 \<le> a * pi * 2 \<and> a * pi * 2 < 2 * pi" "63 / 10 \<le> (7 / 10 + b * (6 / 10)) * 9 \<and> (7 / 10 + b * (6 / 10)) * 9 < 117 / 10"
  using assms by simp_all

lemma placeInstances_ok:
  "list_all (good_placement w) (fst (placeInstances w names placed s)) \<and>
   sorted_wrt far (map pointOf (fst (placeInstances w names placed s))) \<and>
   (\<forall>p \<in> set (fst (placeInstances w names placed s)). \<forall>q \<in> set placed. far (pointOf p) q) \<and>
   length (fst (placeInstances w names placed s)) \<le> length names \<and>
   set (map pl_name (fst (placeInstances w names placed s))) \<subseteq> set names"
proof (induction names arbitrary: placed s)
  case (Cons name names)
  obtain r s1 where 1: "placeLoop w placed 0 s = (r, s1)" by (cases "placeLoop w placed 0 s")
  show ?case
  proof (cases r)
    case None
    then show ?thesis using Cons.IH [of placed s1] 1 by auto
  next
    case (Some xyz)
    obtain x y z where xyz: "xyz = (x, y, z)" by (cases xyz)
    have g: "good_place w x y z" "\<forall>q \<in> set placed. far (x, z) q"
      using placeLoop_Some [of w placed 0 s x y z s1] 1 Some xyz by simp_all
    obtain a s2 where a: "rng s1 = (a, s2)" by (cases "rng s1")
    obtain b s3 where b: "rng s2 = (b, s3)" by (cases "rng s2")
    have ab: "0 \<le> a" "a < 1" "0 \<le> b" "b < 1" using rng_unit [of s1] rng_unit [of s2] a b by simp_all
    let ?p = "\<lparr>pl_name = name, pl_x = x, pl_y = y, pl_z = z, pl_rotY = a * pi * 2,
        pl_scale = (7 / 10 + b * (6 / 10)) * 9\<rparr>"
    let ?ps = "fst (placeInstances w names (placed @ [(x, z)]) s3)"
    have e: "fst (placeInstances w (name # names) placed s) = ?p # ?ps"
      by (simp add: 1 Some xyz a b Let_def case_prod_beta)
    have p: "good_placement w ?p" using g(1) rot_scale_bounds [OF ab] by (simp add: good_placement_def)
    note IH = Cons.IH [of "placed @ [(x, z)]" s3]
    have "far (pointOf ?p) (pointOf q)" if "q \<in> set ?ps" for q
      using IH that far_sym by (auto simp: pointOf_def)
    then show ?thesis unfolding e using IH p g(2) by (auto simp: pointOf_def)
  qed
qed simp

lemma scatter_eq:
  "scatterKenneyModels w s = fst (placeInstances w (concat (map (replicate 2) KENNEY_OUTDOOR_GLBS)) [] s)"
proof -
  have "KENNEY_OUTDOOR_GLBS \<noteq> []" by (simp add: KENNEY_OUTDOOR_GLBS_def)
  then show ?thesis by (simp add: scatterKenneyModels_def instancesPerModel_def Let_def)
qed

lemma set_twice: "set (concat (map (replicate 2) xs)) = set xs"
  by (induction xs) auto

lemma scatter_names: "set (map pl_name (scatterKenneyModels w s)) \<subseteq> set KENNEY_OUTDOOR_GLBS"
  using placeInstances_ok [of w "concat (map (replicate 2) KENNEY_OUTDOOR_GLBS)" "[]" s]
  unfolding scatter_eq set_twice by blast

section \<open>Properties\<close>

text \<open>
  Claim C30. The scenery, for every seed: at most two copies of each outdoor model, all inside the map
  with ten units to spare, at least 25 from the tree in the centre, on the terrain, where nine
  samples of the ground differ by at most 0.3, with pairwise distance at least 15. Every search
  ends: it gives up after fifty points.
\<close>

theorem scenery_well_placed:
  "list_all (good_placement w) (scatterKenneyModels w s) \<and>
   sorted_wrt far (map pointOf (scatterKenneyModels w s)) \<and>
   length (scatterKenneyModels w s) \<le> 2 * length KENNEY_OUTDOOR_GLBS \<and>
   set (map pl_name (scatterKenneyModels w s)) \<subseteq> set KENNEY_OUTDOOR_GLBS"
proof -
  have "length (concat (map (replicate 2) xs)) = 2 * length xs" for xs :: "string list"
    by (induction xs) auto
  then show ?thesis
    using placeInstances_ok [of w "concat (map (replicate 2) KENNEY_OUTDOOR_GLBS)" "[]" s]
    unfolding scatter_eq set_twice by metis
qed

text \<open>The outdoor models are models of the kit.\<close>

lemma outdoor_models_exist: "set KENNEY_OUTDOOR_GLBS \<subseteq> set KENNEY_GLBS"
  by (simp add: KENNEY_OUTDOOR_GLBS_def KENNEY_GLBS_def)

lemma shrink_bounds:
  assumes "lo \<le> (hi :: real)"
  defines "h \<equiv> (hi - lo) * (5 / 10)"
  defines "k \<equiv> max (h - 1 / 10) (h * (5 / 10))"
  shows "lo \<le> (lo + hi) / 2 - k" "(lo + hi) / 2 - k \<le> (lo + hi) / 2 + k" "(lo + hi) / 2 + k \<le> hi"
proof -
  have "0 \<le> h" "(lo + hi) / 2 - h = lo" "(lo + hi) / 2 + h = hi" using assms(1) by (simp_all add: h_def field_simps)
  moreover have "0 \<le> k" "k \<le> h" using \<open>0 \<le> h\<close> by (simp_all add: k_def)
  ultimately show "lo \<le> (lo + hi) / 2 - k" "(lo + hi) / 2 - k \<le> (lo + hi) / 2 + k" "(lo + hi) / 2 + k \<le> hi"
    by linarith+
qed

text \<open>
  The box of an obstacle lies inside the box of its mesh, is not empty, and keeps its height.
\<close>

lemma obstacle_inside_mesh:
  assumes "boxes_ok B" "meshObstacle B b = Some c" "vx (bx_min b) \<le> vx (bx_max b)" "vz (bx_min b) \<le> vz (bx_max b)"
  shows "vx (bx_min b) \<le> vx (bx_min c) \<and> vx (bx_min c) \<le> vx (bx_max c) \<and> vx (bx_max c) \<le> vx (bx_max b)"
    "vz (bx_min b) \<le> vz (bx_min c) \<and> vz (bx_min c) \<le> vz (bx_max c) \<and> vz (bx_max c) \<le> vz (bx_max b)"
    "vy (bx_min c) = vy (bx_min b) \<and> vy (bx_max c) = vy (bx_max b)"
proof -
  let ?k = "\<lambda>lo hi :: real. max ((hi - lo) * (5 / 10) - 1 / 10) ((hi - lo) * (5 / 10) * (5 / 10))"
  note x = shrink_bounds [OF assms(3)] and z = shrink_bounds [OF assms(4)]
  have "b_size B b = vec (vx (bx_max b) - vx (bx_min b)) (vy (bx_max b) - vy (bx_min b)) (vz (bx_max b) - vz (bx_min b))"
    "b_center B b = vec ((vx (bx_min b) + vx (bx_max b)) / 2) ((vy (bx_min b) + vy (bx_max b)) / 2)
        ((vz (bx_min b) + vz (bx_max b)) / 2)"
    using assms(1) by (simp_all add: boxes_ok_def)
  note e = assms(2) [unfolded meshObstacle_def Let_def this vec_sel]
  have c: "c = \<lparr>bx_min = vec ((vx (bx_min b) + vx (bx_max b)) / 2 - ?k (vx (bx_min b)) (vx (bx_max b))) (vy (bx_min b))
          ((vz (bx_min b) + vz (bx_max b)) / 2 - ?k (vz (bx_min b)) (vz (bx_max b))),
        bx_max = vec ((vx (bx_min b) + vx (bx_max b)) / 2 + ?k (vx (bx_min b)) (vx (bx_max b))) (vy (bx_max b))
          ((vz (bx_min b) + vz (bx_max b)) / 2 + ?k (vz (bx_min b)) (vz (bx_max b)))\<rparr>"
    using e by (simp only: option.inject option.distinct split: if_split_asm)
  show "vx (bx_min b) \<le> vx (bx_min c) \<and> vx (bx_min c) \<le> vx (bx_max c) \<and> vx (bx_max c) \<le> vx (bx_max b)"
    unfolding c box.select_convs vec_sel using x by blast
  show "vz (bx_min b) \<le> vz (bx_min c) \<and> vz (bx_min c) \<le> vz (bx_max c) \<and> vz (bx_max c) \<le> vz (bx_max b)"
    unfolding c box.select_convs vec_sel using z by blast
  show "vy (bx_min c) = vy (bx_min b) \<and> vy (bx_max c) = vy (bx_max b)"
    unfolding c box.select_convs vec_sel by blast
qed

text \<open>The snowflakes start inside their volume.\<close>

lemma snow_inside:
  "list_all (\<lambda>v. \<bar>vx v\<bar> \<le> 120 \<and> 0 \<le> vy v \<and> vy v \<le> 50 \<and> \<bar>vz v\<bar> \<le> 120) (fst (snowLoop n s))"
proof (induction n arbitrary: s)
  case (Suc n)
  obtain a s1 where a: "rng s = (a, s1)" by (cases "rng s")
  obtain b s2 where b: "rng s1 = (b, s2)" by (cases "rng s1")
  obtain c s3 where c: "rng s2 = (c, s3)" by (cases "rng s2")
  have "0 \<le> a" "a < 1" "0 \<le> b" "b < 1" "0 \<le> c" "c < 1"
    using rng_unit [of s] rng_unit [of s1] rng_unit [of s2] a b c by simp_all
  then show ?case using Suc [of s3] by (simp add: a b c case_prod_beta abs_le_iff)
qed simp

text \<open>
  The tree: every ornament has one of the five materials, and the drawn trunk stands inside the box
  that stops the snowballs.
\<close>

lemma decoration_drawn:
  "case fst (decorate t l n i s) of
     Ball p r m \<Rightarrow> m < length ornamentMaterials \<and> 25 / 100 * treeScale \<le> r \<and> r < 40 / 100 * treeScale
   | Bulb p hue speed phase \<Rightarrow> 0 \<le> hue \<and> hue < 1 \<and> 8 / 10 \<le> speed \<and> speed < 2 \<and> 0 \<le> phase \<and> phase < 2 * pi"
proof -
  obtain u s1 where u: "rng s = (u, s1)" by (cases "rng s")
  obtain v s2 where v: "rng s1 = (v, s2)" by (cases "rng s1")
  obtain a s3 where a: "rng s2 = (a, s3)" by (cases "rng s2")
  obtain b s4 where b: "rng s3 = (b, s4)" by (cases "rng s3")
  obtain c s5 where c: "rng s4 = (c, s5)" by (cases "rng s4")
  have r: "0 \<le> a" "a < 1" "0 \<le> b" "b < 1" "0 \<le> c" "c < 1"
    using rng_unit [of s2] rng_unit [of s3] rng_unit [of s4] a b c by simp_all
  have "\<lfloor>b * 5\<rfloor> < 5" using r by (simp add: floor_less_iff)
  then have "nat \<lfloor>b * 5\<rfloor> < 5" by linarith
  then show ?thesis using r u v a b c
    by (simp add: decorate_def Let_def ornamentMaterials_def treeScale_def)
qed

definition inBox :: "box \<Rightarrow> vec3 \<Rightarrow> bool" where
  "inBox b p \<longleftrightarrow> vx (bx_min b) \<le> vx p \<and> vx p \<le> vx (bx_max b) \<and> vy (bx_min b) \<le> vy p \<and> vy p \<le> vy (bx_max b) \<and>
     vz (bx_min b) \<le> vz p \<and> vz p \<le> vz (bx_max b)"

lemma trunk_in_box:
  assumes "p \<in> place (posed 0 (terrainHeight (of_int worldSeed) 0 0) 0) ` points place trunk"
  shows "inBox (treeCollisionBox worldSeed) p"
proof -
  obtain v :: vec3 where v: "\<bar>vy v\<bar> * 2 \<le> 9" "(vx v)\<^sup>2 + (vz v)\<^sup>2 \<le> (27 / 10 - (vy v + 9 / 2) / 10)\<^sup>2"
    and p: "p = vec (vx v) (vy v + 9 / 2 + terrainHeight (of_int worldSeed) 0 0) (vz v)"
    using assms by (auto simp: trunk_def treeScale_def place_posed)
  have y: "vy v \<le> 9 / 2" "- (9 / 2) \<le> vy v" using v(1) by (simp_all add: abs_le_iff)
  have "\<bar>27 / 10 - (vy v + 9 / 2) / 10\<bar> \<le> 9 / 2" unfolding abs_le_iff using y by (auto simp: field_simps)
  then have "(27 / 10 - (vy v + 9 / 2) / 10)\<^sup>2 \<le> (9 / 2)\<^sup>2" by (rule abs_le_square_iff [THEN iffD1, OF order_trans]) simp
  moreover have "(vx v)\<^sup>2 \<le> (vx v)\<^sup>2 + (vz v)\<^sup>2" "(vz v)\<^sup>2 \<le> (vx v)\<^sup>2 + (vz v)\<^sup>2" by simp_all
  ultimately have "(vx v)\<^sup>2 \<le> (9 / 2)\<^sup>2" "(vz v)\<^sup>2 \<le> (9 / 2)\<^sup>2" using v(2) by linarith+
  then have "\<bar>vx v\<bar> \<le> 9 / 2" "\<bar>vz v\<bar> \<le> 9 / 2" by (simp_all flip: abs_le_square_iff)
  then show ?thesis using y by (simp add: p inBox_def treeCollisionBox_def treeScale_def Let_def) linarith
qed

end
