(* ===== verification/Client_Loop.thy ===== *)
theory Client_Loop
  imports Client_Net Client_Env Game
begin

text \<open>
  The page itself, \<open>client_src/init.js\<close>: login screen, leaderboards, keys and mouse, the frame loop
  and the music. Together with the network part it makes the browser client one transition system,
  over server messages, timers, input events and frames. What the renderer makes of the scene and
  what the speakers make of the music is the browser's.
\<close>

section \<open>Leaderboards\<close>

text \<open>\<open>medals[i] || (i + 1) + "."\<close>.\<close>

definition medalOf :: "nat \<Rightarrow> string" where
  "medalOf i = (if i < 3 then [''1.'', ''2.'', ''3.''] ! i else decimal (i + 1) @ ''.'')"

definition displayNameOf :: "platform \<Rightarrow> jsstr \<Rightarrow> jsstr" where
  "displayNameOf P playerName =
     (let rawName = (if playerName \<noteq> [] then playerName else jslit ''Unknown'');
          name = fixString P rawName
      in if length name > 10 then slice 0 10 name @ jslit ''...'' else name)"

definition rowHtml :: "platform \<Rightarrow> nat \<Rightarrow> jsstr \<times> nat \<Rightarrow> jsstr" where
  "rowHtml P i p =
     jslit (''<div style=\"display:flex; justify-content:space-between; padding:4px 0; '' @
       ''border-bottom:1px solid rgba(255,255,255,0.1);\">'' @ [char_of (10 :: nat)] @
       ''          <span><span>'' @ medalOf i @ ''</span> <span>'') @ displayNameOf P (fst p) @
     jslit (''</span></span>'' @ [char_of (10 :: nat)] @
       ''          <span style=\"color:#4CAF50; font-weight:bold;\">'' @ decimal (snd p) @ ''</span>'' @
       [char_of (10 :: nat)] @ ''        </div>'')"

definition noDataHtml :: jsstr where
  "noDataHtml = jslit ''<div style=\"color:#888; text-align:center;\">'' @
     [0x6682, 0x65E0, 0x6570, 0x636E] @ jslit ''</div>''"

definition renderLeaderboard :: "platform \<Rightarrow> (jsstr \<times> nat) list option \<Rightarrow> jsstr" where
  "renderLeaderboard P dat =
     (case dat of
        None \<Rightarrow> noDataHtml
      | Some [] \<Rightarrow> noDataHtml
      | Some rows \<Rightarrow> concat (map (\<lambda>(i, p). rowHtml P i p) (enumerate 0 rows)))"

section \<open>The tree\<close>

text \<open>The swaying of the tree, its star and its lights at a time of the clock.\<close>

record tree_pose =
  tp_rotY :: real
  tp_rotZ :: real
  tp_starY :: real
  tp_starZ :: real
  tp_glow :: real
  tp_lights :: "(real \<times> real) list"

text \<open>Speed and phase of the light bulbs.\<close>

fun bulbsOf :: "decoration list \<Rightarrow> (real \<times> real) list" where
  "bulbsOf [] = []"
| "bulbsOf (Bulb _ _ speed phase # ds) = (speed, phase) # bulbsOf ds"
| "bulbsOf (Ball _ _ _ # ds) = bulbsOf ds"

definition lightAt :: "real \<Rightarrow> real \<times> real \<Rightarrow> real \<times> real" where
  "lightAt time light =
     (let intensity = 5 / 10 + sin (time * fst light * 4 + snd light) * (5 / 10)
      in (intensity * 2, 1 + intensity * (2 / 10)))"

definition treeFrame :: "real \<Rightarrow> (real \<times> real) list \<Rightarrow> tree_pose" where
  "treeFrame time lights =
     \<lparr>tp_rotY = sin (time * (2 / 10)) * (5 / 100), tp_rotZ = sin (time * (5 / 10)) * (5 / 1000),
      tp_starY = time * (8 / 10), tp_starZ = sin time * (1 / 10), tp_glow = 5 / 10 + sin (time * 3) * (2 / 10),
      tp_lights = map (lightAt time) lights\<rparr>"

section \<open>State of the page\<close>

datatype login_screen = LoginPending | LoginOAuth | LoginGuest | LoggedIn

text \<open>
  The music: the element with its source, whether the audio context is suspended, whether it was asked
  to resume, how often \<open>play\<close> was called, and whether the listeners still wait for a gesture.
\<close>

record music =
  mu_src :: string
  mu_loop :: bool
  mu_volume :: real
  mu_suspended :: bool
  mu_resumeAsked :: bool
  mu_plays :: nat
  mu_waiting :: bool

text \<open>A browser keeps a new audio context suspended until a gesture.\<close>

definition initBackgroundMusic :: music where
  "initBackgroundMusic = \<lparr>mu_src = ''/assets/bossa-nova-441725.mp3'', mu_loop = True, mu_volume = 5 / 10,
     mu_suspended = True, mu_resumeAsked = False, mu_plays = 0, mu_waiting = True\<rparr>"

definition playMusic :: "music \<Rightarrow> music" where
  "playMusic m =
     (let m = (if mu_suspended m then m\<lparr>mu_resumeAsked := True\<rparr> else m)
      in m\<lparr>mu_plays := mu_plays m + 1, mu_waiting := False\<rparr>)"

record page = client +
  pg_currentUser :: jsval
  pg_oauthEnabled :: jsval
  pg_screen :: login_screen
  pg_overlay :: bool
  pg_guestName :: jsstr
  pg_savedName :: "jsstr option"
  pg_tabId :: "jsstr option"
  pg_chatInput :: jsstr
  pg_chatFocus :: bool
  pg_pointerLocked :: bool
  pg_lockRequested :: bool
  pg_exitRequested :: bool
  pg_clickToPlay :: bool
  pg_loginStatus :: jsstr
  pg_loggedInName :: jsval
  pg_nameDisplay :: "jsval option"
  pg_music :: music
  pg_resized :: "(real \<times> real) option"
  pg_aspect :: "real option"
  pg_scene :: "object3d list"
  pg_loading :: "placement list"
  pg_scenery :: "(string \<times> pose) list"
  pg_thirdPerson :: bool
  pg_uiHidden :: bool
  pg_camera :: vec3
  pg_lookAt :: vec3
  pg_snow :: "vec3 list"
  pg_lights :: "(real \<times> real) list option"
  pg_tree :: "tree_pose option"
  pg_board24h :: "jsstr option"
  pg_board7d :: "jsstr option"
  pg_volume :: real

text \<open>
  The element that shows the name holds a small figure and the name. \<open>pg_resized\<close> and \<open>pg_aspect\<close> are
  unset until the window is resized: the page starts with the size of its window. The world outside
  the page: library, platform, shape of the tree, ground plane.
\<close>

record browser =
  br_platform :: platform
  br_three :: three
  br_boxes :: box_lib
  br_cone :: "tree_layer \<Rightarrow> vec3 list"
  br_plane :: "vec3 list"

definition sceneryOf :: "browser \<Rightarrow> int \<Rightarrow> box list" where
  "sceneryOf B w = en_obstacles (createEnvironment (br_cone B) (br_plane B) w)"

text \<open>
  \<open>loadLeaderboards\<close>: an answer is the parsed data, or nothing if the request or the parsing fails; the
  second request is not made after a failure of the first.
\<close>

definition loadLeaderboards ::
  "browser \<Rightarrow> (jsstr \<times> nat) list option option \<Rightarrow> (jsstr \<times> nat) list option option \<Rightarrow> page \<Rightarrow> page" where
  "loadLeaderboards B res24h res7d s =
     (case res24h of
        None \<Rightarrow> s
      | Some data24h \<Rightarrow>
          let s = s\<lparr>pg_board24h := Some (renderLeaderboard (br_platform B) data24h)\<rparr>
          in case res7d of
               None \<Rightarrow> s
             | Some data7d \<Rightarrow> s\<lparr>pg_board7d := Some (renderLeaderboard (br_platform B) data7d)\<rparr>)"

section \<open>Login\<close>

definition checkingText :: jsstr where
  "checkingText = [0x6B63, 0x5728, 0x68C0, 0x67E5, 0x767B, 0x5F55, 0x72B6, 0x6001, 0x002E, 0x002E, 0x002E]"

definition serverFailedText :: jsstr where
  "serverFailedText = [0x8FDE, 0x63A5, 0x670D, 0x52A1, 0x5668, 0x5931, 0x8D25, 0xFF0C, 0x8BF7, 0x5237, 0x65B0, 0x9875, 0x9762]"

definition oauthText :: jsstr where
  "oauthText = [0x8BF7, 0x4F7F, 0x7528] @ jslit '' Linux.do '' @ [0x8D26, 0x53F7, 0x767B, 0x5F55]"

definition guestText :: jsstr where
  "guestText = [0x5F00, 0x53D1, 0x6A21, 0x5F0F] @ jslit '' - '' @ [0x6E38, 0x5BA2, 0x767B, 0x5F55]"

definition showLoginUI :: "jsstr \<Rightarrow> page \<Rightarrow> page" where
  "showLoginUI uuid s =
     (if truthy (pg_oauthEnabled s) then s\<lparr>pg_screen := LoginOAuth, pg_loginStatus := oauthText\<rparr>
      else
        let s = s\<lparr>pg_screen := LoginGuest, pg_loginStatus := guestText\<rparr>
        in case pg_savedName s of
             Some (c # cs) \<Rightarrow> s\<lparr>pg_guestName := c # cs\<rparr>
           | _ \<Rightarrow>
               let tabId = (case pg_tabId s of Some (c # cs) \<Rightarrow> c # cs | _ \<Rightarrow> slice 0 4 uuid)
               in s\<lparr>pg_tabId := Some tabId, pg_guestName := jslit ''Guest-'' @ tabId\<rparr>)"

definition showLoggedInUI :: "page \<Rightarrow> page" where
  "showLoggedInUI s =
     s\<lparr>pg_screen := LoggedIn,
       pg_loggedInName := orElse (getp (pg_currentUser s) ''name'') (getp (pg_currentUser s) ''sub''),
       pg_loginStatus := []\<rparr>"

text \<open>
  \<open>checkAuthStatus\<close>: each answer is the parsed body, or nothing if the request or the parsing fails.
  Reading a property of \<open>null\<close> throws; whatever was assigned before stays.
\<close>

definition authFailed :: "jsstr \<Rightarrow> page \<Rightarrow> page" where
  "authFailed uuid s = showLoginUI uuid (s\<lparr>pg_loginStatus := serverFailedText\<rparr>)"

definition checkAuthStatus :: "jsstr \<Rightarrow> jsval option \<Rightarrow> jsval option \<Rightarrow> page \<Rightarrow> page" where
  "checkAuthStatus uuid configRes meRes s =
     (case configRes of
        None \<Rightarrow> authFailed uuid s
      | Some configData \<Rightarrow>
          if nullish configData then authFailed uuid s
          else
            let s = s\<lparr>pg_oauthEnabled := getp configData ''oauth_enabled''\<rparr>
            in case meRes of
                 None \<Rightarrow> authFailed uuid s
               | Some d \<Rightarrow>
                   if nullish d then authFailed uuid s
                   else if truthy (getp d ''authenticated'') \<and> truthy (getp d ''user'')
                   then showLoggedInUI (s\<lparr>pg_currentUser := getp d ''user''\<rparr>)
                   else showLoginUI uuid s)"

definition hideLoginOverlay :: "page \<Rightarrow> page" where
  "hideLoginOverlay s = s\<lparr>pg_overlay := False\<rparr>"

definition startGame :: "jsval \<Rightarrow> page \<Rightarrow> page" where
  "startGame playerName s =
     (let s = hideLoginOverlay s;
          s = s\<lparr>pg_nameDisplay := Some playerName\<rparr>
      in connect playerName s)"

text \<open>The listeners on the document that start the music, on a click or a key.\<close>

definition gesture :: "page \<Rightarrow> page" where
  "gesture s = (if mu_waiting (pg_music s) then s\<lparr>pg_music := playMusic (pg_music s)\<rparr> else s)"

definition clickStart :: "page \<Rightarrow> page" where
  "clickStart s =
     (if nullish (pg_currentUser s) then s
      else startGame (orElse (getp (pg_currentUser s) ''name'') (getp (pg_currentUser s) ''sub'')) s)"

definition clickGuest :: "page \<Rightarrow> page" where
  "clickGuest s =
     (let t = trim (pg_guestName s); playerName = (if t \<noteq> [] then t else jslit ''Guest'')
      in startGame (JStr playerName) (s\<lparr>pg_savedName := Some playerName\<rparr>))"

text \<open>The enter key in the field of the guest name clicks the button; the click reaches the document.\<close>

definition guestKey :: "string \<Rightarrow> page \<Rightarrow> page" where
  "guestKey key s = (if key = ''Enter'' then gesture (clickGuest s) else s)"

section \<open>Input\<close>

text \<open>The chat line gets the focus.\<close>

definition focusChat :: "page \<Rightarrow> page" where
  "focusChat s =
     (let s = s\<lparr>pg_chatFocus := True\<rparr>
      in if pg_pointerLocked s then s\<lparr>pg_exitRequested := True\<rparr> else s)"

text \<open>\<open>keydown\<close> in the chat line, which does not reach the document.\<close>

definition chatKey :: "string \<Rightarrow> page \<Rightarrow> page" where
  "chatKey key s =
     (let s = (if key = ''Escape'' then s\<lparr>pg_chatFocus := False\<rparr> else s)
      in if key = ''Enter'' then
           (let t = trim (pg_chatInput s)
            in if t \<noteq> [] then
                 (let s = (case cl_localPlayer s of Some r \<Rightarrow> modify r (showChat t) s | None \<Rightarrow> s);
                      s = sendChat t s
                  in s\<lparr>pg_chatInput := []\<rparr>)
               else s)
         else s)"

definition setKey :: "string \<Rightarrow> bool \<Rightarrow> keys \<Rightarrow> keys" where
  "setKey code on i =
     (if code = ''KeyW'' then i\<lparr>k_w := on\<rparr> else if code = ''KeyS'' then i\<lparr>k_s := on\<rparr>
      else if code = ''KeyA'' then i\<lparr>k_a := on\<rparr> else if code = ''KeyD'' then i\<lparr>k_d := on\<rparr>
      else if code = ''Space'' then i\<lparr>k_space := on\<rparr> else if code = ''ShiftLeft'' then i\<lparr>k_shift := on\<rparr>
      else if code = ''KeyR'' then i\<lparr>k_r := on\<rparr> else i)"

definition pressKey :: "string \<Rightarrow> bool \<Rightarrow> page \<Rightarrow> page" where
  "pressKey code on s =
     (case cl_localPlayer s of
        Some r \<Rightarrow> modify r (\<lambda>m. m\<lparr>pm_input := setKey code on (pm_input m)\<rparr>) s
      | None \<Rightarrow> s)"

definition keyDown :: "string \<Rightarrow> page \<Rightarrow> page" where
  "keyDown code s =
     (if pg_chatFocus s then s
      else if pg_overlay s then s
      else if code = ''KeyT'' \<or> code = ''Enter'' then focusChat s
      else if code = ''KeyH'' then s\<lparr>pg_uiHidden := \<not> pg_uiHidden s\<rparr>
      else if code = ''KeyV'' then s\<lparr>pg_thirdPerson := \<not> pg_thirdPerson s\<rparr>
      else pressKey code True s)"

definition keyUp :: "string \<Rightarrow> page \<Rightarrow> page" where
  "keyUp code s = pressKey code False s"

text \<open>The throw of the local player with its effects on the tables and the network.\<close>

definition throwLocal :: "browser \<Rightarrow> int \<Rightarrow> real \<Rightarrow> jsstr \<Rightarrow> nat \<Rightarrow> page \<Rightarrow> page" where
  "throwLocal B nowMs perfNow shotId r s =
     (case throwSnowball (br_three B) perfNow (cl_cameraPitch s) (model s r) of
        None \<Rightarrow> s
      | Some (m, origin, dir) \<Rightarrow>
          let s = modify r (\<lambda>_. m) s;
              s = addBall (br_three B) shotId origin dir (pm_id m) s
          in sendSnowball shotId dir nowMs s)"

definition mouseDown :: "browser \<Rightarrow> int \<Rightarrow> real \<Rightarrow> jsstr \<Rightarrow> nat \<Rightarrow> page \<Rightarrow> page" where
  "mouseDown B nowMs perfNow shotId button s =
     (if pg_chatFocus s then s
      else if pg_overlay s then s
      else if button = 0 then
        (if \<not> pg_pointerLocked s then s\<lparr>pg_lockRequested := True\<rparr>
         else case cl_localPlayer s of Some r \<Rightarrow> throwLocal B nowMs perfNow shotId r s | None \<Rightarrow> s)
      else s)"

definition pointerLockChange :: "bool \<Rightarrow> page \<Rightarrow> page" where
  "pointerLockChange locked s = s\<lparr>pg_pointerLocked := locked, pg_clickToPlay := \<not> locked\<rparr>"

definition resizeWindow :: "real \<Rightarrow> real \<Rightarrow> page \<Rightarrow> page" where
  "resizeWindow innerWidth innerHeight s =
     s\<lparr>pg_aspect := Some (innerWidth / innerHeight), pg_resized := Some (innerWidth, innerHeight)\<rparr>"

definition mouseMove :: "real \<Rightarrow> real \<Rightarrow> page \<Rightarrow> page" where
  "mouseMove dx dy s =
     (case cl_localPlayer s of
        None \<Rightarrow> s
      | Some r \<Rightarrow>
          if \<not> pg_pointerLocked s then s
          else
            let yaw = cl_cameraYaw s - dx * c_lookSensitivity CLIENT_CONFIG;
                pitch = cl_cameraPitch s - dy * c_lookSensitivity CLIENT_CONFIG;
                pitch = max (c_minPitch CLIENT_CONFIG) (min (c_maxPitch CLIENT_CONFIG) pitch);
                s = s\<lparr>cl_cameraYaw := yaw, cl_cameraPitch := pitch\<rparr>
            in if \<not> k_r (pm_input (model s r)) then modify r (\<lambda>m. m\<lparr>pm_rotY := yaw\<rparr>) s else s)"

section \<open>A frame\<close>

text \<open>\<open>players.forEach(p => p.update(dt))\<close>.\<close>

definition stepPlayer :: "browser \<Rightarrow> real \<Rightarrow> real \<Rightarrow> page \<Rightarrow> nat \<Rightarrow> page" where
  "stepPlayer B dt clockMs s r =
     (let (m, yaw) = updatePlayer (br_three B) (of_int (cl_worldSeed s)) dt clockMs (model s r) (cl_cameraYaw s)
      in (modify r (\<lambda>_. m) s)\<lparr>cl_cameraYaw := yaw\<rparr>)"

text \<open>\<open>update\<close> of a snowball, which leaves the table when it is destroyed.\<close>

definition stepBall :: "browser \<Rightarrow> real \<Rightarrow> nat \<Rightarrow> page \<Rightarrow> page" where
  "stepBall B dt b s =
     (let ball = cl_balls s ! b;
          ball' = updateSnowball (br_three B) (of_int (cl_worldSeed s)) (cl_obstacles s) dt ball;
          s = s\<lparr>cl_balls := (cl_balls s)[b := ball']\<rparr>
      in if sb_active ball \<and> \<not> sb_active ball'
         then s\<lparr>cl_snowballsById := map_delete (sb_id ball) (cl_snowballsById s)\<rparr> else s)"

text \<open>The loop over the snowballs runs from the end, so that removing one does not skip another.\<close>

fun ballLoop :: "browser \<Rightarrow> real \<Rightarrow> nat \<Rightarrow> page \<Rightarrow> page" where
  "ballLoop B dt 0 s = s"
| "ballLoop B dt (Suc i) s =
     (let b = cl_snowballs s ! i;
          s = stepBall B dt b s;
          s = (if \<not> sb_active (cl_balls s ! b)
               then s\<lparr>cl_snowballs := take i (cl_snowballs s) @ drop (Suc i) (cl_snowballs s)\<rparr> else s)
      in ballLoop B dt i s)"

definition volumeAt :: "real \<Rightarrow> real" where
  "volumeAt distance =
     (let maxDistance = 180; minDistance = 10
      in if distance \<le> minDistance then 1
         else if distance \<ge> maxDistance then 5 / 100
         else
           let ratio = (distance - minDistance) / (maxDistance - minDistance)
           in max (5 / 100) ((1 - ratio) powr (15 / 10)))"

definition updateMusicVolume :: "browser \<Rightarrow> page \<Rightarrow> page" where
  "updateMusicVolume B s =
     (case cl_localPlayer s of
        None \<Rightarrow> s
      | Some r \<Rightarrow> s\<lparr>pg_volume := volumeAt (t_distance (br_three B) (pm_pos (model s r)) (vec 0 0 0))\<rparr>)"

definition updateCamera :: "browser \<Rightarrow> page \<Rightarrow> page" where
  "updateCamera B s =
     (case cl_localPlayer s of
        None \<Rightarrow> s
      | Some r \<Rightarrow>
          let T = br_three B; m = model s r;
              eyeOffset = (if k_shift (pm_input m) then 135 / 100 else 15 / 10);
              headPos = (pm_pos m)\<lparr>vy := vy (pm_pos m) + eyeOffset\<rparr>
          in if pg_thirdPerson s then
               (let camOffset = t_eulerYXZ T (cl_cameraPitch s) (cl_cameraYaw s) (vec 0 0 (35 / 10));
                    target = t_add T headPos camOffset
                in modify r (\<lambda>m. m\<lparr>pm_visible := True\<rparr>)
                     (s\<lparr>pg_camera := t_lerp T (pg_camera s) target (5 / 10), pg_lookAt := headPos\<rparr>))
             else
               (let lookDir = t_eulerYXZ T (cl_cameraPitch s) (cl_cameraYaw s) (vec 0 0 (- 1))
                in modify r (\<lambda>m. m\<lparr>pm_visible := False\<rparr>)
                     (s\<lparr>pg_camera := t_lerp T (pg_camera s) headPos (5 / 10), pg_lookAt := t_add T headPos lookDir\<rparr>)))"

definition snowStep :: "real \<Rightarrow> vec3 \<Rightarrow> vec3" where
  "snowStep dt v = (let y = vy v - 5 * dt in v\<lparr>vy := (if y < 0 then 50 else y)\<rparr>)"

definition animate :: "browser \<Rightarrow> real \<Rightarrow> real \<Rightarrow> real \<Rightarrow> real \<Rightarrow> page \<Rightarrow> page" where
  "animate B delta time clockMs perfNow s =
     (let dt = min delta (1 / 10);
          s = foldl (stepPlayer B dt clockMs) s (cl_players s);
          s = ballLoop B dt (length (cl_snowballs s)) s;
          s = maybeSendLocalState perfNow s;
          s = updateMusicVolume B s;
          s = updateCamera B s
      in s\<lparr>pg_snow := map (snowStep dt) (pg_snow s), pg_tree := map_option (treeFrame time) (pg_lights s)\<rparr>)"

section \<open>The page as a transition system\<close>

text \<open>
  Everything that can happen to the page. A frame carries the time since the last one, the elapsed
  time and the two clocks; a throw carries the identifier it draws; a loaded model carries its objects
  as they are measured in a pose, or nothing if it cannot be loaded; a key in the field of the guest
  name carries its value and its code. The last four are the state of the audio context, the end of a
  red flash, a resized window, and the reload of the page after the last failed reconnection.
\<close>

datatype page_event =
    PeMsg int real server_msg
  | PeOpen int real jsval
  | PeClose
  | PeReconnect
  | PePing int real
  | PeFrame real real real real
  | PeKeyDown string
  | PeKeyUp string
  | PeMouseDown int real jsstr nat
  | PeMouseMove real real
  | PeLock bool
  | PeChatKey string
  | PeChatInput jsstr
  | PeBallTimeout nat
  | PeChatExpire nat
  | PeHideChat nat
  | PeSnowman nat "glow list"
  | PeLoaded placement "(pose \<Rightarrow> scene_object list) option"
  | PeAuth jsstr "jsval option" "jsval option"
  | PeStart
  | PeGuest
  | PeGuestInput jsstr
  | PeGuestKey string string
  | PeChatFocus bool
  | PeBoards "(jsstr \<times> nat) list option option" "(jsstr \<times> nat) list option option"
  | PeClick
  | PeAudio bool
  | PeFlashGone
  | PeResize real real
  | PeReload

text \<open>An event may not be of a kind that the state rules out: a socket has to be open to deliver.\<close>

fun possible :: "page_event \<Rightarrow> page \<Rightarrow> bool" where
  "possible (PeMsg _ _ _) s \<longleftrightarrow> wsIsOpen s"
| "possible (PeOpen _ _ _) s \<longleftrightarrow> nm_ws (cl_net s) = Some WsConnecting"
| "possible PeClose s \<longleftrightarrow> nm_ws (cl_net s) \<noteq> None \<and> nm_ws (cl_net s) \<noteq> Some WsClosed"
| "possible PeReconnect s \<longleftrightarrow> nm_reconnectTimer (cl_net s)"
| "possible (PePing _ _) s \<longleftrightarrow> nm_pingTimerId (cl_net s)"
| "possible (PeFrame delta _ _ _) s \<longleftrightarrow> 0 \<le> delta"
| "possible (PeBallTimeout b) s \<longleftrightarrow> b < length (cl_balls s)"
| "possible (PeHideChat r) s \<longleftrightarrow> r < length (cl_models s)"
| "possible (PeSnowman r _) s \<longleftrightarrow>
     r < length (cl_models s) \<and> pm_isBot (model s r) \<and> pm_snowman (model s r) = None"
| "possible (PeLoaded p _) s \<longleftrightarrow> p \<in> set (pg_loading s)"
| "possible PeFlashGone s \<longleftrightarrow> cl_flashes s > 0"
| "possible PeReload s \<longleftrightarrow> nm_reloadTimer (cl_net s)"
| "possible _ s \<longleftrightarrow> True"

text \<open>The page after \<open>init\<close>; a gain node starts with gain 1.\<close>

definition initPage :: page where
  "initPage = \<lparr>cl_models = [], cl_localPlayer = None, cl_localPlayerId = None, cl_players = [], cl_playersById = [],
     cl_balls = [], cl_snowballs = [], cl_snowballsById = [], cl_obstacles = [], cl_cameraYaw = 0, cl_cameraPitch = 0,
     cl_worldSeed = 1, cl_environmentReady = False, cl_deadUI = False, cl_hpUI = (100, 5), cl_chatLog = (0, []),
     cl_alert = None, cl_flashes = 0, cl_net = newNetworkManager, cl_sent = [],
     pg_currentUser = JNull, pg_oauthEnabled = JBool False, pg_screen = LoginPending, pg_overlay = True,
     pg_guestName = [], pg_savedName = None, pg_tabId = None, pg_chatInput = [], pg_chatFocus = False,
     pg_pointerLocked = False, pg_lockRequested = False, pg_exitRequested = False, pg_clickToPlay = True,
     pg_loginStatus = checkingText, pg_loggedInName = JUndef, pg_nameDisplay = None, pg_music = initBackgroundMusic,
     pg_resized = None, pg_aspect = None, pg_scene = [], pg_loading = [], pg_scenery = [], pg_thirdPerson = True, pg_uiHidden = False,
     pg_camera = vec 0 0 0, pg_lookAt = vec 0 0 0, pg_snow = [], pg_lights = None, pg_tree = None, pg_board24h = None,
     pg_board7d = None, pg_volume = 1\<rparr>"

text \<open>A reload starts the page again; the storage of the tab survives.\<close>

definition reload :: "page \<Rightarrow> page" where
  "reload s = initPage\<lparr>pg_savedName := pg_savedName s, pg_tabId := pg_tabId s\<rparr>"

text \<open>The scenery that \<open>createEnvironment\<close> adds to the scene, and the models it starts to load.\<close>

definition showEnvironment :: "browser \<Rightarrow> page \<Rightarrow> page" where
  "showEnvironment B s =
     (let e = createEnvironment (br_cone B) (br_plane B) (cl_worldSeed s)
      in s\<lparr>pg_snow := en_snow e, pg_lights := Some (bulbsOf (en_tree e)), pg_scene := en_scene e,
          pg_loading := en_models e\<rparr>)"

definition modelLoaded :: "browser \<Rightarrow> placement \<Rightarrow> (pose \<Rightarrow> scene_object list) option \<Rightarrow> page \<Rightarrow> page" where
  "modelLoaded B p objects s =
     (case placeKenneyModel (br_boxes B) objects p of
        None \<Rightarrow> s\<lparr>pg_loading := remove1 p (pg_loading s)\<rparr>
      | Some (pose, boxes) \<Rightarrow>
          s\<lparr>pg_loading := remove1 p (pg_loading s), cl_obstacles := cl_obstacles s @ boxes,
            pg_scenery := pg_scenery s @ [(pl_name p, pose)]\<rparr>)"

fun pageStep :: "browser \<Rightarrow> page_event \<Rightarrow> page \<Rightarrow> page" where
  "pageStep B (PeMsg nowMs perf msg) s =
     (let ready = cl_environmentReady s;
          s' = fst (handleServerMsg (br_platform B) (br_three B) (sceneryOf B) nowMs perf msg s)
      in if \<not> ready \<and> cl_environmentReady s' then showEnvironment B s' else s')"
| "pageStep B (PeOpen nowMs perf name) s = onOpen nowMs perf name s"
| "pageStep B PeClose s = onCloseWs s"
| "pageStep B PeReconnect s = reconnectFires s"
| "pageStep B (PePing nowMs perf) s = pingTick nowMs perf s"
| "pageStep B (PeFrame delta time clockMs perf) s = animate B delta time clockMs perf s"
| "pageStep B (PeKeyDown code) s = keyDown code (gesture s)"
| "pageStep B (PeKeyUp code) s = keyUp code s"
| "pageStep B (PeMouseDown nowMs perf shotId button) s = mouseDown B nowMs perf shotId button s"
| "pageStep B (PeMouseMove dx dy) s = mouseMove dx dy s"
| "pageStep B (PeLock locked) s = pointerLockChange locked s"
| "pageStep B (PeChatKey key) s = chatKey key s"
| "pageStep B (PeChatInput t) s = s\<lparr>pg_chatInput := t\<rparr>"
| "pageStep B (PeBallTimeout b) s = destroySnowball b s"
| "pageStep B (PeChatExpire i) s = s\<lparr>cl_chatLog := expireChatLine i (cl_chatLog s)\<rparr>"
| "pageStep B (PeHideChat r) s = modify r hideChat s"
| "pageStep B (PeSnowman r meshes) s = modify r (snowmanLoaded meshes) s"
| "pageStep B (PeLoaded p objects) s = modelLoaded B p objects s"
| "pageStep B (PeAuth uuid c m) s = checkAuthStatus uuid c m s"
| "pageStep B PeStart s = gesture (clickStart s)"
| "pageStep B PeGuest s = gesture (clickGuest s)"
| "pageStep B (PeGuestInput name) s = s\<lparr>pg_guestName := name\<rparr>"
| "pageStep B (PeGuestKey key code) s = keyDown code (gesture (guestKey key s))"
| "pageStep B (PeChatFocus on) s = (if on then focusChat s else s\<lparr>pg_chatFocus := False\<rparr>)"
| "pageStep B (PeBoards res24h res7d) s = loadLeaderboards B res24h res7d s"
| "pageStep B PeClick s = gesture s"
| "pageStep B (PeAudio suspended) s = s\<lparr>pg_music := (pg_music s)\<lparr>mu_suspended := suspended\<rparr>\<rparr>"
| "pageStep B PeFlashGone s = s\<lparr>cl_flashes := cl_flashes s - 1\<rparr>"
| "pageStep B (PeResize w h) s = resizeWindow w h s"
| "pageStep B PeReload s = reload s"

text \<open>The states of a page to which only messages of a kind \<open>Q\<close> are delivered.\<close>

inductive page_reach :: "browser \<Rightarrow> (server_msg \<Rightarrow> bool) \<Rightarrow> page \<Rightarrow> bool" for B Q where
  start: "page_reach B Q initPage"
| step: "page_reach B Q s \<Longrightarrow> possible e s \<Longrightarrow> (\<And>n p m. e = PeMsg n p m \<Longrightarrow> Q m) \<Longrightarrow> page_reach B Q (pageStep B e s)"

end
