(* ===== verification/Client_Runs.thy ===== *)
theory Client_Runs
  imports Client_Loop
begin

text \<open>
  Runs of the browser page: what every event of \<open>pageStep\<close> leaves alone, the invariants of the tables
  of players and snowballs and of what the page reports, and the loop of a frame over the snowballs.
\<close>

section \<open>Lemmas: what a step leaves alone\<close>

lemma localStep_identity:
  "pm_id (fst (localStep T w dt p y)) = pm_id p" "pm_isRemote (fst (localStep T w dt p y)) = pm_isRemote p"
  "pm_targetPos (fst (localStep T w dt p y)) = pm_targetPos p"
  by (simp_all add: localStep_def case_prod_beta Let_def)

lemma remoteStep_identity:
  "pm_id (remoteStep T dt p) = pm_id p" "pm_isRemote (remoteStep T dt p) = pm_isRemote p"
  "pm_targetPos (remoteStep T dt p) = pm_targetPos p"
  by (simp_all add: remoteStep_def Let_def)

lemma updateAnimation_identity:
  "pm_id (updateAnimation T dt c p) = pm_id p" "pm_isRemote (updateAnimation T dt c p) = pm_isRemote p"
  "pm_targetPos (updateAnimation T dt c p) = pm_targetPos p" "pm_pos (updateAnimation T dt c p) = pm_pos p"
  by (simp_all add: updateAnimation_def Let_def)

lemma updateFlash_identity:
  "pm_id (updateFlash dt p) = pm_id p" "pm_isRemote (updateFlash dt p) = pm_isRemote p"
  "pm_targetPos (updateFlash dt p) = pm_targetPos p" "pm_pos (updateFlash dt p) = pm_pos p"
  by (simp_all add: updateFlash_def setGlow_def Let_def)

lemmas frame_identity = localStep_identity remoteStep_identity updateAnimation_identity updateFlash_identity

lemma updatePlayer_identity:
  "pm_id (fst (updatePlayer T w dt c p y)) = pm_id p"
  "pm_isRemote (fst (updatePlayer T w dt c p y)) = pm_isRemote p"
  "pm_targetPos (fst (updatePlayer T w dt c p y)) = pm_targetPos p"
  by (simp_all add: updatePlayer_def case_prod_beta frame_identity Let_def)

lemma map_update_eq: "g m = g (xs ! r) \<Longrightarrow> map g (xs[r := m]) = map g xs"
  by (cases "r < length xs") (simp_all add: map_update list_update_same_conv list_update_beyond)

lemma modify_const_same:
  assumes "pm_id m = pm_id (model s r)" "pm_isRemote m = pm_isRemote (model s r)"
  shows "same_players s (modify r (\<lambda>_. m) s)"
  using assms by (simp add: same_players_def modify_def model_def map_update_eq)

text \<open>What the status line is about.\<close>

definition netView :: "net \<Rightarrow> ws_state option \<times> jsstr \<times> bool \<times> bool \<times> nat" where
  "netView n = (nm_ws n, nm_status n, nm_reloadTimer n, nm_reconnectTimer n, nm_connectAttempts n)"

text \<open>A step that concerns players only.\<close>

definition quiet :: "('z) client_scheme \<Rightarrow> ('z) client_scheme \<Rightarrow> bool" where
  "quiet s s' \<longleftrightarrow> cl_cameraPitch s' = cl_cameraPitch s \<and> cl_balls s' = cl_balls s \<and> cl_snowballs s' = cl_snowballs s \<and>
     cl_snowballsById s' = cl_snowballsById s \<and> cl_sent s' = cl_sent s \<and> cl_chatLog s' = cl_chatLog s \<and>
     netView (cl_net s') = netView (cl_net s)"

lemma quiet_refl [simp]: "quiet s s"
  by (simp add: quiet_def)

lemma quiet_trans: "quiet s t \<Longrightarrow> quiet t u \<Longrightarrow> quiet s u"
  by (simp add: quiet_def)

lemma quiet_basic [simp]:
  "quiet s (modify r f s)" "quiet s (modNet (\<lambda>n. n\<lparr>nm_pendingSnapshot := q\<rparr>) s)" "quiet s (pingLabel p r s)" "quiet s (removePlayer k s)"
  "quiet s (ensureEnvironment build s)"
  by (simp_all add: quiet_def netView_def modify_def modNet_def pingLabel_def removePlayer_def ensureEnvironment_def split: option.split)

lemma quiet_updates [simp]:
  "quiet s (t\<lparr>cl_hpUI := u\<rparr>) = quiet s t" "quiet s (t\<lparr>cl_deadUI := b\<rparr>) = quiet s t"
  "quiet s (t\<lparr>cl_alert := a\<rparr>) = quiet s t" "quiet s (t\<lparr>cl_localPlayer := l\<rparr>) = quiet s t"
  "quiet s (t\<lparr>cl_localPlayerId := i\<rparr>) = quiet s t" "quiet s (t\<lparr>cl_worldSeed := w\<rparr>) = quiet s t"
  by (simp_all add: quiet_def)

lemma quiet_add: "quiet s (fst (addRemote P pid pos name s))" "quiet s (fst (createLocalPlayer P snap s))"
  by (simp_all add: quiet_def addRemote_def createLocalPlayer_def Let_def split: sum.split)

lemma quiet_snapLocal: "quiet s (fst (snapLocal P snap s))"
proof -
  obtain s1 e1 where 1: "(if cl_localPlayer s = None then createLocalPlayer P snap s else (s, None)) = (s1, e1)"
    by (metis surj_pair)
  then have "quiet s s1" using quiet_add(2) [of s P snap] by (auto split: if_splits)
  moreover have "quiet s1 (fst (snapLocal P snap s))"
    by (auto simp: snapLocal_def 1 Let_def split: option.split intro: quiet_trans [OF _ quiet_basic(3)])
  ultimately show ?thesis by (rule quiet_trans)
qed

lemma quiet_snapRemote: "quiet s (fst (snapRemote P T snap s))"
proof -
  obtain s1 e1 where 1: "(if map_get (cl_playersById s) (ps_id snap) = None
      then addRemote P (ps_id snap) (ps_pos snap) (ps_name snap) s else (s, None)) = (s1, e1)"
    by (metis surj_pair)
  then have "quiet s s1"
    using quiet_add(1) [of s P "ps_id snap" "ps_pos snap" "ps_name snap"] by (auto split: if_splits)
  moreover have "quiet s1 (fst (snapRemote P T snap s))"
    by (auto simp: snapRemote_def 1 Let_def split: option.split
        intro: quiet_trans [OF quiet_trans [OF quiet_basic(1) quiet_basic(1)] quiet_basic(3)])
  ultimately show ?thesis by (rule quiet_trans)
qed

lemma quiet_snapLoop: "quiet s (fst (snd (snapLoop P T list ids s)))"
proof (induction list arbitrary: ids s)
  case (Cons snap list)
  obtain s1 e1 where 1: "(if Some (ps_id snap) = cl_localPlayerId s then snapLocal P snap s else snapRemote P T snap s) =
      (s1, e1)" by (metis surj_pair)
  then have "quiet s s1" using quiet_snapLocal [of s P snap] quiet_snapRemote [of s P T snap] by (auto split: if_splits)
  then show ?case using 1 by (cases e1) (auto intro: Cons.IH quiet_trans [OF _ Cons.IH])
qed simp

lemma quiet_sweep: "quiet s (sweep ids ks s)"
  unfolding sweep_def by (induction ks arbitrary: s) (auto intro: quiet_trans [OF quiet_basic(4)])

lemma quiet_applySnapshot: "quiet s (fst (applySnapshot P T list s))"
proof -
  obtain ids s1 e where 1: "snapLoop P T list [] s = (ids, s1, e)" by (metis surj_pair)
  then have "quiet s s1" using quiet_snapLoop [of s P T list "[]"] by simp
  then show ?thesis by (cases e) (auto simp: applySnapshot_eq 1 intro: quiet_trans [OF _ quiet_sweep])
qed

lemma quiet_onWelcome: "quiet s (fst (onWelcome P T build pid seed s))"
proof -
  define s1 where "s1 = (case cl_localPlayer s of
      Some r \<Rightarrow> if pm_id (model s r) \<noteq> pid then (removePlayer (pm_id (model s r)) s)\<lparr>cl_localPlayer := None\<rparr> else s
    | None \<Rightarrow> s)"
  define s2 where "s2 = ensureEnvironment build (s1\<lparr>cl_localPlayerId := Some pid, cl_worldSeed := seed\<rparr>)"
  have "quiet s s1" by (simp add: s1_def split: option.split)
  then have 2: "quiet s s2" unfolding s2_def by (intro quiet_trans [OF _ quiet_basic(5)]) simp
  show ?thesis
  proof (cases "nm_pendingSnapshot (cl_net s2)")
    case None
    then show ?thesis using 2 by (simp add: onWelcome_def s1_def [symmetric] s2_def Let_def)
  next
    case (Some list)
    obtain s3 e where 3: "applySnapshot P T list s2 = (s3, e)" by (metis surj_pair)
    then have "quiet s s3" using quiet_trans [OF 2 quiet_applySnapshot [of s2 P T list]] by simp
    then show ?thesis
      using Some 3 quiet_trans [OF _ quiet_basic(2)]
      by (cases e) (simp_all add: onWelcome_def s1_def [symmetric] s2_def [symmetric] Let_def)
  qed
qed

lemma quiet_statesLoop: "quiet s (fst (statesLoop P T list s))"
proof (induction list arbitrary: s)
  case (Cons st list)
  obtain s1 e1 where 1: "applyState P T st s = (s1, e1)" by (metis surj_pair)
  obtain s2 e2 where 2: "(if map_get (cl_playersById s) (pn_id st) = None
      then addRemote P (pn_id st) (pn_pos st) (JStr (jslit ''Player'')) s else (s, None)) = (s2, e2)"
    by (metis surj_pair)
  have "quiet s s2"
    using 2 quiet_add(1) [of s P "pn_id st" "pn_pos st" "JStr (jslit ''Player'')"] by (auto split: if_splits)
  then have "quiet s s1"
    using 1 2 by (auto simp: applyState_def Let_def split: if_splits option.splits intro: quiet_trans [OF _ quiet_basic(1)])
  then show ?case using 1 Cons.IH [of s1] by (cases e1) (auto intro: quiet_trans)
qed simp

section \<open>The invariant of the page\<close>

text \<open>
  The table of snowballs: an entry refers to an active ball with that identifier that is also drawn;
  no ball is drawn twice.
\<close>

definition balls_ok :: "('z) client_scheme \<Rightarrow> bool" where
  "balls_ok s \<longleftrightarrow> map_ok (cl_snowballsById s) \<and> distinct (cl_snowballs s) \<and>
     (\<forall>b \<in> set (cl_snowballs s). b < length (cl_balls s)) \<and>
     (\<forall>k b. map_get (cl_snowballsById s) k = Some b \<longrightarrow>
        b \<in> set (cl_snowballs s) \<and> sb_id (cl_balls s ! b) = k \<and> sb_active (cl_balls s ! b))"

definition page_ok :: "('z) client_scheme \<Rightarrow> bool" where
  "page_ok s \<longleftrightarrow> balls_ok s \<and> \<bar>cl_cameraPitch s\<bar> \<le> 3 / 2 \<and> length (snd (cl_chatLog s)) \<le> 50"

lemma quiet_page_ok: "quiet s t \<Longrightarrow> page_ok s \<Longrightarrow> page_ok t"
  by (simp add: quiet_def page_ok_def balls_ok_def)

lemma page_ok_send [simp]: "page_ok (send m s) = page_ok s"
  by (simp add: page_ok_def balls_ok_def send_def)

lemma page_ok_logChat: "page_ok s \<Longrightarrow> page_ok (logChat line s)"
  by (simp add: page_ok_def balls_ok_def logChat_def appendChatLog_bound)

lemma addBall_ok:
  assumes "page_ok s"
  shows "page_ok (addBall T bid o' d w s)"
proof -
  have "b < length (cl_balls s)" if "b \<in> set (cl_snowballs s)" for b
    using assms that by (simp add: page_ok_def balls_ok_def)
  then show ?thesis
    using assms unfolding page_ok_def balls_ok_def
    by (auto simp: addBall_def Let_def newSnowball_def nth_append less_SucI split: if_splits)
qed

text \<open>Deactivating a ball together with its entry.\<close>

lemma nth_update_any: "xs[b := v] ! c = (if b = c \<and> b < length xs then v else xs ! c)"
  by (cases "b < length xs") (auto simp: nth_list_update list_update_beyond)

lemma balls_ok_update:
  assumes "balls_ok s" "sb_id ball' = sb_id (cl_balls s ! b)" "sb_active ball' = sb_active (cl_balls s ! b)"
  shows "balls_ok (s\<lparr>cl_balls := (cl_balls s)[b := ball']\<rparr>)"
  using assms unfolding balls_ok_def by (auto simp: nth_update_any)

lemma balls_ok_destroy:
  assumes "balls_ok s"
  shows "balls_ok (s\<lparr>cl_balls := (cl_balls s)[b := ball'],
    cl_snowballsById := map_delete (sb_id (cl_balls s ! b)) (cl_snowballsById s)\<rparr>)"
  using assms unfolding balls_ok_def by (auto simp: nth_update_any split: if_splits)

lemma page_ok_fields:
  "page_ok s \<Longrightarrow> balls_ok t \<Longrightarrow> cl_cameraPitch t = cl_cameraPitch s \<Longrightarrow> cl_chatLog t = cl_chatLog s \<Longrightarrow> page_ok t"
  by (simp add: page_ok_def)

lemma destroySnowball_ok: "page_ok s \<Longrightarrow> page_ok (destroySnowball b s)"
  by (rule page_ok_fields [of s]) (auto simp: destroySnowball_def page_ok_def balls_ok_destroy)

lemma updateSnowball_id: "sb_id (updateSnowball T w obs dt b) = sb_id b"
  by (simp add: updateSnowball_def destroyBall_def Let_def)

lemma updateSnowball_inactive: "\<not> sb_active b \<Longrightarrow> updateSnowball T w obs dt b = b"
  by (simp add: updateSnowball_def)

lemma stepBall_ok: "page_ok s \<Longrightarrow> page_ok (stepBall B dt b s)"
proof (rule page_ok_fields [of s])
  assume "page_ok s"
  then have s: "balls_ok s" by (simp add: page_ok_def)
  let ?u = "updateSnowball (br_three B) (of_int (cl_worldSeed s)) (cl_obstacles s) dt (cl_balls s ! b)"
  show "balls_ok (stepBall B dt b s)"
  proof (cases "sb_active (cl_balls s ! b) \<and> \<not> sb_active ?u")
    case True
    then show ?thesis using balls_ok_destroy [OF s, of b ?u] by (simp add: stepBall_def Let_def)
  next
    case False
    then have "sb_active ?u = sb_active (cl_balls s ! b)" using updateSnowball_inactive by metis
    then show ?thesis
      using balls_ok_update [OF s, of ?u b] False by (auto simp: stepBall_def updateSnowball_id Let_def)
  qed
qed (simp_all add: stepBall_def Let_def)

lemma balls_ok_drop:
  assumes "balls_ok s" "i < length (cl_snowballs s)" "\<not> sb_active (cl_balls s ! (cl_snowballs s ! i))"
  shows "balls_ok (s\<lparr>cl_snowballs := take i (cl_snowballs s) @ drop (Suc i) (cl_snowballs s)\<rparr>)"
proof -
  let ?xs = "cl_snowballs s"
  have e: "?xs = take i ?xs @ ?xs ! i # drop (Suc i) ?xs" using assms(2) by (simp add: id_take_nth_drop)
  have d: "distinct (take i ?xs @ ?xs ! i # drop (Suc i) ?xs)" using assms(1) e unfolding balls_ok_def by metis
  have k: "b \<in> set (take i ?xs @ drop (Suc i) ?xs)" if "map_get (cl_snowballsById s) k = Some b" for k b
  proof -
    have b: "b \<in> set ?xs" "b \<noteq> ?xs ! i" using assms(1,3) that unfolding balls_ok_def by auto
    have "b \<in> set (take i ?xs @ ?xs ! i # drop (Suc i) ?xs)" using b(1) e by metis
    then show ?thesis using b(2) by auto
  qed
  have l: "b < length (cl_balls s)" if "b \<in> set (take i ?xs @ drop (Suc i) ?xs)" for b
    using assms(1) that unfolding balls_ok_def by (auto dest: in_set_takeD in_set_dropD)
  have "distinct (take i ?xs @ drop (Suc i) ?xs)" using d by simp
  with assms(1) k l show ?thesis
    unfolding balls_ok_def by (simp del: set_append distinct_append)
qed

text \<open>One turn of the loop.\<close>

definition ballTurn :: "browser \<Rightarrow> real \<Rightarrow> nat \<Rightarrow> page \<Rightarrow> page" where
  "ballTurn B dt i s =
     (let t = stepBall B dt (cl_snowballs s ! i) s
      in if \<not> sb_active (cl_balls t ! (cl_snowballs s ! i))
         then t\<lparr>cl_snowballs := take i (cl_snowballs t) @ drop (Suc i) (cl_snowballs t)\<rparr> else t)"

lemma ballLoop_turn: "ballLoop B dt (Suc i) s = ballLoop B dt i (ballTurn B dt i s)"
  by (simp only: ballLoop.simps ballTurn_def Let_def)

lemma stepBall_snowballs [simp]: "cl_snowballs (stepBall B dt b s) = cl_snowballs s"
  by (simp add: stepBall_def Let_def)

lemma ballTurn_ok:
  assumes "page_ok s" "Suc i \<le> length (cl_snowballs s)"
  shows "page_ok (ballTurn B dt i s)" "i \<le> length (cl_snowballs (ballTurn B dt i s))"
proof -
  let ?t = "stepBall B dt (cl_snowballs s ! i) s"
  have t: "page_ok ?t" by (rule stepBall_ok [OF assms(1)])
  show "page_ok (ballTurn B dt i s)"
  proof (cases "sb_active (cl_balls ?t ! (cl_snowballs s ! i))")
    case True
    then show ?thesis using t by (simp add: ballTurn_def)
  next
    case False
    then have "balls_ok (?t\<lparr>cl_snowballs := take i (cl_snowballs ?t) @ drop (Suc i) (cl_snowballs ?t)\<rparr>)"
      using t assms(2) by (intro balls_ok_drop) (simp_all add: page_ok_def)
    then show ?thesis using False t by (simp add: ballTurn_def page_ok_def)
  qed
  show "i \<le> length (cl_snowballs (ballTurn B dt i s))"
    using assms(2) by (auto simp: ballTurn_def Let_def)
qed

lemma ballTurn_same:
  "same_players s (ballTurn B dt i s)" "cl_sent (ballTurn B dt i s) = cl_sent s"
  "cl_models (ballTurn B dt i s) = cl_models s"
  by (simp_all add: ballTurn_def stepBall_def same_players_def Let_def)

lemma ballLoop_same:
  "same_players s (ballLoop B dt n s)" "cl_sent (ballLoop B dt n s) = cl_sent s"
  "cl_models (ballLoop B dt n s) = cl_models s"
proof (induction n arbitrary: s)
  case (Suc i)
  { case 1 show ?case
      using same_players_trans [OF ballTurn_same(1) Suc(1)] by (simp only: ballLoop_turn) }
  { case 2 show ?case by (simp only: ballLoop_turn Suc(2) ballTurn_same) }
  { case 3 show ?case by (simp only: ballLoop_turn Suc(3) ballTurn_same) }
qed simp_all

lemma ballLoop_net: "cl_net (ballLoop B dt n s) = cl_net s"
proof (induction n arbitrary: s)
  case (Suc i)
  have "cl_net (ballTurn B dt i s) = cl_net s" by (simp add: ballTurn_def stepBall_def Let_def)
  then show ?case by (simp only: ballLoop_turn Suc)
qed simp

lemma ballLoop_ok: "page_ok s \<Longrightarrow> n \<le> length (cl_snowballs s) \<Longrightarrow> page_ok (ballLoop B dt n s)"
proof (induction n arbitrary: s)
  case (Suc i)
  then show ?case by (simp only: ballLoop_turn ballTurn_ok Suc.IH)
qed simp

text \<open>Messages.\<close>

lemma page_ok_modify [simp]: "page_ok (modify r f s) = page_ok s" "page_ok (modNet g s) = page_ok s"
  by (simp_all add: page_ok_def balls_ok_def modify_def modNet_def)

lemma page_ok_updates [simp]:
  "page_ok (s\<lparr>cl_hpUI := u\<rparr>) = page_ok s" "page_ok (s\<lparr>cl_deadUI := b\<rparr>) = page_ok s"
  "page_ok (s\<lparr>cl_alert := a\<rparr>) = page_ok s" "page_ok (s\<lparr>cl_cameraYaw := y\<rparr>) = page_ok s"
  "page_ok (s\<lparr>cl_obstacles := ob\<rparr>) = page_ok s" "page_ok (s\<lparr>cl_hpUI := u, cl_flashes := k\<rparr>) = page_ok s"
  by (simp_all add: page_ok_def balls_ok_def)

lemma applyEvent_page_ok:
  assumes "page_ok s"
  shows "page_ok (fst (applyEvent P T now ev s))"
proof (cases "ev_of ev")
  case (EvJoin p)
  then show ?thesis
    using assms quiet_page_ok [OF quiet_add(2) [of s P p] assms]
      quiet_page_ok [OF quiet_add(1) [of s P "ps_id p" "ps_pos p" "ps_name p"] assms]
    by (simp add: applyEvent_def)
next
  case (EvLeave k n)
  then show ?thesis using quiet_page_ok [OF quiet_basic(4) assms] by (simp add: applyEvent_def)
next
  case (EvDeath v vn a an sh t)
  then show ?thesis
    using assms by (auto simp: applyEvent_def Let_def split: option.split intro!: page_ok_logChat)
qed (use assms in \<open>auto simp: applyEvent_def Let_def addBall_ok page_ok_logChat split: option.split\<close>)

lemma handleServerMsg_page_ok:
  assumes "page_ok s"
  shows "page_ok (fst (handleServerMsg P T build now perf msg s))"
proof (cases msg)
  case (MsgSnapshot w list n)
  then show ?thesis
    using assms quiet_page_ok [OF quiet_applySnapshot [of s P T list] assms] by (simp add: handleServerMsg_def)
next
  case (MsgEvent ev)
  then show ?thesis using applyEvent_page_ok [OF assms] by (simp add: handleServerMsg_def)
next
  case (MsgStates tm list)
  then show ?thesis using quiet_page_ok [OF quiet_statesLoop [of s P T list] assms] by (simp add: handleServerMsg_def)
next
  case (MsgWelcome pid w now' seed)
  then show ?thesis
    using quiet_page_ok [OF quiet_onWelcome [of s P T build pid "int seed"] assms] by (simp add: handleServerMsg_def)
qed (use assms in \<open>simp_all add: handleServerMsg_def onPong_def Let_def\<close>)

text \<open>Steps that leave the players and their tables alone.\<close>

definition page_same :: "page \<Rightarrow> page \<Rightarrow> bool" where
  "page_same s t \<longleftrightarrow> same_players s t \<and> (page_ok s \<longrightarrow> page_ok t)"

lemma page_same_refl [simp]: "page_same s s"
  by (simp add: page_same_def)

lemma page_same_trans: "page_same s t \<Longrightarrow> page_same t u \<Longrightarrow> page_same s u"
  using same_players_trans by (auto simp: page_same_def)

lemma page_same_net [simp]: "page_same s (modNet g s)" "page_same s (send m s)"
  by (simp_all add: page_same_def)

lemma page_same_modify:
  "(\<And>m. pm_id (f m) = pm_id m \<and> pm_isRemote (f m) = pm_isRemote m) \<Longrightarrow> page_same s (modify r f s)"
  by (simp add: page_same_def modify_same)

lemma page_same_fields:
  "same_players s t \<Longrightarrow> cl_balls t = cl_balls s \<Longrightarrow> cl_snowballs t = cl_snowballs s \<Longrightarrow>
   cl_snowballsById t = cl_snowballsById s \<Longrightarrow> cl_cameraPitch t = cl_cameraPitch s \<Longrightarrow> cl_chatLog t = cl_chatLog s \<Longrightarrow>
   page_same s t"
  by (simp add: page_same_def page_ok_def balls_ok_def)

text \<open>Steps that change only what the page shows around the game.\<close>

lemma client_same: "client.truncate t = client.truncate s \<Longrightarrow> page_same s t"
  by (rule page_same_fields; simp add: client.truncate_def same_players_def)

lemma shown_only:
  "client.truncate (gesture s) = client.truncate s" "client.truncate (focusChat s) = client.truncate s"
  "client.truncate (checkAuthStatus uuid c m s) = client.truncate s"
  "client.truncate (pointerLockChange b s) = client.truncate s" "client.truncate (resizeWindow w h s) = client.truncate s"
  "client.truncate (loadLeaderboards B r q s) = client.truncate s" "client.truncate (showEnvironment B s) = client.truncate s"
  "client.truncate (hideLoginOverlay s) = client.truncate s"
  by (simp_all add: gesture_def focusChat_def checkAuthStatus_def authFailed_def showLoginUI_def showLoggedInUI_def
      pointerLockChange_def resizeWindow_def loadLeaderboards_def showEnvironment_def hideLoginOverlay_def
      client.truncate_def Let_def split: option.split list.split)

lemma showEnvironment_sel [simp]:
  "cl_models (showEnvironment B s) = cl_models s" "cl_localPlayer (showEnvironment B s) = cl_localPlayer s"
  "cl_localPlayerId (showEnvironment B s) = cl_localPlayerId s" "cl_players (showEnvironment B s) = cl_players s"
  "cl_playersById (showEnvironment B s) = cl_playersById s" "cl_net (showEnvironment B s) = cl_net s"
  "cl_sent (showEnvironment B s) = cl_sent s"
  by (simp_all add: showEnvironment_def Let_def)

lemmas shown_same = shown_only [THEN client_same]

lemma page_same_net_steps:
  "page_same s (onOpen n p name s)" "page_same s (onCloseWs s)" "page_same s (reconnectFires s)"
  "page_same s (pingTick n p s)" "page_same s (sendChat t s)" "page_same s (maybeSendLocalState p s)"
  "page_same s (sendSnowball k d n s)" "page_same s (connect name s)"
  by (rule page_same_fields;
      simp add: onOpen_def onCloseWs_def reconnectFires_def pingTick_def startPingLoop_def scheduleReconnect_def connect_def
        sendChat_def maybeSendLocalState_def sendSnowball_def modNet_def send_def same_players_def Let_def split: option.split)+

lemma stepPlayer_same: "page_same s (stepPlayer B dt c s r)"
proof -
  obtain m y where u: "updatePlayer (br_three B) (of_int (cl_worldSeed s)) dt c (model s r) (cl_cameraYaw s) = (m, y)"
    by (metis surj_pair)
  then have "same_players s (modify r (\<lambda>_. m) s)"
    using updatePlayer_identity(1,2) [of "br_three B" "of_int (cl_worldSeed s)" dt c "model s r" "cl_cameraYaw s"]
    by (intro modify_const_same) simp_all
  then show ?thesis by (simp add: stepPlayer_def u page_same_def same_players_def)
qed

lemma stepPlayers_same: "page_same s (foldl (stepPlayer B dt c) s rs)"
  by (induction rs arbitrary: s) (auto intro: page_same_trans [OF stepPlayer_same])

lemma updateMusicVolume_same: "page_same s (updateMusicVolume B s)"
  by (rule page_same_fields; simp add: updateMusicVolume_def same_players_def split: option.split)

lemma updateCamera_same: "page_same s (updateCamera B s)"
  by (rule page_same_fields;
      simp add: updateCamera_def same_players_def modify_def model_def map_update_eq Let_def split: option.split)

lemma animate_same: "page_same s (animate B delta tm c p s)"
proof -
  let ?dt = "min delta (1 / 10)"
  define s1 where "s1 = foldl (stepPlayer B ?dt c) s (cl_players s)"
  define s2 where "s2 = ballLoop B ?dt (length (cl_snowballs s1)) s1"
  define s3 where "s3 = updateCamera B (updateMusicVolume B (maybeSendLocalState p s2))"
  have "page_same s1 s2" by (simp add: s2_def page_same_def ballLoop_same ballLoop_ok)
  moreover have "page_same s2 s3"
    unfolding s3_def
    by (intro page_same_trans [OF page_same_net_steps(6) page_same_trans [OF updateMusicVolume_same updateCamera_same]])
  moreover have "page_same s3 (s3\<lparr>pg_snow := map (snowStep ?dt) (pg_snow s3), pg_tree := map_option (treeFrame tm) (pg_lights s3)\<rparr>)"
    by (rule page_same_fields) (simp_all add: same_players_def)
  moreover have "animate B delta tm c p s =
      s3\<lparr>pg_snow := map (snowStep ?dt) (pg_snow s3), pg_tree := map_option (treeFrame tm) (pg_lights s3)\<rparr>"
    by (simp add: animate_def s1_def s2_def s3_def Let_def)
  ultimately show ?thesis
    using stepPlayers_same [of s B ?dt c "cl_players s"] page_same_trans unfolding s1_def by metis
qed

text \<open>Input and the login screen.\<close>

lemma throwSnowball_identity:
  "throwSnowball T now pitch m = Some (m', o', d) \<Longrightarrow>
   pm_id m' = pm_id m \<and> pm_isRemote m' = pm_isRemote m \<and> pm_pos m' = pm_pos m \<and> pm_targetPos m' = pm_targetPos m"
  by (auto simp: throwSnowball_def Let_def split: if_splits)

lemma throwLocal_same: "page_same s (throwLocal B n p shot r s)"
proof (cases "throwSnowball (br_three B) p (cl_cameraPitch s) (model s r)")
  case (Some q)
  obtain m o' d where q: "q = (m, o', d)" by (cases q)
  let ?s1 = "modify r (\<lambda>_. m) s"
  let ?s2 = "addBall (br_three B) shot o' d (pm_id m) ?s1"
  have "page_same s ?s1"
    using throwSnowball_identity [OF Some [unfolded q]] by (simp add: page_same_def modify_const_same)
  moreover have "page_same ?s1 ?s2" by (simp add: page_same_def addBall_same addBall_ok)
  ultimately show ?thesis
    using page_same_trans [OF page_same_trans page_same_net_steps(7)] by (simp add: throwLocal_def Some q)
qed (simp add: throwLocal_def)

lemma pressKey_same: "page_same s (pressKey code on s)"
  by (simp add: pressKey_def page_same_modify split: option.split)

lemma keyDown_same: "page_same s (keyDown code s)"
proof -
  have "page_same s (s\<lparr>pg_uiHidden := b\<rparr>)" "page_same s (s\<lparr>pg_thirdPerson := d\<rparr>)" for b d
    by (rule page_same_fields; simp add: same_players_def)+
  then show ?thesis by (simp add: keyDown_def pressKey_same shown_same)
qed

lemma mouseDown_same: "page_same s (mouseDown B n p shot button s)"
proof -
  have "page_same s (s\<lparr>pg_lockRequested := True\<rparr>)" by (rule page_same_fields; simp add: same_players_def)
  then show ?thesis by (simp add: mouseDown_def throwLocal_same split: option.split)
qed

lemma mouseMove_same: "page_same s (mouseMove dx dy s)"
proof (cases "cl_localPlayer s")
  case (Some r)
  let ?s = "s\<lparr>cl_cameraYaw := cl_cameraYaw s - dx * c_lookSensitivity CLIENT_CONFIG,
    cl_cameraPitch := max (c_minPitch CLIENT_CONFIG) (min (c_maxPitch CLIENT_CONFIG)
      (cl_cameraPitch s - dy * c_lookSensitivity CLIENT_CONFIG))\<rparr>"
  have pitch: "\<bar>max (c_minPitch CLIENT_CONFIG) (min (c_maxPitch CLIENT_CONFIG) x)\<bar> \<le> 3 / 2" for x
    by (auto simp: CLIENT_CONFIG_def max_def min_def abs_le_iff)
  have "page_same s ?s"
    using pitch [of "cl_cameraPitch s - dy * c_lookSensitivity CLIENT_CONFIG"]
    by (simp add: page_same_def same_players_def page_ok_def balls_ok_def)
  moreover have "page_same ?s (modify r (\<lambda>m. m\<lparr>pm_rotY := y\<rparr>) ?s)" for y by (simp add: page_same_modify)
  ultimately show ?thesis using page_same_trans by (simp add: mouseMove_def Some Let_def)
qed (simp add: mouseMove_def)

lemma chatKey_same: "page_same s (chatKey key s)"
proof -
  have a: "page_same s (s\<lparr>pg_chatFocus := False\<rparr>)" by (rule page_same_fields; simp add: same_players_def)
  have b: "page_same t (t\<lparr>pg_chatInput := []\<rparr>)" for t by (rule page_same_fields; simp add: same_players_def)
  have c: "page_same s (case cl_localPlayer s of Some r \<Rightarrow> modify r (showChat t) s | None \<Rightarrow> s)" for t
    by (simp add: page_same_modify split: option.split)
  show ?thesis
    using a page_same_trans [OF page_same_trans [OF c page_same_net_steps(5)] b] by (auto simp: chatKey_def Let_def)
qed

lemma startGame_same: "page_same s (startGame name s)"
proof -
  have "page_same (hideLoginOverlay s) ((hideLoginOverlay s)\<lparr>pg_nameDisplay := Some name\<rparr>)"
    by (rule client_same) (simp add: client.truncate_def)
  from page_same_trans [OF page_same_trans [OF shown_same(8) this] page_same_net_steps(8)] show ?thesis
    by (simp add: startGame_def)
qed

lemma login_same: "page_same s (clickStart s)" "page_same s (clickGuest s)" "page_same s (guestKey key s)"
proof -
  show "page_same s (clickStart s)" by (simp add: clickStart_def startGame_same)
  have "page_same s (s\<lparr>pg_savedName := n\<rparr>)" for n by (rule client_same) (simp add: client.truncate_def)
  then show g: "page_same s (clickGuest s)"
    unfolding clickGuest_def Let_def by (rule page_same_trans [OF _ startGame_same])
  then show "page_same s (guestKey key s)" by (simp add: guestKey_def page_same_trans [OF g shown_same(1)])
qed

lemma modelLoaded_same: "page_same s (modelLoaded B p objects s)"
  by (rule page_same_fields; simp add: modelLoaded_def same_players_def split: option.split prod.split)

lemma expire_same: "page_same s (s\<lparr>cl_chatLog := expireChatLine i (cl_chatLog s)\<rparr>)"
proof -
  have "length (snd (expireChatLine i l)) \<le> length (snd l)" for l
    by (simp add: expireChatLine_def case_prod_beta)
  from order_trans [OF this [of "cl_chatLog s"], of 50] show ?thesis
    by (simp add: page_same_def same_players_def page_ok_def balls_ok_def)
qed

lemma destroySnowball_same: "page_same s (destroySnowball b s)"
  by (simp add: page_same_def destroySnowball_ok) (simp add: destroySnowball_def same_players_def)

lemma pageStep_message:
  assumes "players_ok s" "page_ok s"
  shows "players_ok (pageStep B (PeMsg n p msg) s) \<and> page_ok (pageStep B (PeMsg n p msg) s)"
proof -
  let ?t = "fst (handleServerMsg (br_platform B) (br_three B) (sceneryOf B) n p msg s)"
  have "players_ok (showEnvironment B ?t)" "page_ok (showEnvironment B ?t)"
    using players_ok_same [OF _ handleServerMsg_ok [OF assms(1)]] handleServerMsg_page_ok [OF assms(2)] shown_same(7)
    unfolding page_same_def by blast+
  then show ?thesis
    using handleServerMsg_ok [OF assms(1)] handleServerMsg_page_ok [OF assms(2)] by (simp add: Let_def)
qed

lemma pageStep_same:
  assumes "\<And>n p m. e \<noteq> PeMsg n p m" "e \<noteq> PeReload"
  shows "page_same s (pageStep B e s)"
proof (cases e)
  case (PeMsg n p m)
  then show ?thesis using assms by blast
next
  case (PeChatFocus on)
  have "page_same s (s\<lparr>pg_chatFocus := False\<rparr>)" by (rule client_same) (simp add: client.truncate_def)
  then show ?thesis using PeChatFocus by (simp add: shown_same)
next
  case (PeHideChat r)
  then show ?thesis by (simp add: page_same_modify hideChat_def)
next
  case (PeSnowman r meshes)
  then show ?thesis by (simp add: page_same_modify snowmanLoaded_def)
next
  case (PeKeyDown code)
  then show ?thesis using page_same_trans [OF shown_same(1) keyDown_same] by simp
next
  case (PeGuestKey key code)
  then show ?thesis using page_same_trans [OF page_same_trans [OF login_same(3) shown_same(1)] keyDown_same] by simp
next
  case PeStart
  then show ?thesis using page_same_trans [OF login_same(1) shown_same(1)] by simp
next
  case PeGuest
  then show ?thesis using page_same_trans [OF login_same(2) shown_same(1)] by simp
next
  case PeFlashGone
  have "page_same s (s\<lparr>cl_flashes := cl_flashes s - 1\<rparr>)" by (rule page_same_fields; simp add: same_players_def)
  then show ?thesis using PeFlashGone by simp
next
  case PeReload
  then show ?thesis using assms by blast
next
  case (PeGuestInput name)
  then show ?thesis using client_same [of "s\<lparr>pg_guestName := name\<rparr>" s] by (simp add: client.truncate_def)
next
  case (PeChatInput t)
  then show ?thesis using client_same [of "s\<lparr>pg_chatInput := t\<rparr>" s] by (simp add: client.truncate_def)
next
  case (PeAudio b)
  then show ?thesis using client_same [of "s\<lparr>pg_music := (pg_music s)\<lparr>mu_suspended := b\<rparr>\<rparr>" s] by (simp add: client.truncate_def)
qed (simp_all add: page_same_net_steps animate_same keyUp_def pressKey_same mouseDown_same mouseMove_same
    chatKey_same shown_same modelLoaded_same expire_same destroySnowball_same)

lemma start_ok: "players_ok (reload s) \<and> page_ok (reload s)" "players_ok initPage \<and> page_ok initPage"
  by (simp_all add: reload_def initPage_def players_ok_def page_ok_def balls_ok_def map_ok_def map_keys_def)

lemma page_reach_ok: "page_reach B Q s \<Longrightarrow> players_ok s \<and> page_ok s"
proof (induction rule: page_reach.induct)
  case start
  show ?case by (rule start_ok)
next
  case (step s e)
  consider n p m where "e = PeMsg n p m" | "e = PeReload" | "\<And>n p m. e \<noteq> PeMsg n p m" "e \<noteq> PeReload" by blast
  then show ?case
  proof cases
    case 1
    then show ?thesis using pageStep_message step.IH by blast
  next
    case 2
    then show ?thesis using start_ok(1) by simp
  next
    case 3
    then show ?thesis using pageStep_same [of e s B] players_ok_same step.IH unfolding page_same_def by blast
  qed
qed

section \<open>Properties of the page\<close>

text \<open>
  Claim C7 (invariant). Whatever messages of the protocol arrive, in any order, and whatever the player does:
  the tables of players and of snowballs stay consistent with the objects that are drawn, the local
  player is alone under the local identifier, the camera never tilts past 1.5 radians and the chat
  log never holds more than fifty lines.
\<close>

theorem page_tables_consistent:
  assumes "page_reach B Q s"
  shows "players_ok s \<and> balls_ok s \<and> \<bar>cl_cameraPitch s\<bar> \<le> 3 / 2 \<and> length (snd (cl_chatLog s)) \<le> 50"
  using page_reach_ok [OF assms] by (simp add: page_ok_def)

definition ex_boxes :: box_lib where
  "ex_boxes = \<lparr>
     b_size = \<lambda>b. vec (vx (bx_max b) - vx (bx_min b)) (vy (bx_max b) - vy (bx_min b)) (vz (bx_max b) - vz (bx_min b)),
     b_center = \<lambda>b. vec ((vx (bx_min b) + vx (bx_max b)) / 2) ((vy (bx_min b) + vy (bx_max b)) / 2)
        ((vz (bx_min b) + vz (bx_max b)) / 2)\<rparr>"

definition ex_browser :: browser where
  "ex_browser = \<lparr>br_platform = ex_platform JNull, br_three = ex_three, br_boxes = ex_boxes, br_cone = \<lambda>_. [], br_plane = []\<rparr>"

definition joinedPage :: page where
  "joinedPage = pageStep ex_browser (PeOpen 0 0 JNull) (pageStep ex_browser PeGuest initPage)"

definition ex_throw :: server_msg where
  "ex_throw = MsgEvent \<lparr>ev_seq = 1, ev_at = 7, ev_of = EvSnowball (jslit ''s1'') (jslit ''p2'') (vec 0 2 0) (vec 1 0 0) 25\<rparr>"

lemmas page_eval = joinedPage_def initPage_def clickGuest_def startGame_def hideLoginOverlay_def gesture_def connect_def onOpen_def startPingLoop_def
  pingTick_def modNet_def send_def wsIsOpen_def newNetworkManager_def Let_def

lemma joinedPage_open: "wsIsOpen joinedPage" "cl_snowballsById joinedPage = []" "cl_snowballs joinedPage = []"
  by (simp_all add: page_eval)

lemma joinedPage_reach: "page_reach B Q joinedPage"
proof -
  have 1: "page_reach B Q (pageStep B PeGuest initPage)"
    by (rule page_reach.step [OF page_reach.start]) simp_all
  have "page_reach B Q (pageStep B (PeOpen 0 0 JNull) (pageStep B PeGuest initPage))"
    by (rule page_reach.step [OF 1]) (simp_all add: page_eval)
  then show ?thesis by (simp add: joinedPage_def)
qed

theorem page_tables_consistent_witness:
  "map_keys (cl_snowballsById (pageStep ex_browser (PeMsg 0 0 ex_throw) joinedPage)) = [jslit ''s1''] \<and>
   players_ok (pageStep ex_browser (PeMsg 0 0 ex_throw) joinedPage) \<and>
   balls_ok (pageStep ex_browser (PeMsg 0 0 ex_throw) joinedPage)"
proof -
  have "page_reach ex_browser (\<lambda>_. True) (pageStep ex_browser (PeMsg 0 0 ex_throw) joinedPage)"
    by (rule page_reach.step [OF joinedPage_reach]) (simp_all add: joinedPage_open)
  from page_tables_consistent [OF this] show ?thesis
    by (simp add: handleServerMsg_def applyEvent_def ex_throw_def addBall_def joinedPage_open map_has_def
        map_keys_def Let_def)
qed

section \<open>Where the player is reported\<close>

definition insideMap :: "vec3 \<Rightarrow> bool" where
  "insideMap p \<longleftrightarrow> \<bar>vx p\<bar> \<le> 195 \<and> \<bar>vz p\<bar> \<le> 195"

definition model_in :: "player_model \<Rightarrow> bool" where
  "model_in m \<longleftrightarrow> insideMap (pm_pos m) \<and> insideMap (pm_targetPos m)"

text \<open>Every object is inside, every report that was sent was, and so is a snapshot that waits for the welcome.\<close>

definition reports_ok :: "('z) client_scheme \<Rightarrow> bool" where
  "reports_ok s \<longleftrightarrow> (\<forall>m \<in> set (cl_models s). model_in m) \<and>
     (\<forall>p ry v c g. CState p ry v c g \<in> set (cl_sent s) \<longrightarrow> insideMap p) \<and>
     (\<forall>list. nm_pendingSnapshot (cl_net s) = Some list \<longrightarrow> (\<forall>q \<in> set list. insideMap (ps_pos q)))"

lemma not_outside_inside: "\<not> outsideMap p \<Longrightarrow> insideMap p"
  by (auto simp: outsideMap_def insideMap_def CONFIG_def)

lemma insideMap_vec [simp]: "insideMap (vec (vx p) y (vz p)) = insideMap p"
  by (simp add: insideMap_def vec_def)

lemma insideMap_vy [simp]: "insideMap (p\<lparr>vy := y\<rparr>) = insideMap p"
  by (simp add: insideMap_def)

lemma clamp_inside: "three_clamp T \<Longrightarrow> insideMap (vec (t_clamp T x (- 190) 190) y (t_clamp T z (- 190) 190))"
  by (auto simp: insideMap_def three_clamp_def vec_def max_def min_def abs_le_iff)

lemma lerp_abs: "\<bar>a\<bar> \<le> c \<Longrightarrow> \<bar>b\<bar> \<le> c \<Longrightarrow> 0 \<le> k \<Longrightarrow> k \<le> 1 \<Longrightarrow> \<bar>a + (b - a) * k\<bar> \<le> c" for a b c k :: real
proof -
  assume a: "\<bar>a\<bar> \<le> c" "\<bar>b\<bar> \<le> c" "0 \<le> k" "k \<le> 1"
  have "\<bar>a + (b - a) * k\<bar> \<le> \<bar>a * (1 - k)\<bar> + \<bar>b * k\<bar>"
    using abs_triangle_ineq [of "a * (1 - k)" "b * k"] by (simp add: algebra_simps)
  also have "\<dots> \<le> c * (1 - k) + c * k"
    using a mult_right_mono [OF a(1), of "1 - k"] mult_right_mono [OF a(2), of k] by (simp add: abs_mult)
  finally show ?thesis by (simp add: algebra_simps)
qed

lemma lerp_inside: "insideMap p \<Longrightarrow> insideMap q \<Longrightarrow> 0 \<le> k \<Longrightarrow> k \<le> 1 \<Longrightarrow> insideMap (vlerp p q k)"
  by (simp add: insideMap_def vlerp_def lerp_abs)

lemma setRemoteTarget_in: "three_clamp T \<Longrightarrow> model_in m \<Longrightarrow> model_in (setRemoteTarget T pos ry vel c m)"
  using clamp_inside [of T] by (simp add: model_in_def setRemoteTarget_def CLIENT_CONFIG_def Let_def)

lemma labels_in:
  "model_in (updateNameLabel P nm m) = model_in m" "model_in (updatePing n m) = model_in m"
  "model_in (showChat t m) = model_in m" "model_in (hideChat m) = model_in m" "model_in (onHit m) = model_in m"
  "model_in (snowmanLoaded g m) = model_in m"
  by (simp_all add: model_in_def updateNameLabel_def updatePing_def showChat_def hideChat_def onHit_def
      snowmanLoaded_def Let_def)

lemma updatePlayer_in:
  assumes "three_vectors T" "three_clamp T" "0 \<le> dt" "model_in m"
  shows "model_in (fst (updatePlayer T w dt c m y))"
proof -
  let ?k = "1 - exp (- c_remoteLerp CLIENT_CONFIG * dt)"
  have "0 \<le> ?k" "?k \<le> 1" using assms(3) by (simp_all add: CLIENT_CONFIG_def)
  then have remote: "insideMap (pm_pos (remoteStep T dt m))" if "model_in m" for m
    using that assms(1) lerp_inside by (simp add: remoteStep_def model_in_def three_vectors_def Let_def)
  have "insideMap (fst (landing w (clampToMap T p) v g))" for p v g
    using clampToMap_bound [OF assms(2), of p] by (simp add: landing_def insideMap_def Let_def)
  then have local: "insideMap (pm_pos (fst (localStep T w dt m y)))" for m
    by (simp add: localStep_def case_prod_beta Let_def)
  have r: "model_in (m\<lparr>pm_rotX := x\<rparr>)" for x using assms(4) by (simp add: model_in_def)
  show ?thesis
    using assms(4) remote [OF r] local
    by (simp add: updatePlayer_def case_prod_beta frame_identity model_in_def Let_def)
qed

text \<open>The changes of a state.\<close>

lemma reports_ok_modify:
  assumes "reports_ok s" "\<And>m. model_in m \<Longrightarrow> model_in (f m)"
  shows "reports_ok (modify r f s)"
proof (cases "r < length (cl_models s)")
  case True
  then have "model_in (f (cl_models s ! r))" using assms by (simp add: reports_ok_def)
  then show ?thesis
    using assms(1) set_update_subset_insert [of "cl_models s" r]
    by (auto simp: reports_ok_def modify_def model_def)
next
  case False
  then show ?thesis using assms(1) by (simp add: modify_def list_update_beyond)
qed

lemma reports_ok_fields:
  "cl_models t = cl_models s \<Longrightarrow> cl_sent t = cl_sent s \<Longrightarrow>
   nm_pendingSnapshot (cl_net t) = nm_pendingSnapshot (cl_net s) \<Longrightarrow> reports_ok t = reports_ok s"
  by (simp add: reports_ok_def)

lemma reports_ok_updates [simp]:
  "reports_ok (s\<lparr>cl_hpUI := u\<rparr>) = reports_ok s" "reports_ok (s\<lparr>cl_deadUI := b\<rparr>) = reports_ok s"
  "reports_ok (s\<lparr>cl_alert := a\<rparr>) = reports_ok s" "reports_ok (s\<lparr>cl_localPlayer := l\<rparr>) = reports_ok s"
  "reports_ok (s\<lparr>cl_localPlayerId := i\<rparr>) = reports_ok s" "reports_ok (s\<lparr>cl_worldSeed := w\<rparr>) = reports_ok s"
  "reports_ok (s\<lparr>cl_cameraYaw := y\<rparr>) = reports_ok s" "reports_ok (s\<lparr>cl_hpUI := u, cl_flashes := fl\<rparr>) = reports_ok s"
  "reports_ok (logChat line s) = reports_ok s" "reports_ok (addBall T bid o' d w' s) = reports_ok s"
  "reports_ok (removePlayer k s) = reports_ok s" "reports_ok (ensureEnvironment build s) = reports_ok s"
  "reports_ok (destroySnowball b' s) = reports_ok s"
  by (simp_all add: reports_ok_def logChat_def addBall_def removePlayer_def ensureEnvironment_def destroySnowball_def
      Let_def split: option.split)

lemma reports_ok_send: "reports_ok (send m s) \<longleftrightarrow> reports_ok s \<and> (\<forall>p ry v c g. m = CState p ry v c g \<longrightarrow> insideMap p)"
  by (simp add: reports_ok_def send_def) blast

lemma reports_ok_net: "(\<And>n. nm_pendingSnapshot (g n) = nm_pendingSnapshot n) \<Longrightarrow> reports_ok (modNet g s) = reports_ok s"
  by (simp add: reports_ok_def modNet_def)

lemma pingLabel_in: "reports_ok s \<Longrightarrow> reports_ok (pingLabel p r s)"
  by (auto simp: pingLabel_def labels_in split: option.split intro: reports_ok_modify)

lemma newPlayerModel_in: "newPlayerModel P w pid pos name rem = Inr m \<Longrightarrow> insideMap pos \<Longrightarrow> model_in m"
  by (auto simp: newPlayerModel_def ebind_def model_in_def Let_def split: sum.splits)

lemma add_in:
  "reports_ok s \<Longrightarrow> insideMap pos \<Longrightarrow> reports_ok (fst (addRemote P pid pos name s))"
  "reports_ok s \<Longrightarrow> insideMap (ps_pos snap) \<Longrightarrow> reports_ok (fst (createLocalPlayer P snap s))"
  using newPlayerModel_in [of P "of_int (cl_worldSeed s)" pid pos name True]
    newPlayerModel_in [of P "of_int (cl_worldSeed s)" "ps_id snap" "ps_pos snap" "ps_name snap" False]
  by (auto simp: addRemote_def createLocalPlayer_def reports_ok_def model_in_def Let_def split: sum.split)

lemma snapLocal_in:
  assumes "reports_ok s" "insideMap (ps_pos snap)"
  shows "reports_ok (fst (snapLocal P snap s))"
proof -
  obtain s1 e1 where 1: "(if cl_localPlayer s = None then createLocalPlayer P snap s else (s, None)) = (s1, e1)"
    by (metis surj_pair)
  have "reports_ok s1" using add_in(2) [OF assms, of P] assms(1) 1 by (auto split: if_splits)
  moreover from this have "reports_ok (modify r (\<lambda>m. m\<lparr>pm_health := h, pm_lastHpAt := t\<rparr>) s1)" for r h t
    by (rule reports_ok_modify) (simp add: model_in_def)
  ultimately show ?thesis by (auto simp: snapLocal_def 1 Let_def split: option.split intro!: pingLabel_in)
qed

lemma snapRemote_in:
  assumes "three_clamp T" "reports_ok s" "insideMap (ps_pos snap)"
  shows "reports_ok (fst (snapRemote P T snap s))"
proof -
  obtain s1 e1 where 1: "(if map_get (cl_playersById s) (ps_id snap) = None
      then addRemote P (ps_id snap) (ps_pos snap) (ps_name snap) s else (s, None)) = (s1, e1)"
    by (metis surj_pair)
  have "reports_ok s1"
    using add_in(1) [OF assms(2,3), of P "ps_id snap" "ps_name snap"] assms(2) 1 by (auto split: if_splits)
  moreover from this have "reports_ok (modify r (updateNameLabel P nm) (modify r (setRemoteTarget T a b c d) s1))" for r nm a b c d
    by (intro reports_ok_modify) (simp_all add: labels_in setRemoteTarget_in [OF assms(1)])
  ultimately show ?thesis by (auto simp: snapRemote_def 1 Let_def split: option.split intro!: pingLabel_in)
qed

lemma snapLoop_in:
  assumes "three_clamp T"
  shows "reports_ok s \<Longrightarrow> \<forall>q \<in> set list. insideMap (ps_pos q) \<Longrightarrow> reports_ok (fst (snd (snapLoop P T list ids s)))"
proof (induction list arbitrary: ids s)
  case (Cons snap list)
  obtain s1 e1 where 1: "(if Some (ps_id snap) = cl_localPlayerId s then snapLocal P snap s else snapRemote P T snap s) =
      (s1, e1)" by (metis surj_pair)
  then have "reports_ok s1"
    using snapLocal_in [of s snap P] snapRemote_in [OF assms, of s snap P] Cons.prems by (auto split: if_splits)
  then show ?case using 1 Cons.prems by (cases e1) (auto intro: Cons.IH)
qed simp

lemma sweep_in [simp]: "reports_ok (sweep ids ks s) = reports_ok s"
  unfolding sweep_def by (induction ks arbitrary: s) auto

lemma applySnapshot_in:
  assumes "three_clamp T" "reports_ok s" "\<forall>q \<in> set list. insideMap (ps_pos q)"
  shows "reports_ok (fst (applySnapshot P T list s))"
proof -
  obtain ids s1 e where 1: "snapLoop P T list [] s = (ids, s1, e)" by (metis surj_pair)
  then have "reports_ok s1" using snapLoop_in [OF assms, of P "[]"] by simp
  then show ?thesis by (cases e) (auto simp: applySnapshot_eq 1)
qed

lemma statesLoop_in:
  assumes "three_clamp T"
  shows "reports_ok s \<Longrightarrow> \<forall>q \<in> set list. insideMap (pn_pos q) \<Longrightarrow> reports_ok (fst (statesLoop P T list s))"
proof (induction list arbitrary: s)
  case (Cons st list)
  obtain s1 e1 where 1: "applyState P T st s = (s1, e1)" by (metis surj_pair)
  obtain s2 e2 where 2: "(if map_get (cl_playersById s) (pn_id st) = None
      then addRemote P (pn_id st) (pn_pos st) (JStr (jslit ''Player'')) s else (s, None)) = (s2, e2)"
    by (metis surj_pair)
  have "reports_ok s2"
    using 2 add_in(1) [of s "pn_pos st" P "pn_id st" "JStr (jslit ''Player'')"] Cons.prems by (auto split: if_splits)
  moreover from this have "reports_ok (modify r (setRemoteTarget T a b c d) s2)" for r a b c d
    by (rule reports_ok_modify) (rule setRemoteTarget_in [OF assms])
  ultimately have "reports_ok s1"
    using 1 2 Cons.prems(1) by (auto simp: applyState_def Let_def split: if_splits option.splits)
  then show ?case using 1 Cons.IH [of s1] Cons.prems by (cases e1) auto
qed simp

lemma applyEvent_in:
  assumes "three_clamp T" "reports_ok s" "ev_ok (ev_of ev)"
  shows "reports_ok (fst (applyEvent P T now ev s))"
proof -
  note upd = reports_ok_modify [OF assms(2)]
  show ?thesis
  proof (cases "ev_of ev")
    case (EvJoin p)
    then have "insideMap (ps_pos p)" using assms(3) not_outside_inside by (simp add: join_ok_def snap_ok_def)
    then show ?thesis
      using EvJoin assms(2) add_in [OF assms(2)] by (simp add: applyEvent_def)
  next
    case (EvChat k n tx)
    have "reports_ok (modify r (showChat tx) s)" for r by (rule upd) (simp add: labels_in)
    then show ?thesis using EvChat assms(2) by (simp add: applyEvent_def split: option.split)
  next
    case (EvState k pos rotY vel cr)
    have "reports_ok (modify r (setRemoteTarget T pos rotY vel cr) s)" for r
      by (rule upd) (rule setRemoteTarget_in [OF assms(1)])
    then show ?thesis using EvState assms(2) by (simp add: applyEvent_def split: option.split)
  next
    case (EvHit a v i hp sh)
    have h: "reports_ok (modify r (\<lambda>m. m\<lparr>pm_dead := d\<rparr>) t)" "reports_ok (modify r onHit t)"
      "reports_ok (modify r (\<lambda>m. (applyKnockback i m)\<lparr>pm_health := x, pm_lastHpAt := y\<rparr>) t)"
      if "reports_ok t" for r x y d and t :: "'a client_scheme"
      using that by (auto intro!: reports_ok_modify simp: labels_in) (simp_all add: model_in_def applyKnockback_def Let_def)
    show ?thesis using EvHit assms(2) by (auto simp: applyEvent_def Let_def intro!: h split: option.split)
  next
    case (EvRename k nm)
    have "reports_ok (modify r (updateNameLabel P (JStr nm)) s)" for r by (rule upd) (simp add: labels_in)
    then show ?thesis using EvRename assms(2) by (simp add: applyEvent_def split: option.split)
  next
    case (EvDeath v vn a an sh t)
    have "reports_ok (modify r (\<lambda>m. m\<lparr>pm_dead := True\<rparr>) s)" for r by (rule upd) (simp add: model_in_def)
    then show ?thesis using EvDeath assms(2) by (simp add: applyEvent_def Let_def split: option.split)
  next
    case (EvRespawn k pos hp)
    have "insideMap pos" using assms(3) EvRespawn not_outside_inside by simp
    then have "reports_ok (modify r (\<lambda>m. m\<lparr>pm_dead := False, pm_health := hp, pm_visible := True,
        pm_pos := vec (vx pos) (vy pos) (vz pos)\<rparr>) s)" for r
      by (intro upd) (simp add: model_in_def)
    then show ?thesis using EvRespawn assms(2) by (simp add: applyEvent_def Let_def split: option.split)
  qed (use assms(2) in \<open>simp_all add: applyEvent_def\<close>)
qed

lemma onWelcome_in:
  assumes "three_clamp T" "reports_ok s"
  shows "reports_ok (fst (onWelcome P T build pid seed s))"
proof -
  define s1 where "s1 = (case cl_localPlayer s of
      Some r \<Rightarrow> if pm_id (model s r) \<noteq> pid then (removePlayer (pm_id (model s r)) s)\<lparr>cl_localPlayer := None\<rparr> else s
    | None \<Rightarrow> s)"
  define s2 where "s2 = ensureEnvironment build (s1\<lparr>cl_localPlayerId := Some pid, cl_worldSeed := seed\<rparr>)"
  have "reports_ok s1" using assms(2) by (simp add: s1_def split: option.split)
  then have 2: "reports_ok s2" unfolding s2_def by simp
  show ?thesis
  proof (cases "nm_pendingSnapshot (cl_net s2)")
    case None
    then show ?thesis using 2 by (simp add: onWelcome_def s1_def [symmetric] s2_def Let_def)
  next
    case (Some list)
    obtain s3 e where 3: "applySnapshot P T list s2 = (s3, e)" by (metis surj_pair)
    have "\<forall>q \<in> set list. insideMap (ps_pos q)" using 2 Some unfolding reports_ok_def by blast
    from applySnapshot_in [OF assms(1) 2 this, of P] 3 have "reports_ok s3" by simp
    moreover from this have "reports_ok (modNet (\<lambda>n. n\<lparr>nm_pendingSnapshot := None\<rparr>) s3)"
      by (simp add: reports_ok_def modNet_def)
    ultimately show ?thesis
      using Some 3 by (cases e) (simp_all add: onWelcome_def s1_def [symmetric] s2_def [symmetric] Let_def)
  qed
qed

lemma wire_inside: "snap_ok k q \<Longrightarrow> insideMap (ps_pos q)" "pend_ok k r \<Longrightarrow> insideMap (pn_pos r)"
  by (simp_all add: snap_ok_def pend_ok_def not_outside_inside)

lemma reports_ok_pending:
  "reports_ok s \<Longrightarrow> \<forall>q \<in> set list. insideMap (ps_pos q) \<Longrightarrow>
   reports_ok (modNet (\<lambda>n. n\<lparr>nm_pendingSnapshot := Some list\<rparr>) s)"
  by (simp add: reports_ok_def modNet_def)

lemma handleServerMsg_in:
  assumes "three_clamp T" "reports_ok s" "msg_ok msg"
  shows "reports_ok (fst (handleServerMsg P T build now perf msg s))"
proof (cases msg)
  case (MsgSnapshot w list n)
  then have i: "\<forall>q \<in> set list. insideMap (ps_pos q)" using assms(3) by (auto intro: wire_inside)
  from applySnapshot_in [OF assms(1,2) i] reports_ok_pending [OF assms(2) i] show ?thesis
    using MsgSnapshot by (simp add: handleServerMsg_def)
next
  case (MsgStates tm list)
  then have "\<forall>q \<in> set list. insideMap (pn_pos q)" using assms(3) by (auto intro: wire_inside)
  from statesLoop_in [OF assms(1,2) this] show ?thesis using MsgStates by (simp add: handleServerMsg_def)
next
  case (MsgEvent ev)
  then have "ev_ok (ev_of ev)" using assms(3) by simp
  from applyEvent_in [OF assms(1,2) this] show ?thesis using MsgEvent by (simp add: handleServerMsg_def)
next
  case (MsgWelcome pid w n' seed)
  then show ?thesis using onWelcome_in [OF assms(1,2)] by (simp add: handleServerMsg_def)
qed (use assms(2) in \<open>simp_all add: handleServerMsg_def onPong_def reports_ok_net Let_def\<close>)

text \<open>Frames and input.\<close>

lemma modify_const_in: "reports_ok s \<Longrightarrow> (model_in (model s r) \<Longrightarrow> model_in m) \<Longrightarrow> reports_ok (modify r (\<lambda>_. m) s)"
  using set_update_subset_insert [of "cl_models s" r m]
  by (cases "r < length (cl_models s)") (auto simp: reports_ok_def modify_def model_def list_update_beyond)

lemma stepPlayers_in:
  assumes "three_vectors (br_three B)" "three_clamp (br_three B)" "0 \<le> dt"
  shows "reports_ok s \<Longrightarrow> reports_ok (foldl (stepPlayer B dt c) s rs)"
proof (induction rs arbitrary: s)
  case (Cons r rs)
  have "reports_ok (stepPlayer B dt c s r)"
    using modify_const_in [OF Cons.prems updatePlayer_in [OF assms]]
    by (simp add: stepPlayer_def case_prod_beta)
  then show ?case by (simp add: Cons.IH)
qed simp

lemma maybeSend_in:
  assumes "players_ok s" "reports_ok s"
  shows "reports_ok (maybeSendLocalState p s)"
proof (cases "cl_localPlayer s")
  case (Some r)
  then have "insideMap (pm_pos (model s r))"
    using assms by (simp add: players_ok_def reports_ok_def model_in_def model_def)
  then show ?thesis
    using assms(2) Some
    by (simp add: maybeSendLocalState_def reports_ok_send reports_ok_net Let_def) (simp add: model_def modNet_def)
qed (simp add: maybeSendLocalState_def assms)

lemma animate_in:
  assumes "three_vectors (br_three B)" "three_clamp (br_three B)" "0 \<le> delta" "players_ok s" "reports_ok s"
  shows "reports_ok (animate B delta tm c p s)"
proof -
  let ?dt = "min delta (1 / 10)"
  define s1 where "s1 = foldl (stepPlayer B ?dt c) s (cl_players s)"
  define s2 where "s2 = ballLoop B ?dt (length (cl_snowballs s1)) s1"
  define s3 where "s3 = maybeSendLocalState p s2"
  have "same_players s s1" using stepPlayers_same unfolding s1_def page_same_def by blast
  then have ok: "players_ok s2" unfolding s2_def
    using players_ok_same [OF _ assms(4)] ballLoop_same(1) same_players_trans by blast
  have "reports_ok s1" unfolding s1_def by (rule stepPlayers_in) (use assms in simp_all)
  moreover have "cl_net s2 = cl_net s1" unfolding s2_def by (rule ballLoop_net)
  ultimately have "reports_ok s2" by (simp add: s2_def reports_ok_def ballLoop_same)
  then have "reports_ok s3" unfolding s3_def by (rule maybeSend_in [OF ok])
  then have 4: "reports_ok (updateMusicVolume B s3)"
    by (simp add: updateMusicVolume_def reports_ok_def split: option.split)
  have "reports_ok (updateCamera B t)" if "reports_ok t" for t
  proof (cases "cl_localPlayer t")
    case (Some r)
    have "reports_ok (modify r (\<lambda>m. m\<lparr>pm_visible := b\<rparr>) (t\<lparr>pg_camera := v, pg_lookAt := l\<rparr>))" for b v l
      by (rule reports_ok_modify) (use that in \<open>simp_all add: reports_ok_def model_in_def\<close>)
    then show ?thesis by (simp add: updateCamera_def Some Let_def)
  qed (simp add: updateCamera_def that)
  from this [OF 4] show ?thesis
    by (simp add: animate_def s1_def s2_def s3_def reports_ok_def Let_def)
qed

text \<open>What is shown around the game does not matter for the reports.\<close>

lemma client_same_in: "client.truncate t = client.truncate s \<Longrightarrow> reports_ok s \<Longrightarrow> reports_ok t"
  by (simp add: client.truncate_def reports_ok_def)

lemmas shown_in = shown_only [THEN client_same_in]

lemma start_in: "reports_ok (reload s)" "reports_ok initPage"
  by (simp_all add: reload_def initPage_def reports_ok_def newNetworkManager_def)

lemma keyDown_in: "reports_ok s \<Longrightarrow> reports_ok (keyDown code s)"
proof -
  assume s: "reports_ok s"
  have "reports_ok (pressKey code True s)"
    using s by (auto simp: pressKey_def model_in_def split: option.split intro!: reports_ok_modify)
  moreover have "reports_ok (s\<lparr>pg_uiHidden := a\<rparr>)" "reports_ok (s\<lparr>pg_thirdPerson := a\<rparr>)" for a
    using s by (simp_all add: reports_ok_def)
  ultimately show ?thesis using s by (simp add: keyDown_def shown_in)
qed

lemma login_in:
  "reports_ok s \<Longrightarrow> reports_ok (clickStart s)" "reports_ok s \<Longrightarrow> reports_ok (clickGuest s)" "reports_ok s \<Longrightarrow> reports_ok (guestKey key s)"
proof -
  have g: "reports_ok (startGame name t)" if "reports_ok t" for name t
    using that by (simp add: startGame_def hideLoginOverlay_def connect_def modNet_def reports_ok_def Let_def)
  assume s: "reports_ok s"
  show "reports_ok (clickStart s)" using s g by (simp add: clickStart_def)
  have "reports_ok (s\<lparr>pg_savedName := n\<rparr>)" for n using s by (simp add: reports_ok_def)
  then show c: "reports_ok (clickGuest s)" unfolding clickGuest_def Let_def by (rule g)
  then show "reports_ok (guestKey key s)" using s by (simp add: guestKey_def shown_in(1))
qed

lemma pageStep_in:
  assumes "three_vectors (br_three B)" "three_clamp (br_three B)" "players_ok s" "reports_ok s" "possible e s"
    "\<And>n p m. e = PeMsg n p m \<Longrightarrow> msg_ok m"
  shows "reports_ok (pageStep B e s)"
proof (cases e)
  case (PeMsg n p m)
  then show ?thesis
    using handleServerMsg_in [OF assms(2,4) assms(6) [OF PeMsg], of "br_platform B" "sceneryOf B" n p]
    by (simp add: Let_def shown_in(7))
next
  case (PeFrame d tm c p)
  then show ?thesis using animate_in [OF assms(1,2) _ assms(3,4)] assms(5) by simp
next
  case (PeMouseDown n p k b)
  show ?thesis
  proof (cases "cl_localPlayer s")
    case (Some r)
    have "reports_ok (throwLocal B n p k r s)"
    proof (cases "throwSnowball (br_three B) p (cl_cameraPitch s) (model s r)")
      case (Some q)
      obtain m o' d where q: "q = (m, o', d)" by (cases q)
      have "reports_ok (modify r (\<lambda>_. m) s)"
        using throwSnowball_identity [OF Some [unfolded q]]
        by (intro modify_const_in [OF assms(4)]) (simp add: model_in_def)
      then show ?thesis by (simp add: throwLocal_def Some q sendSnowball_def reports_ok_send Let_def)
    qed (simp add: throwLocal_def assms(4))
    then show ?thesis using PeMouseDown Some assms(4) by (simp add: mouseDown_def) (simp add: reports_ok_def)
  next
    case None
    then show ?thesis using PeMouseDown assms(4) by (simp add: mouseDown_def reports_ok_def)
  qed
next
  case (PeMouseMove dx dy)
  have "reports_ok (modify r (\<lambda>m. m\<lparr>pm_rotY := y\<rparr>) (s\<lparr>cl_cameraYaw := a, cl_cameraPitch := b\<rparr>))" for r y a b
    by (rule reports_ok_modify) (use assms(4) in \<open>simp_all add: reports_ok_def model_in_def\<close>)
  then show ?thesis
    using PeMouseMove assms(4) by (auto simp: mouseMove_def Let_def split: option.split) (simp add: reports_ok_def)+
next
  case (PeChatKey key)
  have m: "reports_ok (case cl_localPlayer s of Some r \<Rightarrow> modify r (showChat t) s | None \<Rightarrow> s)" for t
    using assms(4) by (auto split: option.split intro!: reports_ok_modify simp: labels_in)
  have "reports_ok ((sendChat t u)\<lparr>pg_chatInput := []\<rparr>)" if "reports_ok u" for t u
    using that by (simp add: sendChat_def send_def reports_ok_def)
  from this [OF m] show ?thesis
    using PeChatKey assms(4) by (auto simp: chatKey_def Let_def reports_ok_def)
next
  case (PeHideChat r)
  then show ?thesis using assms(4) by (auto intro!: reports_ok_modify simp: labels_in)
next
  case (PeSnowman r meshes)
  then show ?thesis using assms(4) by (auto intro!: reports_ok_modify simp: labels_in)
next
  case (PeKeyDown code)
  then show ?thesis using keyDown_in [OF shown_in(1) [OF assms(4)]] by simp
next
  case (PeGuestKey key code)
  then show ?thesis using keyDown_in [OF shown_in(1) [OF login_in(3) [OF assms(4)]]] by simp
next
  case PeStart
  then show ?thesis using shown_in(1) [OF login_in(1) [OF assms(4)]] by simp
next
  case PeGuest
  then show ?thesis using shown_in(1) [OF login_in(2) [OF assms(4)]] by simp
next
  case PeReload
  then show ?thesis using start_in by simp
next
  case (PeLoaded q objects)
  then show ?thesis using assms(4) by (simp add: modelLoaded_def reports_ok_def split: option.split prod.split)
next
  case (PeKeyUp code)
  then show ?thesis
    using assms(4) by (auto simp: keyUp_def pressKey_def model_in_def split: option.split intro!: reports_ok_modify)
next
  case (PeChatFocus on)
  have "reports_ok (s\<lparr>pg_chatFocus := False\<rparr>)" using assms(4) by (simp add: reports_ok_def)
  then show ?thesis using PeChatFocus shown_in(2) [OF assms(4)] by simp
qed (simp_all add: shown_in [OF assms(4)],
    (use assms(4) in \<open>simp add: reports_ok_def onOpen_def onCloseWs_def reconnectFires_def pingTick_def
       startPingLoop_def scheduleReconnect_def connect_def modNet_def send_def Let_def\<close>)+)

text \<open>
  A page that receives only well-formed messages never reports a position outside the horizontal
  bounds of the server, whatever the keys, the frame times and the knocks are.
\<close>

lemma page_reports_ok:
  assumes "three_vectors (br_three B)" "three_clamp (br_three B)"
  shows "page_reach B msg_ok s \<Longrightarrow> reports_ok s"
proof (induction rule: page_reach.induct)
  case start
  show ?case by (rule start_in)
next
  case (step s e)
  have "players_ok s" using page_reach_ok [OF step.hyps(1)] by simp
  from pageStep_in [OF assms this step.IH step.hyps(2,3)] show ?case .
qed

lemma page_reach_mono:
  assumes "\<And>m. Q m \<Longrightarrow> R m"
  shows "page_reach B Q s \<Longrightarrow> page_reach B R s"
proof (induction rule: page_reach.induct)
  case start
  show ?case by (rule page_reach.start)
next
  case (step s e)
  show ?case by (rule page_reach.step [OF step.IH step.hyps(2)]) (use step.hyps(3) assms in blast)
qed

lemma animate_sends:
  assumes "cl_localPlayer s = Some r" "wsIsOpen s" "nm_lastStateSend (cl_net s) + 1000 \<le> p"
  shows "\<exists>q ry v c g. CState q ry v c g \<in> set (cl_sent (animate B delta tm ms p s))"
proof -
  let ?dt = "min delta (1 / 10)"
  define s1 where "s1 = foldl (stepPlayer B ?dt ms) s (cl_players s)"
  define s2 where "s2 = ballLoop B ?dt (length (cl_snowballs s1)) s1"
  have "cl_net (foldl (stepPlayer B ?dt ms) t rs) = cl_net t" for t rs
    by (induction rs arbitrary: t) (simp_all add: stepPlayer_def modify_def case_prod_beta)
  then have n: "cl_net s2 = cl_net s" by (simp add: s2_def ballLoop_net s1_def)
  have "cl_localPlayer s1 = Some r"
    using stepPlayers_same [of s B ?dt ms "cl_players s"] assms(1) by (simp add: s1_def page_same_def same_players_def)
  then have l: "cl_localPlayer s2 = Some r"
    using ballLoop_same(1) [of s1 B ?dt "length (cl_snowballs s1)"] by (simp add: s2_def same_players_def)
  have "\<exists>q ry v c g. CState q ry v c g \<in> set (cl_sent (maybeSendLocalState p s2))"
    using n l assms(2,3) by (simp add: maybeSendLocalState_def wsIsOpen_def send_def Let_def CLIENT_CONFIG_def) blast
  moreover have "cl_sent (animate B delta tm ms p s) = cl_sent (maybeSendLocalState p s2)"
    by (simp add: animate_def s2_def s1_def updateCamera_def updateMusicVolume_def modify_def Let_def split: option.split)
  ultimately show ?thesis by simp
qed

lemma message_fields:
  "cl_localPlayer (pageStep B (PeMsg n p m) s) =
     cl_localPlayer (fst (handleServerMsg (br_platform B) (br_three B) (sceneryOf B) n p m s))"
  "cl_net (pageStep B (PeMsg n p m) s) =
     cl_net (fst (handleServerMsg (br_platform B) (br_three B) (sceneryOf B) n p m s))"
  by (simp_all add: showEnvironment_def Let_def)

section \<open>A frame of the snowballs\<close>

text \<open>The state of a ball after a frame.\<close>

definition movedBall :: "browser \<Rightarrow> real \<Rightarrow> page \<Rightarrow> nat \<Rightarrow> snowball" where
  "movedBall B dt s b =
     updateSnowball (br_three B) (of_int (cl_worldSeed s)) (cl_obstacles s) dt (cl_balls s ! b)"

lemma ballTurn_fields:
  assumes "i < length (cl_snowballs s)" "cl_snowballs s ! i < length (cl_balls s)"
  shows "cl_balls (ballTurn B dt i s) = (cl_balls s)[cl_snowballs s ! i := movedBall B dt s (cl_snowballs s ! i)]"
    "cl_snowballs (ballTurn B dt i s) = take i (cl_snowballs s) @
       (if sb_active (movedBall B dt s (cl_snowballs s ! i)) then [cl_snowballs s ! i] else []) @
       drop (Suc i) (cl_snowballs s)"
    "cl_worldSeed (ballTurn B dt i s) = cl_worldSeed s" "cl_obstacles (ballTurn B dt i s) = cl_obstacles s"
  using assms id_take_nth_drop [OF assms(1)]
  by (auto simp: ballTurn_def stepBall_def movedBall_def Let_def)

lemma ballLoop_result:
  assumes "distinct (cl_snowballs s)" "\<forall>b \<in> set (cl_snowballs s). b < length (cl_balls s)" "n \<le> length (cl_snowballs s)"
  shows "(\<forall>b. cl_balls (ballLoop B dt n s) ! b =
      (if b \<in> set (take n (cl_snowballs s)) then movedBall B dt s b else cl_balls s ! b)) \<and>
    cl_snowballs (ballLoop B dt n s) =
      filter (\<lambda>b. sb_active (movedBall B dt s b)) (take n (cl_snowballs s)) @ drop n (cl_snowballs s)"
  using assms
proof (induction n arbitrary: s)
  case (Suc i)
  let ?xs = "cl_snowballs s"
  let ?b = "?xs ! i"
  let ?t = "ballTurn B dt i s"
  have i: "i < length ?xs" "?b < length (cl_balls s)" using Suc.prems by auto
  note t = ballTurn_fields [OF i, of B dt]
  have take: "take (Suc i) ?xs = take i ?xs @ [?b]" by (simp add: take_Suc_conv_app_nth i(1))
  have new: "?b \<notin> set (take i ?xs)"
    using Suc.prems(1) i(1) distinct_take [of ?xs "Suc i"] unfolding take by simp
  have "distinct (cl_snowballs ?t)" "\<forall>b \<in> set (cl_snowballs ?t). b < length (cl_balls ?t)" "i \<le> length (cl_snowballs ?t)"
  proof -
    have e: "?xs = take i ?xs @ ?b # drop (Suc i) ?xs" using i(1) by (rule id_take_nth_drop)
    have d: "distinct (take i ?xs @ ?b # drop (Suc i) ?xs)" using Suc.prems(1) e by metis
    then show "distinct (cl_snowballs ?t)" by (auto simp: t)
    have "set (cl_snowballs ?t) \<subseteq> set ?xs" using i(1) by (auto simp: t dest: in_set_takeD in_set_dropD)
    then show "\<forall>b \<in> set (cl_snowballs ?t). b < length (cl_balls ?t)" using Suc.prems(2) by (auto simp: t)
    show "i \<le> length (cl_snowballs ?t)" using i(1) by (simp add: t)
  qed
  note IH = Suc.IH [OF this]
  have tt: "take i (cl_snowballs ?t) = take i ?xs"
    "drop i (cl_snowballs ?t) = (if sb_active (movedBall B dt s ?b) then [?b] else []) @ drop (Suc i) ?xs"
    using i(1) by (simp_all add: t)
  have moved: "movedBall B dt ?t b = movedBall B dt s b" if "b \<in> set (take i ?xs)" for b
    using that new by (auto simp: movedBall_def t nth_update_any)
  have "filter (\<lambda>b. sb_active (movedBall B dt ?t b)) (take i ?xs) = filter (\<lambda>b. sb_active (movedBall B dt s b)) (take i ?xs)"
    using moved by (intro filter_cong) simp_all
  moreover have "cl_balls ?t ! b = (if b = ?b then movedBall B dt s ?b else cl_balls s ! b)" for b
    using i(2) by (auto simp: t nth_update_any)
  ultimately show ?case
    using IH moved new unfolding tt ballLoop_turn take by auto
qed simp

text \<open>
  Claim C15 (equivalence). The backwards loop of a frame over the snowballs, which removes elements
  while it runs, is the plain reference: every drawn ball is moved exactly once from its state before
  the frame, no other ball is touched, and the balls still drawn are those that are active after
  their move, in their old order.
\<close>

theorem ball_loop_moves_each_once:
  assumes "page_reach B Q s"
  shows "cl_snowballs (ballLoop B dt (length (cl_snowballs s)) s) =
      filter (\<lambda>b. sb_active (movedBall B dt s b)) (cl_snowballs s) \<and>
    cl_balls (ballLoop B dt (length (cl_snowballs s)) s) ! b =
      (if b \<in> set (cl_snowballs s) then movedBall B dt s b else cl_balls s ! b)"
proof -
  have "balls_ok s" using page_reach_ok [OF assms] by (simp add: page_ok_def)
  then show ?thesis
    using ballLoop_result [of s "length (cl_snowballs s)" B dt] by (simp add: balls_ok_def)
qed

theorem ball_loop_moves_each_once_witness:
  "cl_snowballs (ballLoop ex_browser 1 1 (pageStep ex_browser (PeMsg 0 0 ex_throw) joinedPage)) =
     filter (\<lambda>b. sb_active (movedBall ex_browser 1 (pageStep ex_browser (PeMsg 0 0 ex_throw) joinedPage) b)) [0]"
proof -
  let ?s = "pageStep ex_browser (PeMsg 0 0 ex_throw) joinedPage"
  have "page_reach ex_browser (\<lambda>_. True) ?s"
    by (rule page_reach.step [OF joinedPage_reach]) (simp_all add: joinedPage_open)
  moreover have "cl_snowballs ?s = [0]"
    by (simp add: handleServerMsg_def applyEvent_def ex_throw_def addBall_def joinedPage_open map_has_def Let_def)
      (simp add: page_eval)
  ultimately show ?thesis using ball_loop_moves_each_once [of ex_browser "\<lambda>_. True" ?s 1] by simp
qed

text \<open>The music is never silent and never above full volume.\<close>

lemma volumeAt_bounds: "0 \<le> d \<Longrightarrow> 5 / 100 \<le> volumeAt d \<and> volumeAt d \<le> 1"
  by (auto simp: volumeAt_def Let_def powr_le_one_le powr_def)

section \<open>The status line\<close>

text \<open>
  What the status line says of the connection: nothing was tried, a socket is being opened, it is
  open, with the round trip time or the error that the server sent, or it is closed; then a retry or
  the reload of the page is pending, and the line says which.
\<close>

definition status_ok :: "net \<Rightarrow> bool" where
  "status_ok n \<longleftrightarrow> nm_connectAttempts n \<le> 3 \<and>
     (case nm_ws n of
        None \<Rightarrow> nm_status n = notConnectedText
      | Some WsConnecting \<Rightarrow> nm_status n = connectingText
      | Some WsOpen \<Rightarrow> nm_status n = connectedText \<or> (\<exists>ms. nm_status n = pingText ms) \<or> (\<exists>m. nm_status n = errorText m)
      | Some WsClosed \<Rightarrow>
          nm_reloadTimer n \<and> nm_status n = gaveUpText \<or>
          nm_reconnectTimer n \<and> nm_status n = retryText (nm_connectAttempts n))"

lemma status_ok_view: "netView m = netView n \<Longrightarrow> status_ok n \<Longrightarrow> status_ok m"
  by (simp add: netView_def status_ok_def split: option.splits ws_state.splits)

lemma cl_net_simps [simp]:
  "cl_net (modify r f s) = cl_net s" "cl_net (logChat line s) = cl_net s" "cl_net (addBall T b o' d w s) = cl_net s"
  "cl_net (destroySnowball b' s) = cl_net s" "cl_net (fst (addRemote P pid pos name s)) = cl_net s"
  "cl_net (fst (createLocalPlayer P snap s)) = cl_net s" "cl_net (removePlayer pid s) = cl_net s"
  by (simp_all add: modify_def logChat_def addBall_def destroySnowball_def addRemote_def createLocalPlayer_def
      removePlayer_def Let_def split: sum.split option.split)

lemma applyEvent_net: "cl_net (fst (applyEvent P T now ev s)) = cl_net s"
  by (cases "ev_of ev") (simp_all add: applyEvent_def Let_def split: option.split)

lemma quiet_view: "quiet s t \<Longrightarrow> netView (cl_net t) = netView (cl_net s)"
  by (simp add: quiet_def)

lemma handleServerMsg_status:
  assumes "status_ok (cl_net s)" "wsIsOpen s"
  shows "status_ok (cl_net (fst (handleServerMsg P T build now perf msg s)))"
proof (cases msg)
  case (MsgError m)
  then show ?thesis
    using assms by (auto simp: handleServerMsg_def modNet_def status_ok_def wsIsOpen_def maxConnectAttempts_def Let_def)
next
  case (MsgPong t)
  then show ?thesis
    using assms by (auto simp: handleServerMsg_def onPong_def modNet_def status_ok_def wsIsOpen_def Let_def)
next
  case (MsgEvent ev)
  then show ?thesis using assms(1) by (simp add: handleServerMsg_def applyEvent_net)
next
  case (MsgSnapshot w list q)
  then show ?thesis
    using status_ok_view [OF quiet_view [OF quiet_applySnapshot [of s P T list]] assms(1)]
      status_ok_view [OF quiet_view [OF quiet_basic(2) [of s "Some list"]] assms(1)]
    by (simp add: handleServerMsg_def)
next
  case (MsgStates tm list)
  then show ?thesis
    using status_ok_view [OF quiet_view [OF quiet_statesLoop [of s P T list]] assms(1)] by (simp add: handleServerMsg_def)
next
  case (MsgWelcome pid w now' seed)
  then show ?thesis
    using status_ok_view [OF quiet_view [OF quiet_onWelcome [of s P T build pid "int seed"]] assms(1)]
    by (simp add: handleServerMsg_def)
qed

text \<open>The steps that do not touch the connection.\<close>

lemma connection_steps:
  "status_ok (cl_net (connect name s)) \<longleftrightarrow> nm_connectAttempts (cl_net s) \<le> 3"
  "status_ok (cl_net (onOpen n p name s))"
  "status_ok (cl_net s) \<Longrightarrow> status_ok (cl_net (onCloseWs s))"
  "status_ok (cl_net s) \<Longrightarrow> status_ok (cl_net (reconnectFires s))"
  by (simp_all add: status_ok_def connect_def onOpen_def onCloseWs_def reconnectFires_def scheduleReconnect_def
      startPingLoop_def pingTick_def modNet_def send_def wsIsOpen_def maxConnectAttempts_def Let_def)

lemma client_same_net: "client.truncate t = client.truncate s \<Longrightarrow> cl_net t = cl_net s"
  by (simp add: client.truncate_def)

lemma local_net [simp]:
  "cl_net (keyDown code s) = cl_net s" "cl_net (keyUp code s) = cl_net s" "cl_net (mouseMove dx dy s) = cl_net s"
  "cl_net (mouseDown B n p k b s) = cl_net s" "cl_net (chatKey key s) = cl_net s" "cl_net (modelLoaded B q os s) = cl_net s"
  by (simp_all add: keyDown_def keyUp_def pressKey_def mouseMove_def mouseDown_def throwLocal_def sendSnowball_def send_def
      chatKey_def sendChat_def modelLoaded_def client_same_net [OF shown_only(2)] case_prod_beta Let_def
      split: option.split)

lemma animate_view: "netView (cl_net (animate B delta tm c p s)) = netView (cl_net s)"
proof -
  have "cl_net (foldl (stepPlayer B dt c) t rs) = cl_net t" for dt t rs
    by (induction rs arbitrary: t) (simp_all add: stepPlayer_def case_prod_beta Let_def)
  then show ?thesis
    by (simp add: animate_def updateCamera_def updateMusicVolume_def maybeSendLocalState_def modNet_def send_def ballLoop_net
        netView_def Let_def split: option.split)
qed

lemma startGame_status: "status_ok (cl_net s) \<Longrightarrow> status_ok (cl_net (startGame name s))"
  by (simp add: startGame_def hideLoginOverlay_def connection_steps(1) Let_def) (simp add: status_ok_def)

lemma login_status:
  assumes "status_ok (cl_net s)"
  shows "status_ok (cl_net (clickStart s))" "status_ok (cl_net (clickGuest s))" "status_ok (cl_net (guestKey key s))"
proof -
  show "status_ok (cl_net (clickStart s))" using assms by (simp add: clickStart_def startGame_status)
  show "status_ok (cl_net (clickGuest s))" using assms by (simp add: clickGuest_def startGame_status Let_def)
  then show "status_ok (cl_net (guestKey key s))"
    using assms by (simp add: guestKey_def client_same_net [OF shown_only(1)])
qed

lemma pageStep_status:
  assumes "status_ok (cl_net s)" "possible e s"
  shows "status_ok (cl_net (pageStep B e s))"
proof (cases e)
  case (PeMsg n p m)
  then show ?thesis using handleServerMsg_status assms unfolding PeMsg message_fields(2) by simp
next
  case PeReload
  then show ?thesis by (simp add: reload_def initPage_def newNetworkManager_def status_ok_def)
next
  case (PePing n p)
  have "netView (cl_net (pingTick n p s)) = netView (cl_net s)"
    by (simp add: pingTick_def modNet_def send_def netView_def Let_def)
  then show ?thesis using PePing status_ok_view assms(1) by simp
next
  case (PeFrame d tm c p)
  then show ?thesis using status_ok_view [OF animate_view assms(1)] by simp
qed (use assms(1) connection_steps login_status in \<open>simp_all add: client_same_net [OF shown_only(1)]
      client_same_net [OF shown_only(2)] client_same_net [OF shown_only(3)] client_same_net [OF shown_only(4)]
      client_same_net [OF shown_only(5)] client_same_net [OF shown_only(6)]\<close>)



section \<open>The login screen\<close>

text \<open>
  The enter key in the field of the guest name starts the game; the same key press then reaches the
  document, where the login screen is gone by now, and opens the chat line.
\<close>

lemma enter_starts_and_opens_chat:
  assumes "\<not> pg_chatFocus s"
  shows "\<not> pg_overlay (pageStep B (PeGuestKey ''Enter'' ''Enter'') s)"
    "nm_ws (cl_net (pageStep B (PeGuestKey ''Enter'' ''Enter'') s)) = Some WsConnecting"
    "pg_chatFocus (pageStep B (PeGuestKey ''Enter'' ''Enter'') s)"
  using assms
  by (simp_all add: guestKey_def clickGuest_def startGame_def hideLoginOverlay_def connect_def modNet_def gesture_def
      keyDown_def focusChat_def Let_def)

text \<open>The text about a failed request is replaced before it can be seen.\<close>

lemma failure_text_replaced:
  "pg_loginStatus (checkAuthStatus uuid None m s) = (if truthy (pg_oauthEnabled s) then oauthText else guestText)"
  by (simp add: checkAuthStatus_def authFailed_def showLoginUI_def Let_def split: option.split list.split)

text \<open>The music is started by the first gesture and by no other.\<close>

lemma gesture_once: "mu_plays (pg_music (gesture (gesture s))) = mu_plays (pg_music (gesture s))"
  by (simp add: gesture_def playMusic_def Let_def)

end
