(* ===== verification/Site.thy ===== *)
theory Site
  imports Routes Client_Runs
begin

text \<open>
  What the page asks of the HTTP server and what it makes of the answers: the addresses of the models
  it loads, which the client encodes and the server decodes, and the two requests of the login screen.
\<close>

section \<open>Encoded addresses\<close>

lemma unat_byte128: "unat u < 128 \<Longrightarrow> unat (ucast u :: byte) = unat (u :: jschar)"
proof -
  assume "unat u < 128"
  moreover have "(ucast u :: byte) = word_of_nat (unat u)" by simp
  ultimately show ?thesis by (simp only: unat_of_nat take_bit_eq_mod) simp
qed

text \<open>The address of an ASCII text: every unit stands for itself or becomes one escape.\<close>

definition uriUnit :: "jschar \<Rightarrow> jsstr" where
  "uriUnit u = uriByte (ucast u)"

lemma wellFormed_ascii: "\<forall>n \<in> set ns. n < 128 \<Longrightarrow> wellFormed16 ns"
  by (induction ns rule: wellFormed16.induct) (auto simp: isHigh_def isLow_def)

lemma encodeURI_ascii:
  assumes "ascii s"
  shows "encodeURI s = Inr (concat (map uriUnit s))"
proof -
  have l: "\<forall>n \<in> set (map unat s). n < 128" using assms by (simp add: ascii_def)
  have "concat (map utf8cp (map unat s)) = map unat s" using assms by (induction s) (simp_all add: ascii_def utf8cp_def)
  then have "utf8 s = map ucast s" unfolding utf8_def codePoints_ascii [OF l] by (simp add: comp_def)
  moreover have "map uriByte (map ucast s) = map uriUnit s" by (simp add: uriUnit_def)
  ultimately show ?thesis using wellFormed_ascii [OF l] by (simp only: encodeURI_def if_True)
qed

lemma hexUnit_upperHex: "a < 16 \<Longrightarrow> hexUnit (upperHex a) = Some a"
  by (auto simp: hexUnit_def upperHex_def unat16 Let_def)

lemma uriUnit_cases:
  assumes "unat u < 128"
  obtains "uriPlain (unat u)" "uriUnit u = [u]" "u \<noteq> 37"
  | "\<not> uriPlain (unat u)" "uriUnit u = [37, upperHex (unat u div 16), upperHex (unat u mod 16)]" "u \<noteq> 46"
proof (cases "uriPlain (unat u)")
  case True
  then have "u \<noteq> 37" by (auto simp: uriPlain_def)
  then show thesis using True that(1) assms by (simp add: uriUnit_def uriByte_def unat_byte128 Let_def)
next
  case False
  then have "u \<noteq> 46" by (auto simp: uriPlain_def)
  then show thesis using False that(2) assms by (simp add: uriUnit_def uriByte_def unat_byte128 Let_def)
qed

lemma decodeEsc_uriUnit:
  assumes "unat u < 128"
  shows "decodeEsc uriReserved (uriUnit u @ t) = map_option ((#) u) (decodeEsc uriReserved t)"
proof (cases rule: uriUnit_cases [OF assms])
  case 1
  then show ?thesis by simp
next
  case 2
  have "escByte (upperHex (unat u div 16)) (upperHex (unat u mod 16)) = Some (unat u)"
    using assms by (simp add: escByte_def hexUnit_upperHex)
  moreover have "\<not> uriReserved (unat u)" using 2(1) by (auto simp: uriReserved_def uriPlain_def)
  ultimately show ?thesis using 2(2) assms by (simp add: fun_eq_iff cong: option.map_cong)
qed

text \<open>What the client encodes the server reads back.\<close>

lemma decodeURI_encodeURI:
  assumes "ascii s"
  shows "decodeURI (concat (map uriUnit s)) = Some s"
  using assms unfolding decodeURI_def by (induction s) (simp_all add: ascii_def decodeEsc_uriUnit)

text \<open>The encoding neither makes nor hides two dots.\<close>

lemma includesDotDot_Cons: "includesDotDot (a # s) \<longleftrightarrow> a = 46 \<and> s \<noteq> [] \<and> hd s = 46 \<or> includesDotDot s"
  by (cases s) auto

lemma includesDotDot_skip: "46 \<notin> set c \<Longrightarrow> includesDotDot (c @ s) = includesDotDot s"
  by (induction c) (auto simp: includesDotDot_Cons)

lemma upperHex_dot: "a < 16 \<Longrightarrow> upperHex a \<noteq> 46"
  using hexUnit_upperHex [of a] by (auto simp: hexUnit_def)

lemma includesDotDot_encoded:
  assumes "ascii s"
  shows "includesDotDot (concat (map uriUnit s)) = includesDotDot s \<and>
    (concat (map uriUnit s) \<noteq> [] \<and> hd (concat (map uriUnit s)) = 46 \<longleftrightarrow> s \<noteq> [] \<and> hd s = 46)"
  using assms
proof (induction s)
  case (Cons u s)
  then have u: "unat u < 128" and IH: "includesDotDot (concat (map uriUnit s)) = includesDotDot s"
    "concat (map uriUnit s) \<noteq> [] \<and> hd (concat (map uriUnit s)) = 46 \<longleftrightarrow> s \<noteq> [] \<and> hd s = 46"
    by (simp_all add: ascii_def)
  show ?case
  proof (cases rule: uriUnit_cases [OF u])
    case 1
    then show ?thesis using IH by (simp add: includesDotDot_Cons)
  next
    case 2
    have "46 \<notin> set (uriUnit u)" using u upperHex_dot [of "unat u div 16"] upperHex_dot [of "unat u mod 16"] by (auto simp: 2)
    note skip = includesDotDot_skip [OF this, of "concat (map uriUnit s)"]
    have "uriUnit u \<noteq> []" "hd (uriUnit u) \<noteq> 46" by (simp_all add: 2)
    then show ?thesis using IH(1) 2(3) skip includesDotDot_Cons [of u s] by simp
  qed
qed simp

section \<open>The models of the scenery\<close>

text \<open>The file of a model.\<close>

definition modelFile :: "string \<Rightarrow> jsstr" where
  "modelFile name = jslit (''.'' @ modelBaseUrl @ name)"

text \<open>The names of the kit: small letters and hyphens, and one ending.\<close>

definition stemChars :: string where
  "stemChars = ''abcdefghijklmnopqrstuvwxyz-''"

definition kitName :: "string \<Rightarrow> bool" where
  "kitName name \<longleftrightarrow>
     (let n = length name - 4 in drop n name = ''.glb'' \<and> list_all (\<lambda>c. c \<in> set stemChars) (take n name))"

lemma kit_names_plain: "list_all kitName KENNEY_GLBS"
  by code_simp

lemma kitName_units:
  assumes "kitName name"
  shows "ascii (jslit name)" "\<not> includesDotDot (jslit name)"
proof -
  obtain stem where n: "name = stem @ ''.glb''" and stem: "set stem \<subseteq> set stemChars"
    using assms unfolding kitName_def Let_def list_all_iff by (metis append_take_drop_id subsetI)
  have "\<forall>c \<in> set stemChars. unat (of_char c :: jschar) < 128 \<and> (of_char c :: jschar) \<noteq> 46" by code_simp
  then have u: "\<forall>u \<in> set (jslit stem). unat u < 128 \<and> u \<noteq> 46" using stem by (auto simp: jslit_def)
  have e: "jslit name = jslit stem @ jslit ''.glb''" by (simp add: n jslit_def)
  have g: "ascii (jslit ''.glb'')" "\<not> includesDotDot (jslit ''.glb'')" by code_simp+
  show "ascii (jslit name)" using u g(1) unfolding e by (auto simp: ascii_def)
  show "\<not> includesDotDot (jslit name)" using u g(2) unfolding e by (subst includesDotDot_skip) auto
qed

lemma served_model:
  assumes "name \<in> set KENNEY_GLBS"
  obtains u where "modelUrl name = Inr u" "startsWith u (jslit ''/assets/'')" "\<not> includesDotDot u"
    "decodeURI u = Some (jslit (modelBaseUrl @ name))"
proof -
  let ?s = "jslit (modelBaseUrl @ name)"
  have n: "ascii (jslit name)" "\<not> includesDotDot (jslit name)"
    using kit_names_plain kitName_units assms by (auto simp: list_all_iff)
  have e: "?s = jslit modelBaseUrl @ jslit name" by (simp add: jslit_def)
  have b: "ascii (jslit modelBaseUrl)" "46 \<notin> set (jslit modelBaseUrl)" by code_simp+
  have a: "ascii ?s" using n(1) b(1) unfolding e by (auto simp: ascii_def)
  have "\<not> includesDotDot ?s" using n(2) b(2) unfolding e by (simp add: includesDotDot_skip)
  then have "\<not> includesDotDot (concat (map uriUnit ?s))" using includesDotDot_encoded [OF a] by simp
  moreover have "concat (map uriUnit (jslit ''/assets/'')) = jslit ''/assets/''" by code_simp
  moreover have "take 8 (jslit modelBaseUrl) = jslit ''/assets/''" by code_simp
  then have "?s = jslit ''/assets/'' @ drop 8 (jslit modelBaseUrl) @ jslit name"
    unfolding e by (metis append_assoc append_take_drop_id)
  ultimately show thesis
    using that [of "concat (map uriUnit ?s)"] encodeURI_ascii [OF a] decodeURI_encodeURI [OF a]
    unfolding modelUrl_def by (metis concat_append map_append startsWith_append)
qed

text \<open>
  Claim C29. The models of the scenery arrive: the address under which the page asks for a model of the
  kit is answered by the server with the file of that name, if that file can be opened; the blank in
  the path survives the encoding on one side and the decoding on the other.
\<close>

theorem models_are_served:
  assumes "name \<in> set KENNEY_GLBS" "modelUrl name = Inr (rq_path q)" "v_opens V (modelFile name)"
  shows "fst (serve V q st w) = Inr (fileResponse (modelFile name))"
proof -
  obtain u where u: "modelUrl name = Inr u" "startsWith u (jslit ''/assets/'')" "\<not> includesDotDot u"
    "decodeURI u = Some (jslit (modelBaseUrl @ name))" using assms(1) by (rule served_model)
  have "jslit ''.'' @ jslit (modelBaseUrl @ name) = modelFile name" by (simp add: modelFile_def jslit_def)
  then show ?thesis using u assms(2,3) serve_startsWith [of q V st w] by (simp add: assetRoute_def Let_def)
qed

theorem models_are_served_witness:
  "fst (serve ex_site (ex_get ''/assets/kenney_holiday_kit/Models/GLB%20format/tree.glb'') [] emptyWorld) =
     Inr (fileResponse (jslit ''./assets/kenney_holiday_kit/Models/GLB format/tree.glb''))"
proof -
  have "ascii (jslit (modelBaseUrl @ ''tree.glb''))" by code_simp
  moreover have "concat (map uriUnit (jslit (modelBaseUrl @ ''tree.glb''))) =
      rq_path (ex_get ''/assets/kenney_holiday_kit/Models/GLB%20format/tree.glb'')"
    by code_simp
  ultimately have "modelUrl ''tree.glb'' = Inr (rq_path (ex_get ''/assets/kenney_holiday_kit/Models/GLB%20format/tree.glb''))"
    by (simp only: modelUrl_def encodeURI_ascii)
  moreover have "''tree.glb'' \<in> set KENNEY_GLBS" by (simp add: KENNEY_GLBS_def)
  moreover have "v_opens ex_site (modelFile ''tree.glb'')" by (simp add: ex_site_def)
  moreover have "modelFile ''tree.glb'' = jslit ''./assets/kenney_holiday_kit/Models/GLB format/tree.glb''"
    by (simp add: modelFile_def modelBaseUrl_def)
  ultimately show ?thesis
    using models_are_served [of "''tree.glb''" "ex_get ''/assets/kenney_holiday_kit/Models/GLB%20format/tree.glb''"] by metis
qed

text \<open>Every model that the page places is one of them.\<close>

lemma placed_models_in_kit: "p \<in> set (scatterKenneyModels w s) \<Longrightarrow> pl_name p \<in> set KENNEY_GLBS"
  using scatter_names outdoor_models_exist by fastforce

section \<open>The login screen\<close>

text \<open>\<open>await (await fetch(...)).json()\<close>.\<close>

definition fetchJson :: "platform \<Rightarrow> js_err + http_response \<Rightarrow> jsval option" where
  "fetchJson P r =
     (case r of
        Inl e \<Rightarrow> None
      | Inr h \<Rightarrow> (case hr_body h of TextBody t \<Rightarrow> jsonParse P t | _ \<Rightarrow> None))"

definition oauthAnswer :: "auth_config \<Rightarrow> jsval" where
  "oauthAnswer cfg = JObj [(jslit ''oauth_enabled'', JBool (isOAuthConfigured cfg))]"

definition providerName :: "jsval \<Rightarrow> jsval" where
  "providerName user = orElse (getp user ''name'') (getp user ''username'')"


text \<open>A platform for the witness that knows the four JSON texts of a login.\<close>

definition ex_user :: jsval where
  "ex_user = JObj [(jslit ''username'', JStr (jslit ''ann''))]"

definition ex_payload :: jsval where
  "ex_payload = fullPayload (userPayload ex_user) 0"

definition ex_login :: platform where
  "ex_login = (ex_platform JNull)
     \<lparr>jsonString := \<lambda>v. if v = ex_payload then [49] else if v = oauthAnswer ex_config then [50]
        else if v = authenticatedAs ex_payload then [51] else [52],
      jsonParse := \<lambda>t. Some (if t = [49] then ex_payload else if t = [50] then oauthAnswer ex_config
        else if t = [51] then authenticatedAs ex_payload else notAuthenticated)\<rparr>"


end
