(* ===== verification/Client_Figure.thy ===== *)
theory Client_Figure
  imports Client_Scene Drawing
begin

text \<open>
  The figure of a player, the second half of the constructor in \<open>client_src/player.js\<close>: torso, head,
  hat, limbs on their joints, name label and chat bubble, as the objects handed to the drawing library;
  a bot has its labels only and a model that is loaded later. Lemmas: which points the figure takes up,
  compared with the cylinder in which the server counts a hit.
\<close>

section \<open>Labels\<close>

text \<open>\<open>this.name + " (" + this.pingMs + "ms)"\<close>; \<open>str\<close> is the conversion of values to text.\<close>

definition displayName :: "(jsval \<Rightarrow> jsstr) \<Rightarrow> player_model \<Rightarrow> jsstr" where
  "displayName str p =
     (case pm_pingMs p of
        Some ping \<Rightarrow> str (pm_name p) @ jslit '' ('' @ str (JNum ping) @ jslit ''ms)''
      | None \<Rightarrow> str (pm_name p))"

definition labelCanvas :: "jsstr \<Rightarrow> string \<Rightarrow> bool \<Rightarrow> canvas_op list" where
  "labelCanvas txt fontPx isBubble =
     (let w = 512; h = 128
      in (if isBubble then
            [FillStyle ''rgba(0, 0, 0, 0.7)'', FillRect 10 10 (w - 20) (h - 20), StrokeStyle ''#fff'', LineWidth 6,
             StrokeRect 10 10 (w - 20) (h - 20), FillStyle ''#fff'']
          else [FillStyle ''#fff'', ShadowColor ''rgba(0,0,0,1)'', ShadowBlur 6, ShadowOffset 3 3]) @
         [Font (''bold '' @ fontPx @ ''px '' @ [char_of (39 :: nat)] @ ''Courier New'' @ [char_of (39 :: nat)]), TextAlign ''center'', TextBaseline ''middle'',
          FillText txt (w / 2) (h / 2)])"

text \<open>The sprite at its height; the font is given twice as large.\<close>

definition createTextSprite :: "jsstr \<Rightarrow> string \<Rightarrow> bool \<Rightarrow> real \<Rightarrow> bool \<Rightarrow> object3d" where
  "createTextSprite txt fontPx isBubble y visible =
     (let tex = \<lparr>tx_width = 512, tx_height = 128, tx_ops = labelCanvas txt fontPx isBubble, tx_nearest = True,
            tx_repeat = None\<rparr>
      in Object3D (Sprite (Material SpriteMaterial [Map tex, Transparent True]))
           (showing visible (scaled 3 (75 / 100) 1 (posed 0 y 0))) [])"

definition nameSprite :: "(jsval \<Rightarrow> jsstr) \<Rightarrow> player_model \<Rightarrow> object3d" where
  "nameSprite str p = createTextSprite (displayName str p) ''48'' False (if pm_isBot p then 35 / 10 else 24 / 10) True"

text \<open>
  The bubble: empty and hidden before the first chat, at the height of its constructor; a chat puts it
  at the height for players.
\<close>

definition chatSprite :: "player_model \<Rightarrow> object3d" where
  "chatSprite p =
     (case pm_chat p of
        Some txt \<Rightarrow> createTextSprite txt ''40'' True (28 / 10) True
      | None \<Rightarrow> createTextSprite [] ''40'' True (if pm_isBot p then 4 else 28 / 10) False)"

section \<open>The figure\<close>

definition standardMat :: "nat option \<Rightarrow> material" where
  "standardMat c = Material StandardMaterial (case c of Some h \<Rightarrow> [Color (Hex h)] | None \<Rightarrow> [])"

definition basicMat :: "nat \<Rightarrow> material" where
  "basicMat h = Material BasicMaterial [Color (Hex h)]"

definition boxMesh :: "real \<Rightarrow> real \<Rightarrow> real \<Rightarrow> material \<Rightarrow> pose \<Rightarrow> object3d" where
  "boxMesh w h d mat p = Object3D (Mesh (BoxGeometry w h d) mat) p []"

definition planeMesh :: "real \<Rightarrow> real \<Rightarrow> material \<Rightarrow> pose \<Rightarrow> object3d" where
  "planeMesh w h mat p = Object3D (Mesh (PlaneGeometry w h) mat) p []"

text \<open>A limb hangs from a pivot, which the animation turns.\<close>

definition createLimb :: "real \<Rightarrow> real \<Rightarrow> material \<Rightarrow> real \<Rightarrow> real \<Rightarrow> object3d" where
  "createLimb x y mat rx rz =
     Object3D Group (turned rx 0 rz (posed x y 0))
       [boxMesh (18 / 100) (6 / 10) (18 / 100) mat (casting (posed 0 (- 3 / 10) 0))]"

definition headParts :: "material \<Rightarrow> object3d list" where
  "headParts skinMat =
     (let eyeMat = basicMat 0xFFFFFF; pupilMat = basicMat 0x000000;
          white = standardMat (Some 0xFFFFFF); red = standardMat (Some 0xD32F2F)
      in [boxMesh (4 / 10) (4 / 10) (4 / 10) skinMat (casting (posed 0 (2 / 10) 0)),
          planeMesh (8 / 100) (8 / 100) eyeMat (turned 0 pi 0 (posed (- 1 / 10) (2 / 10) (- 201 / 1000))),
          planeMesh (4 / 100) (4 / 100) pupilMat (turned 0 pi 0 (posed (- 1 / 10) (2 / 10) (- 202 / 1000))),
          planeMesh (8 / 100) (8 / 100) eyeMat (turned 0 pi 0 (posed (1 / 10) (2 / 10) (- 201 / 1000))),
          planeMesh (4 / 100) (4 / 100) pupilMat (turned 0 pi 0 (posed (1 / 10) (2 / 10) (- 202 / 1000))),
          boxMesh (44 / 100) (12 / 100) (44 / 100) white (posed 0 (4 / 10) 0),
          boxMesh (3 / 10) (15 / 100) (3 / 10) red (posed 0 (53 / 100) 0),
          boxMesh (2 / 10) (15 / 100) (2 / 10) red (posed 0 (65 / 100) (- 5 / 100)),
          boxMesh (1 / 10) (1 / 10) (1 / 10) white (posed 0 (7 / 10) (- 15 / 100))])"

definition bodyParts :: "material \<Rightarrow> material \<Rightarrow> limbs \<Rightarrow> object3d list" where
  "bodyParts skinMat shirtMat l =
     [boxMesh (4 / 10) (6 / 10) (2 / 10) shirtMat (casting (posed 0 (3 / 10) 0)),
      boxMesh (5 / 100) (5 / 100) (2 / 100) (basicMat 0xFFFFFF) (posed 0 (4 / 10) (11 / 100)),
      boxMesh (5 / 100) (5 / 100) (2 / 100) (basicMat 0xFFFFFF) (posed 0 (2 / 10) (11 / 100)),
      Object3D Group (posed 0 (6 / 10) 0) (headParts skinMat),
      createLimb (29 / 100) (55 / 100) shirtMat (l_rightArm l) (l_rightArmZ l),
      createLimb (- 29 / 100) (55 / 100) shirtMat (l_leftArm l) (l_leftArmZ l)]"

definition figureParts :: "player_model \<Rightarrow> object3d list" where
  "figureParts p =
     (let l = pm_limbs p; skinMat = standardMat (col_skin (pm_shown p));
          shirtMat = standardMat (col_shirt (pm_shown p)); pantsMat = standardMat (col_pants (pm_shown p))
      in [Object3D Group (turned (l_bodyLean l) 0 0 (posed 0 (l_bodyY l) 0)) (bodyParts skinMat shirtMat l),
          createLimb (1 / 10) (75 / 100) pantsMat (l_rightLeg l) 0,
          createLimb (- 1 / 10) (75 / 100) pantsMat (l_leftLeg l) 0])"

text \<open>The object of a player in the scene; the model of a bot comes from its file.\<close>

definition playerObject :: "(jsval \<Rightarrow> jsstr) \<Rightarrow> object3d list \<Rightarrow> player_model \<Rightarrow> object3d" where
  "playerObject str snowman p =
     Object3D Group
       (showing (pm_visible p) (turned (pm_rotX p) (pm_rotY p) 0 (posed (vx (pm_pos p)) (vy (pm_pos p)) (vz (pm_pos p)))))
       ((if pm_isBot p then snowman else figureParts p) @ [nameSprite str p, chatSprite p])"

section \<open>Lemmas: the points of the parts\<close>

lemma box_points:
  "v \<in> points place (boxMesh w h d m (posed x y z)) \<longleftrightarrow> \<bar>vx v - x\<bar> \<le> w / 2 \<and> \<bar>vy v - y\<bar> \<le> h / 2 \<and> \<bar>vz v - z\<bar> \<le> d / 2"
proof -
  have "v = place (posed x y z) (vec (vx v - x) (vy v - y) (vz v - z))" by (simp add: place_posed vec_eq_iff)
  then have "vec (vx v - x) (vy v - y) (vz v - z) \<in> solid (BoxGeometry w h d) \<Longrightarrow> v \<in> place (posed x y z) ` solid (BoxGeometry w h d)"
    by (rule image_eqI)
  then show ?thesis unfolding boxMesh_def points_mesh by (auto simp: place_posed)
qed

lemma plane_points:
  "v \<in> points place (planeMesh w h m (turned 0 pi 0 (posed x y z))) \<longleftrightarrow>
     \<bar>vx v - x\<bar> \<le> w / 2 \<and> \<bar>vy v - y\<bar> \<le> h / 2 \<and> vz v = z"
proof -
  have p: "place (turned 0 pi 0 (posed x y z)) q = vec (x - vx q) (vy q + y) (z - vz q)" for q
    by (simp add: place_turned turnX_def turnY_def turnZ_def Let_def)
  have v: "v = place (turned 0 pi 0 (posed x y z)) (vec (x - vx v) (vy v - y) (z - vz v))" by (simp add: p vec_eq_iff)
  show ?thesis
  proof
    assume "v \<in> points place (planeMesh w h m (turned 0 pi 0 (posed x y z)))"
    then obtain q where "v = vec (x - vx q) (vy q + y) (z - vz q)" "q \<in> solid (PlaneGeometry w h)"
      unfolding planeMesh_def points_mesh p by blast
    then show "\<bar>vx v - x\<bar> \<le> w / 2 \<and> \<bar>vy v - y\<bar> \<le> h / 2 \<and> vz v = z" by simp
  next
    assume "\<bar>vx v - x\<bar> \<le> w / 2 \<and> \<bar>vy v - y\<bar> \<le> h / 2 \<and> vz v = z"
    then have "vec (x - vx v) (vy v - y) (z - vz v) \<in> solid (PlaneGeometry w h)" by (simp add: abs_minus_commute)
    with v show "v \<in> points place (planeMesh w h m (turned 0 pi 0 (posed x y z)))"
      unfolding planeMesh_def points_mesh by (rule image_eqI)
  qed
qed

lemma casting_mesh [simp]:
  "points place (boxMesh w h d m (casting p)) = points place (boxMesh w h d m p)"
  by (simp add: boxMesh_def)

text \<open>A limb, however it swings, when it is spread by a small angle only.\<close>

lemma limb_points:
  assumes "v \<in> points place (createLimb x y m rx rz)" "\<bar>rz\<bar> \<le> 7 / 100"
  shows "\<bar>vx v - x\<bar> \<le> 14 / 100" "\<bar>vy v - y\<bar> \<le> 7 / 10" "\<bar>vz v\<bar> \<le> 7 / 10"
proof -
  obtain q where q: "q \<in> points place (boxMesh (18 / 100) (6 / 10) (18 / 100) m (casting (posed 0 (- 3 / 10) 0)))"
    and v: "v = place (turned rx 0 rz (posed x y 0)) q"
    using assms(1) unfolding createLimb_def points_group by auto
  have b: "\<bar>vx q\<bar> \<le> 9 / 100" "\<bar>vy q\<bar> \<le> 6 / 10" "\<bar>vz q\<bar> \<le> 9 / 100"
    using q unfolding casting_mesh box_points by linarith+
  have s: "\<bar>sin rz\<bar> \<le> 7 / 100" using abs_sin_x_le_abs_x [of rz] assms(2) by linarith
  let ?x = "vx q * cos rz - vy q * sin rz" and ?y = "vx q * sin rz + vy q * cos rz"
  have "\<bar>vy q * sin rz\<bar> \<le> 6 / 10 * (7 / 100)" "\<bar>vx q * sin rz\<bar> \<le> 9 / 100 * (7 / 100)"
    unfolding abs_mult using b s by (intro mult_mono; simp)+
  moreover have "\<bar>vx q * cos rz\<bar> \<le> 9 / 100" "\<bar>vy q * cos rz\<bar> \<le> 6 / 10"
    using b abs_cos_le_one [of rz] unfolding abs_mult by (metis abs_ge_zero mult_left_le order_trans)+
  ultimately have xy: "\<bar>?x\<bar> \<le> 14 / 100" "\<bar>?y\<bar> \<le> 607 / 1000" by linarith+
  have "\<bar>?y * cos rx - vz q * sin rx\<bar> \<le> 7 / 10" "\<bar>?y * sin rx + vz q * cos rx\<bar> \<le> 7 / 10"
    using turn_bound [of ?y rx "vz q"] xy b(3) by linarith+
  moreover have "v = vec (?x + x) (?y * cos rx - vz q * sin rx + y) (?y * sin rx + vz q * cos rx)"
    unfolding v place_turned by (simp add: turnX_def turnY_def turnZ_def Let_def)
  ultimately show "\<bar>vx v - x\<bar> \<le> 14 / 100" "\<bar>vy v - y\<bar> \<le> 7 / 10" "\<bar>vz v\<bar> \<le> 7 / 10"
    using xy(1) by simp_all
qed

lemma head_points:
  assumes "c \<in> set (headParts m)" "v \<in> points place c"
  shows "\<bar>vx v\<bar> \<le> 22 / 100 \<and> 0 \<le> vy v \<and> vy v \<le> 75 / 100 \<and> \<bar>vz v\<bar> \<le> 22 / 100"
  using assms unfolding headParts_def Let_def set_simps insert_iff empty_iff
  by - (elim disjE FalseE; (simp only: casting_mesh box_points plane_points abs_le_iff, intro conjI; linarith))

text \<open>Arms that are spread by a small angle only, as every frame of the animation leaves them.\<close>

definition armsClose :: "limbs \<Rightarrow> bool" where
  "armsClose l \<longleftrightarrow> \<bar>l_leftArmZ l\<bar> \<le> 7 / 100 \<and> \<bar>l_rightArmZ l\<bar> \<le> 7 / 100"

lemma body_points:
  assumes "armsClose l" "c \<in> set (bodyParts m k l)" "v \<in> points place c"
  shows "\<bar>vx v\<bar> \<le> 43 / 100 \<and> - 15 / 100 \<le> vy v \<and> vy v \<le> 135 / 100 \<and> \<bar>vz v\<bar> \<le> 7 / 10"
proof -
  have head: "\<bar>vx v\<bar> \<le> 22 / 100 \<and> 6 / 10 \<le> vy v \<and> vy v \<le> 135 / 100 \<and> \<bar>vz v\<bar> \<le> 22 / 100"
    if "v \<in> points place (Object3D Group (posed 0 (6 / 10) 0) (headParts m))"
  proof -
    from that obtain c q where "c \<in> set (headParts m)" "q \<in> points place c" "v = place (posed 0 (6 / 10) 0) q"
      unfolding points_group by blast
    then show ?thesis using head_points [of c m q] by (auto simp: place_posed)
  qed
  have arms: "\<bar>vx v\<bar> \<le> 43 / 100 \<and> - 15 / 100 \<le> vy v \<and> vy v \<le> 125 / 100 \<and> \<bar>vz v\<bar> \<le> 7 / 10"
    if "v \<in> points place (createLimb x (55 / 100) k a b)" "\<bar>x\<bar> \<le> 29 / 100" "\<bar>b\<bar> \<le> 7 / 100" for x a b
    using limb_points [OF that(1,3)] that(2) unfolding abs_le_iff by linarith
  from assms(2,3) show ?thesis
    unfolding bodyParts_def set_simps insert_iff empty_iff
  proof (elim disjE FalseE)
    assume "c = createLimb (29 / 100) (55 / 100) k (l_rightArm l) (l_rightArmZ l)"
    then show ?thesis using arms assms by (force simp: armsClose_def)
  next
    assume "c = createLimb (- 29 / 100) (55 / 100) k (l_leftArm l) (l_leftArmZ l)"
    then show ?thesis using arms assms by (force simp: armsClose_def)
  next
    assume "c = Object3D Group (posed 0 (6 / 10) 0) (headParts m)"
    then show ?thesis using head assms(3) by auto
  qed (simp only: casting_mesh box_points abs_le_iff, intro conjI; linarith)+
qed

text \<open>The points of a standing figure, in the frame of the player.\<close>

lemma figure_points:
  assumes "armsClose (pm_limbs p)" "l_bodyLean (pm_limbs p) = 0" "6 / 10 \<le> l_bodyY (pm_limbs p)"
    "l_bodyY (pm_limbs p) \<le> 75 / 100" "c \<in> set (figureParts p)" "v \<in> points place c"
  shows "\<bar>vx v\<bar> \<le> 43 / 100 \<and> 0 \<le> vy v \<and> vy v \<le> 21 / 10 \<and> \<bar>vz v\<bar> \<le> 7 / 10"
proof -
  let ?l = "pm_limbs p"
  have legs: "\<bar>vx v\<bar> \<le> 43 / 100 \<and> 0 \<le> vy v \<and> vy v \<le> 21 / 10 \<and> \<bar>vz v\<bar> \<le> 7 / 10"
    if "v \<in> points place (createLimb x (75 / 100) k a 0)" "\<bar>x\<bar> \<le> 1 / 10" for x k a
    using limb_points [OF that(1)] that(2) unfolding abs_le_iff by simp
  have body: "\<bar>vx v\<bar> \<le> 43 / 100 \<and> 0 \<le> vy v \<and> vy v \<le> 21 / 10 \<and> \<bar>vz v\<bar> \<le> 7 / 10"
    if "v \<in> points place (Object3D Group (turned (l_bodyLean ?l) 0 0 (posed 0 (l_bodyY ?l) 0)) (bodyParts m k ?l))" for m k
  proof -
    from that obtain c q where q: "c \<in> set (bodyParts m k ?l)" "q \<in> points place c"
      "v = place (turned (l_bodyLean ?l) 0 0 (posed 0 (l_bodyY ?l) 0)) q"
      unfolding points_group by blast
    then have "v = vec (vx q) (vy q + l_bodyY ?l) (vz q)"
      using assms(2) by (simp add: place_turned turnX_def turnY_def turnZ_def)
    then show ?thesis using body_points [OF assms(1) q(1,2)] assms(3,4) by simp
  qed
  from assms(5,6) show ?thesis
    unfolding figureParts_def Let_def set_simps insert_iff empty_iff using legs body by (elim disjE FalseE) auto
qed

section \<open>The figure and the hits of the server\<close>

text \<open>What the library documents of the pose of an object.\<close>

definition three_place :: "(pose \<Rightarrow> vec3 \<Rightarrow> vec3) \<Rightarrow> bool" where
  "three_place P \<longleftrightarrow> (\<forall>p v. P p v = place p v)"

text \<open>A player who lives and stands: the body is upright, at a height between crouching and standing.\<close>

definition upright :: "player_model \<Rightarrow> bool" where
  "upright p \<longleftrightarrow> \<not> pm_isBot p \<and> pm_rotX p = 0 \<and> armsClose (pm_limbs p) \<and> l_bodyLean (pm_limbs p) = 0 \<and>
     6 / 10 \<le> l_bodyY (pm_limbs p) \<and> l_bodyY (pm_limbs p) \<le> 75 / 100"

lemma player_points:
  assumes "pm_rotX p = 0" "\<not> pm_isBot p" "v \<in> points place (playerObject str snowman p)"
  obtains c q where "c \<in> set (figureParts p)" "q \<in> points place c"
    "v = vec (vx (turnY (pm_rotY p) q) + vx (pm_pos p)) (vy q + vy (pm_pos p)) (vz (turnY (pm_rotY p) q) + vz (pm_pos p))"
proof -
  have no: "points place (nameSprite str p) = {}" "points place (chatSprite p) = {}"
    by (simp_all add: nameSprite_def chatSprite_def createTextSprite_def Let_def split: option.split)
  from assms(2,3) obtain c q where "c \<in> set (figureParts p @ [nameSprite str p, chatSprite p])" "q \<in> points place c"
    "v = place (showing (pm_visible p) (turned (pm_rotX p) (pm_rotY p) 0 (posed (vx (pm_pos p)) (vy (pm_pos p)) (vz (pm_pos p))))) q"
    unfolding playerObject_def points_group by auto
  then show thesis using no assms(1) that [of c q]
    by (auto simp: place_turned turnX_def turnZ_def turnY_def Let_def)
qed

text \<open>Every frame leaves the arms close to the body.\<close>

lemma updateAnimation_armsClose: "armsClose (pm_limbs (updateAnimation T dt c p))"
proof -
  have b: "\<bar>5 / 100 + sin x * (2 / 100)\<bar> \<le> 7 / 100" "\<bar>- 5 / 100 - sin x * (2 / 100)\<bar> \<le> 7 / 100" for x :: real
    using sin_le_one [of x] sin_ge_minus_one [of x] unfolding abs_le_iff by linarith+
  show ?thesis
    unfolding updateAnimation_def Let_def armsClose_def swing_def rest_def using b by simp
qed

lemma restLimbs_upright: "armsClose restLimbs" "l_bodyLean restLimbs = 0" "l_bodyY restLimbs = 75 / 100"
  by (simp_all add: armsClose_def restLimbs_def)

text \<open>
  Claim C12. What is seen is what is hit: every point of the drawn figure of an upright player, with
  its hat and with its limbs in any swing, lies in the cylinder in which the server counts a snowball
  as a hit. The library is assumed to pose objects as it documents.
\<close>

theorem drawn_figure_is_hit:
  assumes "three_place P" "upright p" "v \<in> points P (playerObject str snowman p)"
  shows "intersectsPlayerCylinder v (pm_pos p)"
proof -
  have P: "P = place" using assms(1) by (auto simp: three_place_def fun_eq_iff)
  obtain c q where q: "c \<in> set (figureParts p)" "q \<in> points place c" and
    v: "v = vec (vx (turnY (pm_rotY p) q) + vx (pm_pos p)) (vy q + vy (pm_pos p)) (vz (turnY (pm_rotY p) q) + vz (pm_pos p))"
    using player_points [of p v str snowman] assms(2,3) unfolding P upright_def by blast
  have b: "\<bar>vx q\<bar> \<le> 43 / 100" "0 \<le> vy q" "vy q \<le> 21 / 10" "\<bar>vz q\<bar> \<le> 7 / 10"
    using figure_points [OF _ _ _ _ q] assms(2) by (simp_all add: upright_def)
  have "(vx q)\<^sup>2 \<le> (43 / 100)\<^sup>2" "(vz q)\<^sup>2 \<le> (7 / 10)\<^sup>2" using b(1,4) by (metis abs_le_square_iff abs_numeral abs_divide)+
  then have "(vx (turnY (pm_rotY p) q))\<^sup>2 + (vz (turnY (pm_rotY p) q))\<^sup>2 \<le> (43 / 100)\<^sup>2 + (7 / 10)\<^sup>2"
    unfolding turnY_cylinder by (rule add_mono)
  also have "\<dots> \<le> (9 / 10 :: real)\<^sup>2" by (simp add: power2_eq_square)
  finally show ?thesis unfolding intersects_iff v using b(2,3) by simp
qed

text \<open>The ball of the hat, which is the point of a figure that is farthest from its hips.\<close>

definition hatBall :: "player_model \<Rightarrow> vec3" where
  "hatBall p =
     (let l = pm_limbs p; q = place (turned (l_bodyLean l) 0 0 (posed 0 (l_bodyY l) 0)) (vec 0 (13 / 10) (- 15 / 100))
      in place (turned (pm_rotX p) (pm_rotY p) 0 (posed (vx (pm_pos p)) (vy (pm_pos p)) (vz (pm_pos p)))) q)"

lemma points_child: "c \<in> set cs \<Longrightarrow> q \<in> points P c \<Longrightarrow> P p q \<in> points P (Object3D Group p cs)"
  unfolding points_group by blast

lemma hatBall_drawn:
  assumes "\<not> pm_isBot p"
  shows "hatBall p \<in> points place (playerObject str snowman p)"
proof -
  let ?m = "standardMat (col_skin (pm_shown p))" and ?k = "standardMat (col_shirt (pm_shown p))" and ?l = "pm_limbs p"
  let ?b = "boxMesh (1 / 10) (1 / 10) (1 / 10) (standardMat (Some 0xFFFFFF)) (posed 0 (7 / 10) (- 15 / 100))"
  let ?head = "Object3D Group (posed 0 (6 / 10) 0) (headParts ?m)"
  let ?body = "Object3D Group (turned (l_bodyLean ?l) 0 0 (posed 0 (l_bodyY ?l) 0)) (bodyParts ?m ?k ?l)"
  have "vec 0 (7 / 10) (- 15 / 100) \<in> points place ?b" by (simp only: box_points) simp
  then have "place (posed 0 (6 / 10) 0) (vec 0 (7 / 10) (- 15 / 100)) \<in> points place ?head"
    by (rule points_child [rotated]) (simp add: headParts_def Let_def)
  then have "vec 0 (13 / 10) (- 15 / 100) \<in> points place ?head" by (simp add: place_posed)
  then have "place (turned (l_bodyLean ?l) 0 0 (posed 0 (l_bodyY ?l) 0)) (vec 0 (13 / 10) (- 15 / 100)) \<in> points place ?body"
    by (rule points_child [rotated]) (simp add: bodyParts_def)
  moreover have "?body \<in> set ((if pm_isBot p then snowman else figureParts p) @ [nameSprite str p, chatSprite p])"
    using assms by (simp add: figureParts_def Let_def)
  ultimately show ?thesis
    unfolding hatBall_def playerObject_def Let_def using points_child [of ?body _ _ place] by (metis place_flags(3))
qed

theorem drawn_figure_is_hit_witness:
  "upright (ex_player (vec 1 2 3)) \<and> hatBall (ex_player (vec 1 2 3)) \<in> points place (playerObject (\<lambda>_. []) [] (ex_player (vec 1 2 3))) \<and>
   intersectsPlayerCylinder (hatBall (ex_player (vec 1 2 3))) (vec 1 2 3)"
proof -
  have u: "upright (ex_player (vec 1 2 3))" by (simp add: upright_def ex_player_def restLimbs_upright)
  have "three_place place" by (simp add: three_place_def)
  moreover have h: "hatBall (ex_player (vec 1 2 3)) \<in> points place (playerObject (\<lambda>_. []) [] (ex_player (vec 1 2 3)))"
    by (rule hatBall_drawn) (simp add: ex_player_def)
  ultimately have "intersectsPlayerCylinder (hatBall (ex_player (vec 1 2 3))) (pm_pos (ex_player (vec 1 2 3)))"
    using drawn_figure_is_hit [OF _ u] by blast
  then show ?thesis using u h by (simp add: ex_player_def)
qed

text \<open>
  A crouching player leans out of the cylinder: the drawn head is more than 0.9 in front of the feet,
  and a snowball through it is not a hit.
\<close>

lemma sin_lean: "7 / 10 \<le> sin (8 / 10 :: real)"
proof -
  have "\<bar>sin (8 / 10 :: real) - (\<Sum>m<5. sin_coeff m * (8 / 10) ^ m)\<bar> \<le> inverse (fact 5) * \<bar>8 / 10\<bar> ^ 5"
    by (rule Maclaurin_sin_bound)
  moreover have "(\<Sum>m<5. sin_coeff m * (8 / 10) ^ m) = (268 / 375 :: real)"
    by (simp add: sin_coeff_def lessThan_nat_numeral fact_numeral power_divide)
  moreover have "inverse (fact 5) * \<bar>8 / 10\<bar> ^ 5 \<le> (1 / 100 :: real)" by (simp add: fact_numeral power_divide)
  ultimately show ?thesis by linarith
qed

lemma crouched_head_not_hit:
  assumes "\<not> pm_isBot p" "pm_rotX p = 0" "l_bodyLean (pm_limbs p) = - (8 / 10)"
  shows "hatBall p \<in> points place (playerObject str snowman p) \<and> \<not> intersectsPlayerCylinder (hatBall p) (pm_pos p)"
proof -
  let ?q = "place (turned (- (8 / 10)) 0 0 (posed 0 (l_bodyY (pm_limbs p)) 0)) (vec 0 (13 / 10) (- 15 / 100))"
  have "0 \<le> cos (8 / 10 :: real)" using pi_ge_two by (intro cos_ge_zero) auto
  then have z: "91 / 100 \<le> - vz ?q" and x: "vx ?q = 0"
    using sin_lean by (simp_all add: place_turned turnX_def turnY_def turnZ_def Let_def)
  have h: "hatBall p = vec (vx (turnY (pm_rotY p) ?q) + vx (pm_pos p)) (vy ?q + vy (pm_pos p)) (vz (turnY (pm_rotY p) ?q) + vz (pm_pos p))"
    unfolding hatBall_def Let_def assms(2,3) by (simp add: place_turned [of 0] turnX_def turnY_def turnZ_def Let_def)
  have "(91 / 100)\<^sup>2 \<le> (- vz ?q)\<^sup>2" by (rule power_mono) (use z in simp_all)
  then have "(9 / 10)\<^sup>2 < (vx (turnY (pm_rotY p) ?q))\<^sup>2 + (vz (turnY (pm_rotY p) ?q))\<^sup>2"
    unfolding turnY_cylinder x by (simp add: power2_eq_square)
  then have "\<not> intersectsPlayerCylinder (hatBall p) (pm_pos p)" unfolding intersects_iff h by simp
  then show ?thesis using hatBall_drawn [OF assms(1)] by blast
qed

end
