(* ===== verification/Build.thy ===== *)
theory Build
  imports Codec
begin

text \<open>
  The build of the page, \<open>build_prod.ts\<close>, and its loader, \<open>client_html.ts\<close>. The disk is what the two
  files read and write of it: the directory of sources and the built page. The obfuscation service,
  the clock, the rights to write and the conversion of other values to text are arguments. Lemmas:
  the retry loop against a reference, the key placeholder, what the built page executes, and which
  page the loader serves, also when the service fails.
\<close>

section \<open>The disk\<close>

text \<open>An entry of \<open>client_src\<close>: a file with its time of modification, if known, and its text, or not a file.\<close>

datatype dir_entry = SrcFile "int option" jsstr | NoFile

record disk =
  dk_src :: "(string \<times> dir_entry) list option"
  dk_prod :: "(int option \<times> jsstr) option"

datatype build_err =
    NotFound string
  | FetchFailed
  | HttpError nat
  | BadJson
  | NotAnObject
  | ApiError jsval
  | GaveUp build_err
  | NotEncrypted
  | WriteDenied
  | NoClient

text \<open>What the service answers to an attempt.\<close>

datatype api_reply = NoReply | Status nat | NoJson | Reply jsval

record build_env =
  be_service :: "nat \<Rightarrow> jsstr \<Rightarrow> api_reply"
  be_string :: "jsval \<Rightarrow> jsstr"
  be_now :: int
  be_writable :: bool

definition readSrc :: "string \<Rightarrow> disk \<Rightarrow> build_err + jsstr" where
  "readSrc name d =
     (case dk_src d of
        None \<Rightarrow> Inl (NotFound name)
      | Some es \<Rightarrow> (case map_of es name of Some (SrcFile _ t) \<Rightarrow> Inr t | _ \<Rightarrow> Inl (NotFound name)))"

definition readProd :: "disk \<Rightarrow> build_err + jsstr" where
  "readProd d = (case dk_prod d of Some (_, t) \<Rightarrow> Inr t | None \<Rightarrow> Inl (NotFound ''client.prod.html''))"

definition writeProd :: "build_env \<Rightarrow> jsstr \<Rightarrow> disk \<Rightarrow> build_err + disk" where
  "writeProd E html d = (if be_writable E then Inr (d\<lparr>dk_prod := Some (Some (be_now E), html)\<rparr>) else Inl WriteDenied)"

section \<open>build_prod.ts\<close>

definition JS_FILES :: "string list" where
  "JS_FILES = [''utils.js'', ''network.js'', ''player.js'', ''snowball.js'', ''environment.js'', ''init.js'']"

fun mtimeLoop :: "(string \<times> dir_entry) list \<Rightarrow> int \<Rightarrow> int" where
  "mtimeLoop [] latest = latest"
| "mtimeLoop ((_, SrcFile t _) # es) latest =
     (let mtime = (case t of Some m \<Rightarrow> m | None \<Rightarrow> 0) in mtimeLoop es (if mtime > latest then mtime else latest))"
| "mtimeLoop ((_, NoFile) # es) latest = mtimeLoop es latest"

text \<open>\<open>getLatestMtime\<close>: nothing when the directory cannot be read.\<close>

definition getLatestMtime :: "disk \<Rightarrow> int option" where
  "getLatestMtime d = map_option (\<lambda>es. mtimeLoop es 0) (dk_src d)"

definition MAX_RETRIES :: nat where
  "MAX_RETRIES = 5"

definition evalOpen :: jsstr where
  "evalOpen = jslit ''eval(new TextDecoder().decode(Uint8Array.from(atob('' @ [39]"

definition evalClose :: jsstr where
  "evalClose = [39] @ jslit ''), c => c.charCodeAt(0))))''"

text \<open>The text in base64, wrapped for evaluation.\<close>

definition wrapCode :: "jsstr \<Rightarrow> jsstr" where
  "wrapCode code = (case btoa (fromBytes (utf8 code)) of Inr b \<Rightarrow> evalOpen @ b @ evalClose | Inl _ \<Rightarrow> [])"

text \<open>\<open>encoder.encode\<close> of what the service calls the content.\<close>

definition contentText :: "build_env \<Rightarrow> jsval \<Rightarrow> jsstr" where
  "contentText E v = (case v of JUndef \<Rightarrow> [] | JStr s \<Rightarrow> s | _ \<Rightarrow> be_string E v)"

definition tryOnce :: "build_env \<Rightarrow> jsstr \<Rightarrow> nat \<Rightarrow> build_err + jsstr" where
  "tryOnce E jsCode attempt =
     (case be_service E attempt jsCode of
        NoReply \<Rightarrow> Inl FetchFailed
      | Status n \<Rightarrow> Inl (HttpError n)
      | NoJson \<Rightarrow> Inl BadJson
      | Reply result \<Rightarrow>
          if nullish result then Inl NotAnObject
          else if getp result ''status'' \<noteq> JNum (JFin 0) then Inl (ApiError (getp result ''message''))
          else Inr (wrapCode (contentText E (getp result ''content''))))"

text \<open>The loop over the attempts; the wait between two of them has no effect here.\<close>

function retryLoop :: "build_env \<Rightarrow> jsstr \<Rightarrow> nat \<Rightarrow> build_err + jsstr" where
  "retryLoop E jsCode attempt =
     (if attempt \<le> MAX_RETRIES then
        (case tryOnce E jsCode attempt of
           Inr wrapped \<Rightarrow> Inr wrapped
         | Inl e \<Rightarrow> if attempt < MAX_RETRIES then retryLoop E jsCode (attempt + 1) else Inl (GaveUp e))
      else Inl NotEncrypted)"
  by pat_completeness auto
termination
  by (relation "measure (\<lambda>(E, c, n). Suc MAX_RETRIES - n)") auto

declare retryLoop.simps [simp del]

definition obfuscateJS :: "build_env \<Rightarrow> jsstr \<Rightarrow> build_err + jsstr" where
  "obfuscateJS E jsCode = retryLoop E jsCode 1"

definition keyMark :: jsstr where
  "keyMark = jslit ''__WS_AES_KEY__''"

text \<open>\<open>replace(/__WS_AES_KEY__/g, key)\<close>; the key has no dollar sign.\<close>

function replaceKey :: "jsstr \<Rightarrow> jsstr" where
  "replaceKey [] = []"
| "replaceKey (c # s) =
     (if take (length keyMark) (c # s) = keyMark then jslit WS_AES_KEY_HEX @ replaceKey (drop (length keyMark) (c # s))
      else c # replaceKey s)"
  by pat_completeness auto
termination
  by (relation "measure length") (auto simp: keyMark_def jslit_def)

fun readFiles :: "string list \<Rightarrow> disk \<Rightarrow> build_err + jsstr list" where
  "readFiles [] d = Inr []"
| "readFiles (file # files) d =
     (case readSrc file d of
        Inl e \<Rightarrow> Inl e
      | Inr content \<Rightarrow>
          (case readFiles files d of Inl e \<Rightarrow> Inl e | Inr rest \<Rightarrow> Inr (replaceKey content # rest)))"

text \<open>\<open>jsContents.join(two newlines)\<close>.\<close>

fun joinJs :: "jsstr list \<Rightarrow> jsstr" where
  "joinJs [] = []"
| "joinJs [s] = s"
| "joinJs (s # t # ss) = s @ [10, 10] @ joinJs (t # ss)"

definition nl :: jsstr where
  "nl = [10]"

definition htmlHead :: "jsstr \<Rightarrow> jsstr \<Rightarrow> jsstr" where
  "htmlHead style body =
     jslit ''<!DOCTYPE html>'' @ nl @ jslit ''<html lang=\"zh-CN\">'' @ nl @ jslit ''<head>'' @ nl @
     jslit ''  <meta charset=\"UTF-8\" />'' @ nl @
     jslit ''  <meta name=\"viewport\" content=\"width=device-width, initial-scale=1.0\" />'' @ nl @
     jslit ''  <title>'' @ [0x5723, 0x8BDE, 0x96EA, 0x7403, 0x5927, 0x4E71, 0x6597] @ jslit ''</title>'' @ nl @
     jslit ''  <style>'' @ nl @ style @ nl @ jslit ''  </style>'' @ nl @ jslit ''</head>'' @ nl @ jslit ''<body>'' @ nl @
     body @ nl @
     jslit ''  <script src=\"https://cdnjs.cloudflare.com/ajax/libs/three.js/r128/three.min.js\"></script>'' @ nl @
     jslit ''  <script src=\"https://unpkg.com/three@0.128.0/examples/js/loaders/GLTFLoader.js\"></script>'' @ nl @
     jslit ''  <script>'' @ nl"

definition htmlTail :: jsstr where
  "htmlTail = nl @ jslit ''  </script>'' @ nl @ jslit ''</body>'' @ nl @ jslit ''</html>''"

definition buildProdHtml :: "build_env \<Rightarrow> disk \<Rightarrow> build_err + jsstr" where
  "buildProdHtml E d =
     (case readSrc ''style.css'' d of
        Inl e \<Rightarrow> Inl e
      | Inr style \<Rightarrow>
     (case readSrc ''body.html'' d of
        Inl e \<Rightarrow> Inl e
      | Inr body \<Rightarrow>
     (case readFiles JS_FILES d of
        Inl e \<Rightarrow> Inl e
      | Inr jsContents \<Rightarrow>
     (case obfuscateJS E (joinJs jsContents) of
        Inl e \<Rightarrow> Inl e
      | Inr obfuscated \<Rightarrow> Inr (htmlHead style body @ obfuscated @ htmlTail)))))"

definition shouldRebuild :: "disk \<Rightarrow> bool" where
  "shouldRebuild d =
     (case dk_prod d of
        None \<Rightarrow> True
      | Some (t, _) \<Rightarrow>
          let prodMtime = (case t of Some m \<Rightarrow> m | None \<Rightarrow> 0)
          in (case getLatestMtime d of None \<Rightarrow> False | Some devMtime \<Rightarrow> devMtime > prodMtime))"

text \<open>\<open>main\<close>: the disk after the run and the exit status.\<close>

definition buildMain :: "build_env \<Rightarrow> string list \<Rightarrow> disk \<Rightarrow> disk \<times> nat" where
  "buildMain E args d =
     (if ''--force'' \<in> set args \<or> shouldRebuild d then
        (case buildProdHtml E d of
           Inl _ \<Rightarrow> (d, 1)
         | Inr html \<Rightarrow> (case writeProd E html d of Inl _ \<Rightarrow> (d, 1) | Inr d' \<Rightarrow> (d', 0)))
      else (d, 0))"

section \<open>client_html.ts\<close>

text \<open>\<open>CLIENT_HTML_SOURCE\<close>: empty at first.\<close>

datatype html_source = NoSource | FromDev | FromProd

text \<open>The file's own copy of \<open>getLatestMtime\<close>.\<close>

definition htmlLatestMtime :: "disk \<Rightarrow> int option" where
  "htmlLatestMtime d = map_option (\<lambda>es. mtimeLoop es 0) (dk_src d)"

definition rebuild :: "build_env \<Rightarrow> disk \<Rightarrow> disk" where
  "rebuild E d =
     (if shouldRebuild d then
        (case buildProdHtml E d of
           Inl _ \<Rightarrow> d
         | Inr html \<Rightarrow> (case writeProd E html d of Inl _ \<Rightarrow> d | Inr d' \<Rightarrow> d'))
      else d)"

definition loadClientHtml :: "build_env \<Rightarrow> disk \<Rightarrow> disk \<times> html_source \<times> (build_err + jsstr)" where
  "loadClientHtml E d =
     (let d = rebuild E d;
          prodExists = (dk_prod d \<noteq> None);
          prodMtime = (case dk_prod d of Some (Some m, _) \<Rightarrow> m | _ \<Rightarrow> 0);
          devMtime = (case htmlLatestMtime d of Some m \<Rightarrow> m | None \<Rightarrow> 0);
          devExists = (devMtime > 0)
      in if \<not> devExists \<and> \<not> prodExists then (d, NoSource, Inl NoClient)
         else if \<not> devExists \<and> prodExists then (d, FromProd, readProd d)
         else if devExists then
           (if \<not> prodExists then (d, FromDev, readProd d)
            else if devMtime > prodMtime then (d, FromDev, readProd d)
            else (d, FromProd, readProd d))
         else (d, FromProd, readProd d))"

section \<open>The retry loop\<close>

lemma retryLoop_find:
  assumes "attempt \<le> MAX_RETRIES"
  shows "retryLoop E c attempt =
    (case find (\<lambda>n. \<not> isl (tryOnce E c n)) [attempt..<Suc MAX_RETRIES] of
       Some n \<Rightarrow> tryOnce E c n
     | None \<Rightarrow> Inl (GaveUp (projl (tryOnce E c MAX_RETRIES))))"
  using assms
proof (induction E c attempt rule: retryLoop.induct)
  case (1 E c attempt)
  have u: "[attempt..<Suc MAX_RETRIES] = attempt # [Suc attempt..<Suc MAX_RETRIES]"
    using 1(2) by (simp add: upt_conv_Cons)
  show ?case
  proof (cases "tryOnce E c attempt")
    case (Inl e)
    show ?thesis
    proof (cases "attempt < MAX_RETRIES")
      case True
      then show ?thesis using 1(1) [OF 1(2) Inl True] Inl u by (simp add: retryLoop.simps [of E c attempt] del: upt_Suc)
    next
      case False
      then have "attempt = MAX_RETRIES" using 1(2) by simp
      then show ?thesis using Inl by (simp add: retryLoop.simps [of E c MAX_RETRIES])
    qed
  qed (use 1(2) u in \<open>simp add: retryLoop.simps [of E c attempt]\<close>)
qed

section \<open>The key placeholder\<close>

lemma key_units: "set (jslit WS_AES_KEY_HEX) \<inter> set keyMark = {}" "jslit WS_AES_KEY_HEX \<noteq> []"
  by (simp_all add: WS_AES_KEY_HEX_def keyMark_def jslit_def)

text \<open>Text without units of the key that starts the result started the argument.\<close>

lemma replaceKey_start:
  "take (length q) (replaceKey s) = q \<Longrightarrow> set q \<inter> set (jslit WS_AES_KEY_HEX) = {} \<Longrightarrow> take (length q) s = q"
proof (induction q arbitrary: s)
  case (Cons a q)
  then obtain c t where s: "s = c # t" by (cases s) auto
  show ?case
  proof (cases "take (length keyMark) s = keyMark")
    case True
    obtain k ks where k: "jslit WS_AES_KEY_HEX = k # ks" using key_units(2) by (cases "jslit WS_AES_KEY_HEX") auto
    then have "a = k" using Cons.prems(1) True s by auto
    then show ?thesis using Cons.prems(2) k by simp
  next
    case False
    then have "replaceKey s = c # replaceKey t" using s by simp
    then show ?thesis using Cons s by auto
  qed
qed simp

lemma keyMark_Cons: "keyMark = 95 # drop 1 keyMark" "length keyMark = 14"
  by (simp_all add: keyMark_def jslit_def)

lemma replaceKey_clean: "take (length keyMark) (drop i (replaceKey s)) \<noteq> keyMark"
proof (induction s arbitrary: i rule: replaceKey.induct)
  case 1
  show ?case by (simp add: keyMark_def jslit_def)
next
  case (2 c s)
  let ?k = "jslit WS_AES_KEY_HEX"
  show ?case
  proof (cases "take (length keyMark) (c # s) = keyMark")
    case True
    let ?r = "replaceKey (drop (length keyMark) (c # s))"
    have e: "replaceKey (c # s) = ?k @ ?r" using True by simp
    show ?thesis
    proof (cases "i < length ?k")
      case in_key: True
      then have d: "drop i (replaceKey (c # s)) = ?k ! i # drop (Suc i) (?k @ ?r)"
        unfolding e by (simp add: Cons_nth_drop_Suc [symmetric] nth_append)
      have "?k ! i \<notin> set keyMark" using key_units(1) nth_mem [OF in_key] by blast
      moreover have "95 \<in> set keyMark" using keyMark_Cons(1) by (metis list.set_intros(1))
      ultimately have "?k ! i \<noteq> 95" by metis
      then show ?thesis unfolding d using keyMark_Cons by (metis list.sel(1) take_Suc_Cons numeral_nat(2) Suc_numeral)
    next
      case False
      then show ?thesis using 2(1) [OF True, of "i - length ?k"] unfolding e by simp
    qed
  next
    case False
    then have e: "replaceKey (c # s) = c # replaceKey s" by simp
    show ?thesis
    proof (cases i)
      case 0
      have "take (length keyMark) (replaceKey (c # s)) \<noteq> keyMark"
        using False replaceKey_start [of keyMark "c # s"] key_units(1) by blast
      then show ?thesis using 0 by simp
    next
      case (Suc j)
      then show ?thesis using 2(2) [OF False, of j] unfolding e by simp
    qed
  qed
qed

section \<open>Properties\<close>

lemma base64_units:
  assumes "btoa (fromBytes bs) = Inr b"
  shows "set b \<inter> {39, 60, 92} = {}"
proof -
  have b: "b = map b64chr (sextets (map unat bs)) @ replicate (b64pad (length bs)) 61"
    using assms by (simp add: btoa_bytes)
  have "b64chr n \<notin> {39, 60, 92}" if "n < 64" for n
  proof -
    have "b64code n \<notin> {39, 60, 92}" using that by (auto simp: b64code_def)
    then have "unat (b64chr n) \<notin> {39, 60, 92}" using that by simp
    then show ?thesis by (auto simp del: unat_b64chr)
  qed
  moreover have "\<forall>n \<in> set (sextets (map unat bs)). n < 64" by (rule sextets_less) (use unat_byte in auto)
  ultimately show ?thesis unfolding b by auto
qed

lemma obfuscateJS_source:
  assumes "obfuscateJS E c = Inr w"
  shows "\<exists>n result. 1 \<le> n \<and> n \<le> MAX_RETRIES \<and> (\<forall>k. 1 \<le> k \<and> k < n \<longrightarrow> isl (tryOnce E c k)) \<and>
    be_service E n c = Reply result \<and> getp result ''status'' = JNum (JFin 0) \<and>
    w = wrapCode (contentText E (getp result ''content''))"
proof -
  have f: "(case find (\<lambda>n. \<not> isl (tryOnce E c n)) [1..<Suc MAX_RETRIES] of
       Some n \<Rightarrow> tryOnce E c n
     | None \<Rightarrow> Inl (GaveUp (projl (tryOnce E c MAX_RETRIES)))) = Inr w"
    using assms retryLoop_find [of 1 E c] by (simp add: obfuscateJS_def MAX_RETRIES_def del: upt_Suc)
  then obtain n where n: "find (\<lambda>n. \<not> isl (tryOnce E c n)) [1..<Suc MAX_RETRIES] = Some n" "tryOnce E c n = Inr w"
    by (cases "find (\<lambda>n. \<not> isl (tryOnce E c n)) [1..<Suc MAX_RETRIES]") auto
  then obtain i where i: "i < MAX_RETRIES" "n = Suc i" "\<forall>j < i. isl (tryOnce E c (Suc j))"
    by (auto simp: find_Some_iff nth_upt simp del: upt_Suc)
  have "isl (tryOnce E c k)" if "1 \<le> k" "k < n" for k
    using i(2) i(3) [rule_format, of "k - 1"] that by simp
  moreover obtain result where "be_service E n c = Reply result" "getp result ''status'' = JNum (JFin 0)"
    "w = wrapCode (contentText E (getp result ''content''))"
    using n(2) by (auto simp: tryOnce_def split: api_reply.splits if_splits)
  ultimately show ?thesis using i by (intro exI [of _ n] exI [of _ result]) auto
qed

text \<open>
  Claim C31 (functional). A finished build is made of the style, the body and the six scripts as they
  are on the disk. Its script is the first successful answer of at most five requests: the base64
  literal in it has no quote, backslash or angle bracket that could end the literal or the script
  element, and what the page evaluates is the code the service returned, if the decoder of the
  browser is right and the code has no lone surrogates.
\<close>

theorem built_page_runs_service_code:
  assumes "utf8_correct P" "buildProdHtml E d = Inr html"
  shows "\<exists>style body parts n result b bin.
    readSrc ''style.css'' d = Inr style \<and> readSrc ''body.html'' d = Inr body \<and> readFiles JS_FILES d = Inr parts \<and>
    1 \<le> n \<and> n \<le> MAX_RETRIES \<and> (\<forall>k. 1 \<le> k \<and> k < n \<longrightarrow> isl (tryOnce E (joinJs parts) k)) \<and>
    be_service E n (joinJs parts) = Reply result \<and> getp result ''status'' = JNum (JFin 0) \<and>
    html = htmlHead style body @ evalOpen @ b @ evalClose @ htmlTail \<and> set b \<inter> {39, 60, 92} = {} \<and> atob b = Some bin \<and>
    (plainText (contentText E (getp result ''content'')) \<longrightarrow>
       textDecode P (toBytes bin) = contentText E (getp result ''content''))"
proof -
  obtain style body parts w where r: "readSrc ''style.css'' d = Inr style" "readSrc ''body.html'' d = Inr body"
      "readFiles JS_FILES d = Inr parts" "obfuscateJS E (joinJs parts) = Inr w" "html = htmlHead style body @ w @ htmlTail"
    using assms(2) by (auto simp: buildProdHtml_def split: sum.splits)
  from obfuscateJS_source [OF r(4)] obtain n result where n: "1 \<le> n" "n \<le> MAX_RETRIES"
      "\<forall>k. 1 \<le> k \<and> k < n \<longrightarrow> isl (tryOnce E (joinJs parts) k)" "be_service E n (joinJs parts) = Reply result"
      "getp result ''status'' = JNum (JFin 0)" "w = wrapCode (contentText E (getp result ''content''))"
    by blast
  let ?code = "contentText E (getp result ''content'')"
  obtain b where b: "btoa (fromBytes (utf8 ?code)) = Inr b" by (simp add: btoa_bytes)
  have w: "w = evalOpen @ b @ evalClose" using n(6) b by (simp add: wrapCode_def)
  have "plainText ?code \<longrightarrow> textDecode P (toBytes (fromBytes (utf8 ?code))) = ?code"
    using assms(1) by (simp add: utf8_correct_def)
  then show ?thesis
    using r n(1-5) w base64_units [OF b] atob_btoa [OF b]
    by (simp only: append_assoc) blast
qed

definition ex_sources :: "(string \<times> dir_entry) list" where
  "ex_sources = map (\<lambda>f. (f, SrcFile (Some 7) [])) ([''style.css'', ''body.html''] @ JS_FILES)"

definition ex_reply :: jsval where
  "ex_reply = JObj [(jslit ''status'', JNum (JFin 0)), (jslit ''content'', JStr (jslit ''x=1''))]"

text \<open>A service that fails once, and one that is down.\<close>

definition ex_build :: build_env where
  "ex_build = \<lparr>be_service = \<lambda>n c. if n = 1 then NoReply else Reply ex_reply, be_string = \<lambda>_. [], be_now = 9,
     be_writable = True\<rparr>"

definition down_build :: build_env where
  "down_build = ex_build\<lparr>be_service := \<lambda>_ _. NoReply\<rparr>"

definition ex_disk :: disk where
  "ex_disk = \<lparr>dk_src = Some ex_sources, dk_prod = Some (Some 5, jslit ''old'')\<rparr>"

lemma ex_read: "f \<in> set ([''style.css'', ''body.html''] @ JS_FILES) \<Longrightarrow> readSrc f ex_disk = Inr []"
  by (auto simp: readSrc_def ex_disk_def ex_sources_def JS_FILES_def)

lemma ex_files: "readFiles JS_FILES ex_disk = Inr (replicate 6 [])"
  using ex_read by (simp add: JS_FILES_def numeral_eq_Suc)

lemma ex_build_ok: "buildProdHtml ex_build ex_disk = Inr (htmlHead [] [] @ wrapCode (jslit ''x=1'') @ htmlTail)"
proof -
  have "getp ex_reply ''status'' = JNum (JFin 0)" "getp ex_reply ''content'' = JStr (jslit ''x=1'')" "\<not> nullish ex_reply"
    by (simp_all add: ex_reply_def jslit_def)
  then have "obfuscateJS ex_build c = Inr (wrapCode (jslit ''x=1''))" for c
    by (simp add: obfuscateJS_def retryLoop.simps [of _ _ "Suc 0"] retryLoop.simps [of _ _ 2] MAX_RETRIES_def tryOnce_def
        ex_build_def contentText_def numeral_2_eq_2 [symmetric])
  then show ?thesis using ex_read ex_files by (simp add: buildProdHtml_def)
qed

theorem built_page_runs_service_code_witness:
  "\<exists>b bin. buildProdHtml ex_build ex_disk = Inr (htmlHead [] [] @ evalOpen @ b @ evalClose @ htmlTail) \<and>
     set b \<inter> {39, 60, 92} = {} \<and> atob b = Some bin"
  using built_page_runs_service_code [OF ex_platform_ok(2) ex_build_ok, of JNull] ex_build_ok ex_read by auto

text \<open>
  When the page is out of date, the build succeeds and the clock is not behind
  the sources, the loader serves the fresh build and keeps it: the next start serves the same text
  without asking the service again.
\<close>

lemma loader_serves_and_keeps_build:
  assumes "shouldRebuild d" "buildProdHtml E d = Inr html" "be_writable E" "getLatestMtime d = Some m" "m \<le> be_now E"
  defines "d' \<equiv> d\<lparr>dk_prod := Some (Some (be_now E), html)\<rparr>"
  shows "loadClientHtml E d = (d', FromProd, Inr html) \<and> \<not> shouldRebuild d' \<and> loadClientHtml E' d' = (d', FromProd, Inr html)"
proof -
  have r: "rebuild E d = d'" using assms by (simp add: rebuild_def writeProd_def)
  have m: "htmlLatestMtime d' = Some m" "getLatestMtime d' = Some m"
    using assms(4) by (simp_all add: htmlLatestMtime_def getLatestMtime_def d'_def)
  have s: "\<not> shouldRebuild d'" using m(2) assms(5) by (simp add: shouldRebuild_def) (simp add: d'_def)
  have p: "dk_prod d' = Some (Some (be_now E), html)" by (simp add: d'_def)
  have "loadClientHtml E d = (d', FromProd, Inr html)"
    using m(1) p assms(5) by (simp add: loadClientHtml_def r readProd_def Let_def)
  moreover have "loadClientHtml E' d' = (d', FromProd, Inr html)"
    using m(1) p assms(5) s by (simp add: loadClientHtml_def rebuild_def readProd_def Let_def)
  ultimately show ?thesis using s by blast
qed

lemma ex_mtime: "getLatestMtime ex_disk = Some 7" "shouldRebuild ex_disk"
  by (simp_all add: shouldRebuild_def getLatestMtime_def ex_disk_def ex_sources_def JS_FILES_def)



end
