(* ===== verification/Collision_Report.thy ===== *)
theory Collision_Report
  imports Prelude "HOL-Library.List_Lexorder"
begin

text \<open>
  The inspection script \<open>scripts/inspect_kenney_collision.ts\<close>: for every model file the bounding box of
  its vertices, the box widened by the radius of a player and the box shrunk by a margin, which is
  the rule the client uses for its obstacles. Reading a model is an argument. The script starts its
  boxes at infinity, so numbers are those of the language; printing is left out. Lemmas: the loops
  compute the exact bounds of all vertices, and the three boxes are nested.
\<close>

section \<open>Numbers\<close>

fun numLess :: "jsnum \<Rightarrow> jsnum \<Rightarrow> bool" where
  "numLess (JFin a) (JFin b) \<longleftrightarrow> a < b"
| "numLess JNaN _ \<longleftrightarrow> False"
| "numLess _ JNaN \<longleftrightarrow> False"
| "numLess JPosInf _ \<longleftrightarrow> False"
| "numLess _ JNegInf \<longleftrightarrow> False"
| "numLess _ _ \<longleftrightarrow> True"

fun numAdd :: "jsnum \<Rightarrow> jsnum \<Rightarrow> jsnum" where
  "numAdd (JFin a) (JFin b) = JFin (a + b)"
| "numAdd JNaN _ = JNaN"
| "numAdd _ JNaN = JNaN"
| "numAdd JPosInf JNegInf = JNaN"
| "numAdd JNegInf JPosInf = JNaN"
| "numAdd JPosInf _ = JPosInf"
| "numAdd _ JPosInf = JPosInf"
| "numAdd JNegInf _ = JNegInf"
| "numAdd _ JNegInf = JNegInf"

fun numNeg :: "jsnum \<Rightarrow> jsnum" where
  "numNeg (JFin a) = JFin (- a)"
| "numNeg JPosInf = JNegInf"
| "numNeg JNegInf = JPosInf"
| "numNeg JNaN = JNaN"

definition numSub :: "jsnum \<Rightarrow> jsnum \<Rightarrow> jsnum" where
  "numSub a b = numAdd a (numNeg b)"

text \<open>Half of a number.\<close>

fun numHalf :: "jsnum \<Rightarrow> jsnum" where
  "numHalf (JFin a) = JFin (a * (5 / 10))"
| "numHalf n = n"

text \<open>\<open>Math.max\<close>.\<close>

definition numMax :: "jsnum \<Rightarrow> jsnum \<Rightarrow> jsnum" where
  "numMax a b = (if a = JNaN \<or> b = JNaN then JNaN else if numLess a b then b else a)"

section \<open>Boxes\<close>

record nvec =
  nx :: jsnum
  ny :: jsnum
  nz :: jsnum

record nbox =
  nb_min :: nvec
  nb_max :: nvec

definition emptyBox :: nbox where
  "emptyBox = \<lparr>nb_min = \<lparr>nx = JPosInf, ny = JPosInf, nz = JPosInf\<rparr>, nb_max = \<lparr>nx = JNegInf, ny = JNegInf, nz = JNegInf\<rparr>\<rparr>"

definition lower :: "jsnum \<Rightarrow> jsnum \<Rightarrow> jsnum" where
  "lower m x = (if numLess x m then x else m)"

definition raise :: "jsnum \<Rightarrow> jsnum \<Rightarrow> jsnum" where
  "raise m x = (if numLess m x then x else m)"

text \<open>A box taken to hold another one, component by component; a vertex is a box of its own.\<close>

definition grow :: "nbox \<Rightarrow> nbox \<Rightarrow> nbox" where
  "grow b c =
     \<lparr>nb_min = \<lparr>nx = lower (nx (nb_min b)) (nx (nb_min c)), ny = lower (ny (nb_min b)) (ny (nb_min c)),
                nz = lower (nz (nb_min b)) (nz (nb_min c))\<rparr>,
      nb_max = \<lparr>nx = raise (nx (nb_max b)) (nx (nb_max c)), ny = raise (ny (nb_max b)) (ny (nb_max c)),
                nz = raise (nz (nb_max b)) (nz (nb_max c))\<rparr>\<rparr>"

text \<open>The loop over the positions of a primitive.\<close>

fun primLoop :: "nvec list \<Rightarrow> nbox \<Rightarrow> nbox" where
  "primLoop [] b = b"
| "primLoop (v # vs) b = primLoop vs (grow b \<lparr>nb_min = v, nb_max = v\<rparr>)"

text \<open>
  The loop over the primitives of a mesh: one without positions is skipped; its box is kept and
  the overall box grows.
\<close>

fun primsLoop :: "nvec list option list \<Rightarrow> nbox list \<times> nbox \<Rightarrow> nbox list \<times> nbox" where
  "primsLoop [] st = st"
| "primsLoop (None # ps) st = primsLoop ps st"
| "primsLoop (Some vs # ps) st =
     (let box = primLoop vs emptyBox in primsLoop ps (fst st @ [box], grow (snd st) box))"

fun meshesLoop :: "nvec list option list list \<Rightarrow> nbox list \<times> nbox \<Rightarrow> nbox list \<times> nbox" where
  "meshesLoop [] st = st"
| "meshesLoop (m # ms) st = meshesLoop ms (primsLoop m st)"

definition boxSize :: "nbox \<Rightarrow> nvec" where
  "boxSize b =
     \<lparr>nx = numSub (nx (nb_max b)) (nx (nb_min b)), ny = numSub (ny (nb_max b)) (ny (nb_min b)),
      nz = numSub (nz (nb_max b)) (nz (nb_min b))\<rparr>"

definition playerRadius :: jsnum where
  "playerRadius = JFin (5 / 10)"

definition approxBox :: "nbox \<Rightarrow> nbox" where
  "approxBox b =
     \<lparr>nb_min = \<lparr>nx = numSub (nx (nb_min b)) playerRadius, ny = ny (nb_min b), nz = numSub (nz (nb_min b)) playerRadius\<rparr>,
      nb_max = \<lparr>nx = numAdd (nx (nb_max b)) playerRadius, ny = ny (nb_max b), nz = numAdd (nz (nb_max b)) playerRadius\<rparr>\<rparr>"

definition betterBox :: "nbox \<Rightarrow> nbox" where
  "betterBox b =
     (let margin = JFin (1 / 10);
          sizeGeom = boxSize b;
          halfX = numHalf (nx sizeGeom); halfZ = numHalf (nz sizeGeom);
          centerX = numHalf (numAdd (nx (nb_min b)) (nx (nb_max b)));
          centerZ = numHalf (numAdd (nz (nb_min b)) (nz (nb_max b)));
          shrinkHalfX = numMax (numSub halfX margin) (numHalf halfX);
          shrinkHalfZ = numMax (numSub halfZ margin) (numHalf halfZ)
      in \<lparr>nb_min = \<lparr>nx = numSub centerX shrinkHalfX, ny = ny (nb_min b), nz = numSub centerZ shrinkHalfZ\<rparr>,
          nb_max = \<lparr>nx = numAdd centerX shrinkHalfX, ny = ny (nb_max b), nz = numAdd centerZ shrinkHalfZ\<rparr>\<rparr>)"

section \<open>The report\<close>

record file_report =
  fr_boxes :: "nbox list"
  fr_union :: nbox
  fr_approx :: nbox
  fr_better :: nbox
  fr_sizes :: "nvec list"

datatype outcome = ReadFails | NoMeshes | NoPositions | Report file_report

definition inspectFile :: "nvec list option list list option \<Rightarrow> outcome" where
  "inspectFile doc =
     (case doc of
        None \<Rightarrow> ReadFails
      | Some meshes \<Rightarrow>
          if meshes = [] then NoMeshes
          else
            let (boxes, overall) = meshesLoop meshes ([], emptyBox)
            in if boxes = [] then NoPositions
               else Report \<lparr>fr_boxes = boxes, fr_union = overall, fr_approx = approxBox overall, fr_better = betterBox overall,
                      fr_sizes = [boxSize overall, boxSize (approxBox overall), boxSize (betterBox overall)]\<rparr>)"

text \<open>\<open>name.toLowerCase().endsWith(".glb")\<close>; no unit outside ASCII has one of these letters as its lower case.\<close>

definition lowerUnit :: "jschar \<Rightarrow> jschar" where
  "lowerUnit c = (if 65 \<le> c \<and> c \<le> 90 then c + 32 else c)"

definition isGlb :: "jsstr \<Rightarrow> bool" where
  "isGlb name \<longleftrightarrow> length name \<ge> 4 \<and> map lowerUnit (drop (length name - 4) name) = jslit ''.glb''"

text \<open>\<open>main\<close>: the entries of the directory, if it can be read, with a flag for files.\<close>

definition inspectMain ::
  "(jsstr \<times> bool) list option \<Rightarrow> (jsstr \<Rightarrow> nvec list option list list option) \<Rightarrow> (jsstr \<times> outcome) list option" where
  "inspectMain entries readModel =
     (case entries of
        None \<Rightarrow> None
      | Some es \<Rightarrow>
          let glbFiles = sort (map fst (filter (\<lambda>e. snd e \<and> isGlb (fst e)) es))
          in Some (map (\<lambda>file. (file, inspectFile (readModel file))) glbFiles))"

section \<open>The loops give the exact bounds\<close>

text \<open>A finite point, and the points of a document.\<close>

definition finVec :: "nvec \<Rightarrow> bool" where
  "finVec v \<longleftrightarrow> (\<exists>x y z. v = \<lparr>nx = JFin x, ny = JFin y, nz = JFin z\<rparr>)"

definition allPoints :: "nvec list option list list \<Rightarrow> nvec list" where
  "allPoints meshes = concat (map (\<lambda>p. case p of Some vs \<Rightarrow> vs | None \<Rightarrow> []) (concat meshes))"

text \<open>A lower bound that is attained, or the start value for no number at all.\<close>

lemma lower_assoc: "lower (lower a b) c = lower a (lower b c)" if "a \<noteq> JNaN" "b \<noteq> JNaN" "c \<noteq> JNaN"
  using that by (cases a; cases b; cases c) (auto simp: lower_def)

lemma raise_assoc: "raise (raise a b) c = raise a (raise b c)" if "a \<noteq> JNaN" "b \<noteq> JNaN" "c \<noteq> JNaN"
  using that by (cases a; cases b; cases c) (auto simp: raise_def)

definition clean :: "nbox \<Rightarrow> bool" where
  "clean b \<longleftrightarrow> (\<forall>n \<in> {nx (nb_min b), ny (nb_min b), nz (nb_min b), nx (nb_max b), ny (nb_max b), nz (nb_max b)}. n \<noteq> JNaN)"

lemma grow_assoc: "clean a \<Longrightarrow> clean b \<Longrightarrow> clean c \<Longrightarrow> grow (grow a b) c = grow a (grow b c)"
  by (simp add: grow_def clean_def lower_assoc raise_assoc)

lemma clean_grow: "clean a \<Longrightarrow> clean b \<Longrightarrow> clean (grow a b)"
  by (auto simp: clean_def grow_def lower_def raise_def)

lemma clean_base: "clean emptyBox" "finVec v \<Longrightarrow> clean \<lparr>nb_min = v, nb_max = v\<rparr>"
  by (auto simp: clean_def emptyBox_def finVec_def)

lemma grow_empty: "clean a \<Longrightarrow> grow a emptyBox = a"
  by (cases a; cases "nb_min a"; cases "nb_max a")
    (auto simp: grow_def emptyBox_def lower_def raise_def clean_def elim!: numLess.elims)

lemma primLoop_grow: "clean b \<Longrightarrow> \<forall>v \<in> set vs. finVec v \<Longrightarrow> primLoop vs b = grow b (primLoop vs emptyBox) \<and> clean (primLoop vs b)"
proof (induction vs arbitrary: b)
  case (Cons v vs)
  let ?v = "\<lparr>nb_min = v, nb_max = v\<rparr>"
  have v: "clean ?v" using Cons.prems by (simp add: clean_base)
  have e: "primLoop vs (grow emptyBox ?v) = grow (grow emptyBox ?v) (primLoop vs emptyBox)" "clean (primLoop vs emptyBox)"
    using Cons.IH [of "grow emptyBox ?v"] Cons.IH [of emptyBox] Cons.prems v by (auto simp: clean_grow clean_base)
  have "grow b (grow (grow emptyBox ?v) (primLoop vs emptyBox)) = grow (grow (grow b emptyBox) ?v) (primLoop vs emptyBox)"
    using Cons.prems(1) v e(2) by (simp add: grow_assoc clean_grow clean_base)
  then show ?case
    using Cons.IH [of "grow b ?v"] Cons.prems v e by (simp add: clean_grow grow_empty)
qed (simp add: grow_empty)

lemma primLoop_append: "primLoop (xs @ ys) b = primLoop ys (primLoop xs b)"
  by (induction xs arbitrary: b) simp_all

definition pointsOf :: "nvec list option list \<Rightarrow> nvec list" where
  "pointsOf ps = concat (map (\<lambda>p. case p of Some vs \<Rightarrow> vs | None \<Rightarrow> []) ps)"

lemma primsLoop_union:
  "clean b \<Longrightarrow> \<forall>v \<in> set (pointsOf ps). finVec v \<Longrightarrow> snd (primsLoop ps (bs, b)) = primLoop (pointsOf ps) b \<and>
     clean (primLoop (pointsOf ps) b)"
proof (induction ps arbitrary: bs b)
  case (Cons p ps)
  show ?case
  proof (cases p)
    case None
    then show ?thesis using Cons by (simp add: pointsOf_def)
  next
    case (Some vs)
    then have vs: "\<forall>v \<in> set vs. finVec v" using Cons.prems(2) by (simp add: pointsOf_def)
    note e = primLoop_grow [OF Cons.prems(1) vs, THEN conjunct1, symmetric] primLoop_grow [OF Cons.prems(1) vs, THEN conjunct2]
    have "\<forall>v \<in> set (pointsOf ps). finVec v" using Cons.prems(2) Some by (simp add: pointsOf_def)
    from Cons.IH [OF e(2) this] show ?thesis
      using Some e(1) by (simp add: pointsOf_def primLoop_append Let_def)
  qed
qed (simp add: pointsOf_def)

lemma meshesLoop_union:
  "clean b \<Longrightarrow> \<forall>v \<in> set (allPoints ms). finVec v \<Longrightarrow> snd (meshesLoop ms (bs, b)) = primLoop (allPoints ms) b"
proof (induction ms arbitrary: bs b)
  case (Cons m ms)
  have a: "allPoints (m # ms) = pointsOf m @ allPoints ms" by (simp add: allPoints_def pointsOf_def)
  obtain cs c where p: "primsLoop m (bs, b) = (cs, c)" by (metis surj_pair)
  then have "c = primLoop (pointsOf m) b" "clean c"
    using primsLoop_union [OF Cons.prems(1), of m bs] Cons.prems(2) by (auto simp: a)
  then show ?case using Cons.IH [of c cs] Cons.prems(2) p by (simp add: a primLoop_append)
qed (simp add: allPoints_def)

fun fin :: "jsnum \<Rightarrow> real" where
  "fin (JFin x) = x"
| "fin _ = 0"

text \<open>The bounding box of finitely many finite points.\<close>

definition boundingBox :: "nvec list \<Rightarrow> nbox" where
  "boundingBox vs =
     (let X = (\<lambda>v. fin (nx v)) ` set vs; Y = (\<lambda>v. fin (ny v)) ` set vs; Z = (\<lambda>v. fin (nz v)) ` set vs
      in \<lparr>nb_min = \<lparr>nx = JFin (Min X), ny = JFin (Min Y), nz = JFin (Min Z)\<rparr>,
          nb_max = \<lparr>nx = JFin (Max X), ny = JFin (Max Y), nz = JFin (Max Z)\<rparr>\<rparr>)"

lemma bound_fin: "lower (JFin a) (JFin b) = JFin (min b a)" "raise (JFin a) (JFin b) = JFin (max b a)"
  by (simp_all add: lower_def raise_def min_def max_def)

lemma grow_point:
  "finVec v \<Longrightarrow> vs \<noteq> [] \<Longrightarrow> grow (boundingBox vs) \<lparr>nb_min = v, nb_max = v\<rparr> = boundingBox (v # vs)"
  by (auto simp: finVec_def grow_def boundingBox_def bound_fin Let_def)

lemma boundingBox_set: "set vs = set ws \<Longrightarrow> boundingBox vs = boundingBox ws"
  by (simp add: boundingBox_def)

lemma primLoop_bounding:
  "ws \<noteq> [] \<Longrightarrow> \<forall>v \<in> set vs. finVec v \<Longrightarrow> primLoop vs (boundingBox ws) = boundingBox (vs @ ws)"
proof (induction vs arbitrary: ws)
  case (Cons v vs)
  then have "primLoop (v # vs) (boundingBox ws) = boundingBox (vs @ v # ws)" by (simp add: grow_point)
  also have "\<dots> = boundingBox ((v # vs) @ ws)" by (rule boundingBox_set) auto
  finally show ?case .
qed simp

lemma primLoop_exact: "vs \<noteq> [] \<Longrightarrow> \<forall>v \<in> set vs. finVec v \<Longrightarrow> primLoop vs emptyBox = boundingBox vs"
proof (cases vs)
  case (Cons v ws)
  assume "\<forall>v \<in> set vs. finVec v"
  then have "grow emptyBox \<lparr>nb_min = v, nb_max = v\<rparr> = boundingBox [v]" and "\<forall>v \<in> set ws. finVec v"
    using Cons by (auto simp: finVec_def grow_def boundingBox_def emptyBox_def lower_def raise_def)
  moreover have "boundingBox (ws @ [v]) = boundingBox vs" by (rule boundingBox_set) (auto simp: Cons)
  ultimately show ?thesis using primLoop_bounding [of "[v]" ws] Cons by simp
qed simp

text \<open>Containment of boxes with finite corners.\<close>

definition inBox :: "nvec \<Rightarrow> nbox \<Rightarrow> bool" where
  "inBox v b \<longleftrightarrow> fin (nx (nb_min b)) \<le> fin (nx v) \<and> fin (nx v) \<le> fin (nx (nb_max b)) \<and>
     fin (ny (nb_min b)) \<le> fin (ny v) \<and> fin (ny v) \<le> fin (ny (nb_max b)) \<and>
     fin (nz (nb_min b)) \<le> fin (nz v) \<and> fin (nz v) \<le> fin (nz (nb_max b))"

lemma boundingBox_fin:
  assumes "vs \<noteq> []"
  shows "\<exists>x x' y y' z z'. boundingBox vs = \<lparr>nb_min = \<lparr>nx = JFin x, ny = JFin y, nz = JFin z\<rparr>,
    nb_max = \<lparr>nx = JFin x', ny = JFin y', nz = JFin z'\<rparr>\<rparr> \<and> x \<le> x' \<and> y \<le> y' \<and> z \<le> z'"
proof -
  have "Min A \<le> Max A" if "finite A" "A \<noteq> {}" for A :: "real set" using that by (meson Max_ge Min_in)
  then show ?thesis using assms by (simp add: boundingBox_def Let_def)
qed

lemma shrunk_side:
  fixes lo hi :: real
  assumes "lo \<le> hi"
  defines "h \<equiv> max ((hi - lo) * (5 / 10) - 1 / 10) ((hi - lo) * (5 / 10) * (5 / 10))"
  shows "lo \<le> (lo + hi) * (5 / 10) - h \<and> (lo + hi) * (5 / 10) + h \<le> hi \<and> (lo + hi) * (5 / 10) - h \<le> (lo + hi) * (5 / 10) + h"
proof -
  have "(hi - lo) * (5 / 10) * (5 / 10) \<le> h" by (simp add: h_def)
  moreover have "h \<le> (hi - lo) * (5 / 10)"
    unfolding h_def by (rule max.boundedI) (use assms(1) in \<open>simp_all add: field_simps\<close>)
  ultimately show ?thesis using assms(1) by (simp add: field_simps)
qed

lemma numMax_fin: "numMax (JFin a) (JFin b) = JFin (max a b)"
  by (simp add: numMax_def max_def)

lemma nested_boxes:
  assumes "x \<le> x'" "y \<le> y'" "z \<le> z'"
  defines "b \<equiv> \<lparr>nb_min = \<lparr>nx = JFin x, ny = JFin y, nz = JFin z\<rparr>, nb_max = \<lparr>nx = JFin x', ny = JFin y', nz = JFin z'\<rparr>\<rparr>"
  shows "inBox (nb_min (betterBox b)) b" "inBox (nb_max (betterBox b)) b" "inBox (nb_min b) (approxBox b)"
    "inBox (nb_max b) (approxBox b)" "inBox (nb_min (betterBox b)) (betterBox b)"
  using shrunk_side [OF assms(1)] shrunk_side [OF assms(3)] assms(1-3)
  by (simp_all add: b_def inBox_def betterBox_def approxBox_def boxSize_def numSub_def playerRadius_def numMax_fin Let_def)

text \<open>
  Claim C37 (equivalence). For a model with finite positions the reported union is the exact bounding
  box of all its vertices, although the loops go over meshes and primitives and skip the empty ones.
  The shrunk box is never inverted, lies inside the union, and the union inside the widened box, so a
  point of the shrunk box is a point of both.
\<close>

theorem report_is_bounding_box:
  assumes "inspectFile (Some meshes) = Report r" "\<forall>v \<in> set (allPoints meshes). finVec v" "allPoints meshes \<noteq> []"
  shows "fr_union r = boundingBox (allPoints meshes) \<and> inBox (nb_min (fr_better r)) (fr_union r) \<and>
    inBox (nb_max (fr_better r)) (fr_union r) \<and> inBox (nb_min (fr_union r)) (fr_approx r) \<and>
    inBox (nb_max (fr_union r)) (fr_approx r) \<and> inBox (nb_min (fr_better r)) (fr_better r)"
proof -
  have u: "fr_union r = boundingBox (allPoints meshes)" "fr_better r = betterBox (fr_union r)" "fr_approx r = approxBox (fr_union r)"
    using assms(1) meshesLoop_union [OF clean_base(1) assms(2), of "[]"] primLoop_exact [OF assms(3,2)]
    by (auto simp: inspectFile_def case_prod_beta Let_def split: if_splits)
  obtain x x' y y' z z' where b: "fr_union r = \<lparr>nb_min = \<lparr>nx = JFin x, ny = JFin y, nz = JFin z\<rparr>,
      nb_max = \<lparr>nx = JFin x', ny = JFin y', nz = JFin z'\<rparr>\<rparr>" "x \<le> x'" "y \<le> y'" "z \<le> z'"
    using boundingBox_fin [OF assms(3)] u(1) by metis
  then show ?thesis using nested_boxes [OF b(2-4)] unfolding u(2,3) by (simp only: u(1) [symmetric] b(1))
qed

definition ex_model :: "nvec list option list list" where
  "ex_model = [[None, Some [\<lparr>nx = JFin 0, ny = JFin 0, nz = JFin 4\<rparr>]],
     [Some [\<lparr>nx = JFin 2, ny = JFin 1, nz = JFin 0\<rparr>], Some []]]"

theorem report_is_bounding_box_witness:
  "\<exists>r. inspectFile (Some ex_model) = Report r \<and> nx (nb_max (fr_union r)) = JFin 2 \<and> nz (nb_max (fr_union r)) = JFin 4"
proof -
  have p: "allPoints ex_model = [\<lparr>nx = JFin 0, ny = JFin 0, nz = JFin 4\<rparr>, \<lparr>nx = JFin 2, ny = JFin 1, nz = JFin 0\<rparr>]"
    by (simp add: ex_model_def allPoints_def)
  have "fst (meshesLoop ex_model ([], emptyBox)) \<noteq> []" "ex_model \<noteq> []" by (simp_all add: ex_model_def Let_def)
  then obtain r where r: "inspectFile (Some ex_model) = Report r" by (simp add: inspectFile_def case_prod_beta Let_def)
  have "\<forall>v \<in> set (allPoints ex_model). finVec v" "allPoints ex_model \<noteq> []" by (auto simp: p finVec_def)
  from report_is_bounding_box [OF r this] show ?thesis using r by (simp add: p boundingBox_def)
qed

end
