(* ===== verification/Spec2Isabelle.thy ===== *)
theory Spec2Isabelle
  imports Geometry Text_Utils Traffic_Limits Server_Runs Site Client_Figure Build Collision_Report
begin

text \<open>
  \<^bold>\<open>SnowBrawlGame: a multiplayer snowball fight in the browser, with its server.\<close>

  \<^bold>\<open>The program.\<close> A Deno server (\<open>main.ts\<close>, \<open>ws.ts\<close>, \<open>game.ts\<close>, \<open>state.ts\<close>, \<open>bot.ts\<close>, \<open>storage.ts\<close>,
  \<open>auth.ts\<close>, \<open>utils.ts\<close>, \<open>config.ts\<close>, \<open>protocol.ts\<close>) keeps the table of players, decides hits, runs the
  bots, stores kills and answers HTTP. A page (\<open>client_src/*.js\<close>) draws the world, moves its own player,
  reports it over an encrypted web socket and follows the others. \<open>build_prod.ts\<close> and \<open>client_html.ts\<close>
  build and load the page; \<open>scripts/inspect_kenney_collision.ts\<close> inspects the models.

  \<^bold>\<open>Conventions.\<close> A string is a list of 16-bit units, a value of unknown shape a \<^typ>\<open>jsval\<close>, a JavaScript
  \<open>Map\<close> an association list in insertion order, an object that is shared a reference into a heap
  (clients of the server, players and snowballs of the page). Numbers of positions and times are real
  or integer; hashes, generators and bytes are words of their width. An exception is a value of type
  \<^typ>\<open>js_err\<close>. Clock, random numbers and fresh identifiers of the server are an environment \<^typ>\<open>env\<close>
  that a counter walks along. A handler with \<open>await\<close> is cut at it: the rest is a task of the state.

  \<^bold>\<open>Theories.\<close>
  \<^item> \<open>Prelude\<close>: strings, values, maps, reachability and its invariant rule as the locale \<open>safety\<close>.
  \<^item> \<open>Protocol\<close> (\<open>config.ts\<close>, \<open>protocol.ts\<close>), \<open>Geometry\<close> and \<open>Text_Utils\<close> (\<open>utils.ts\<close>), \<open>Terrain\<close>.
  \<^item> \<open>Server_State\<close> (\<open>state.ts\<close>): event log, player table, broadcasts, limits; \<open>Traffic_Limits\<close> has their bounds.
  \<^item> \<open>Storage\<close> (\<open>storage.ts\<close>): kill records, statistics, leaderboards over the order that SQL leaves open.
  \<^item> \<open>Game\<close> (\<open>game.ts\<close>): hello, state reports, shots, hits, respawn, chat, rename; the life of a player as
    an abstract machine that hits and reports refine; who is hit by a shot.
  \<^item> \<open>Bots\<close> (\<open>bot.ts\<close>): places, targets, shots and the update loop.
  \<^item> \<open>Gateway\<close> (\<open>ws.ts\<close>): connections and the whole server as a transition system \<open>exec\<close> over labels
    (open, message, close, timers, pending tasks); its invariant \<open>winv\<close>, kept by every label.
    \<open>Server_Runs\<close>: the properties of all runs.
  \<^item> \<open>Codec\<close> (\<open>utils.ts\<close>, \<open>client_src/utils.js\<close>): base64, UTF-8, keys and frames of both sides.
  \<^item> \<open>Http\<close>: responses (\<open>json\<close> and \<open>text\<close> of \<open>utils.ts\<close>) with headers and body, form parameters.
    \<open>Auth\<close> (\<open>auth.ts\<close>): login states, session tokens and cookies, every handler under \<open>/auth\<close>.
  \<^item> \<open>Routes\<close> (\<open>main.ts\<close>): dispatch on the path, static files, statistics.
  \<^item> \<open>Client_Utils\<close> (\<open>utils.js\<close>): hash, generator, colours, identifiers, name repair, chat log.
    \<open>Client_Scene\<close> (\<open>player.js\<close>, \<open>snowball.js\<close>): frames of a player and of a snowball.
    \<open>Client_Net\<close> (\<open>network.js\<close>): messages, snapshots, events, connection, status line; the invariant \<open>players_ok\<close>.
    \<open>Client_Env\<close> (\<open>environment.js\<close>): scenery from the seed, with tree, ground, lights and snow.
    \<open>Client_Loop\<close> (\<open>init.js\<close>): login, input, music, frame; the page as a transition system \<open>pageStep\<close>.
    \<open>Client_Runs\<close>: the invariants of all runs of the page.
  \<^item> \<open>Drawing\<close>: the objects handed to the drawing library and the points they take up.
    \<open>Client_Figure\<close> (\<open>player.js\<close>): the figure of a player and its labels as such objects.
  \<^item> \<open>Site\<close>: the page and the HTTP server together, for the models it loads and for its login screen.
  \<^item> \<open>Build\<close> (\<open>build_prod.ts\<close>, \<open>client_html.ts\<close>) and \<open>Collision_Report\<close> (the inspection script).
  \<^item> This theory: properties that need server and page together.

  \<^bold>\<open>What is shown.\<close> Server: well-formed tables and messages in every reachable state, the event log as a
  gap-free window, one life machine behind hits and reports, the victim of a shot as the first contact,
  a shot counted once, limits on traffic, bots on the ground in their zone, kill statistics and
  leaderboards against their definition. Wire and login: frames and tokens round trip, tokens are
  signed, login states are used once, a login opens a session of a day that the page shows, files are
  served from one directory and the page gets the models it asks for. Page: tables that agree with
  what is drawn, remote players that arrive, a local player that stays in the world, the removal loop
  of a frame against its reference, a status line that tells the state of the connection, a drawn figure
  inside the cylinder of the server's hits, scenery that is well placed, names that are repaired. Build: what
  the page executes and which page is served, also after a failure. Here: reports of a connected page
  are inside the bounds of the server, a snapshot copies the table of the server, and an angle passes
  the server that no client can bear. Several theorems state what the code does where a comment or the
  intention says otherwise.

  \<^bold>\<open>Parameters and hypotheses.\<close> The cipher, the keyed hash, the UTF-8 decoder and JSON are the record
  \<open>platform\<close> with \<open>gcm_correct\<close> and \<open>utf8_correct\<close>; the drawing library is the record \<open>three\<close> with
  \<open>three_vectors\<close>, \<open>three_clamp\<close> and \<open>three_directions\<close>, its boxes \<open>box_lib\<close> with \<open>boxes_ok\<close>, and its poses obey \<open>three_place\<close>; the clock does not run backwards (\<open>clock_mono\<close>)
  and random numbers lie in the unit interval (\<open>rand_unit\<close>). Each has an instance that satisfies it,
  which the witnesses use. The order of rows with equal rank, the answers of the identity provider and
  of the obfuscation service, the disk and the model files are arguments.

  \<^bold>\<open>Bounds.\<close> No definition uses fuel: loops are structural or have a measure (fifty samples of a place,
  five requests of the build, the turning loops by the remaining angle, the white-space and the
  replacement loops by the length of the text). Times are exact; floating-point rounding is not modelled.

  \<^bold>\<open>Not modelled.\<close> What the renderer and the speakers make of the scene and of the music, with the constants
  that \<open>init\<close> hands to the renderer, the vertex normals, and the shadow flags of loaded meshes: nothing of
  the program reads them. Console output; mark-up and style of the page, of which the elements that the
  scripts touch are fields of the state; the text of SQL statements, of which the effect on the tables is
  modelled; formatting of the inspection script's output. They are calls of libraries or constant text.
\<close>

section \<open>Messages of a running server\<close>

definition served :: "env \<Rightarrow> server_msg \<Rightarrow> bool" where
  "served E m \<longleftrightarrow> (\<exists>w sock. reach (wstep E) (initWorld E) w \<and> (sock, m) \<in> set (outbox w))"

lemma served_ok: "clock_mono E \<Longrightarrow> rand_unit E \<Longrightarrow> served E m \<Longrightarrow> msg_ok m"
  using ginv_fields(7) [OF winvD(2) [OF reach_winv]] unfolding served_def by blast

text \<open>
  Claim C2 (safety). A page that is connected to the server is never out of bounds for it: along
  every run of the page on messages of the server, with whatever input and frame times, the only
  reason for which the server refuses a reported position is its height. The drawing library is
  assumed to add, scale and interpolate vectors and to clamp numbers as documented.
\<close>

theorem reports_accepted_by_server:
  assumes "clock_mono E" "rand_unit E" "three_vectors (br_three B)" "three_clamp (br_three B)"
    "page_reach B (served E) s" "CState p rotY vel crouch ping \<in> set (cl_sent s)"
  shows "outsideMap p \<longleftrightarrow> 5000 < \<bar>vy p\<bar>"
proof -
  have "page_reach B msg_ok s" using page_reach_mono [OF served_ok [OF assms(1,2)] assms(5)] .
  from page_reports_ok [OF assms(3,4) this] have "insideMap p" using assms(6) unfolding reports_ok_def by blast
  then show ?thesis by (auto simp: insideMap_def outsideMap_def CONFIG_def)
qed

text \<open>The server after it has answered the hello of the example run.\<close>

definition ex_answered :: world where
  "ex_answered = exec ex_env (LTask 0 (\<lambda>_. None)) (exec ex_env (LTask 0 (\<lambda>_. None)) (exec ex_env (LTask 0 (\<lambda>_. None)) ex_state))"

lemma ex_answered_reach: "reach (wstep ex_env) (initWorld ex_env) ex_answered"
  and ex_answered_sent: "\<exists>now e snap. (0, MsgWelcome ex_id (WORLD CONFIG) now (e_seed ex_env)) \<in> set (outbox ex_answered) \<and>
    (wc_ws (heap ex_state ! 0), MsgEvent e) \<in> set (outbox ex_answered) \<and> ev_of e = EvJoin snap \<and> ps_id snap = ex_id \<and>
    ps_name snap = JStr (jslit ''Ann'')"
proof -
  let ?step = "exec ex_env (LTask 0 (\<lambda>_. None))"
  obtain e now snap where t: "tasks ex_state = [TBroadcast (MsgEvent e) (KWelcome 0 now)]" "ev_of e = EvJoin snap"
      "ps_id snap = ex_id" "ps_name snap = JStr (jslit ''Ann'')"
    using ex_state_fields(4) by blast
  have 1: "tasks (?step ex_state) = [TCont (KWelcome 0 now)]" "uncaught (?step ex_state) = None"
    "conns (?step ex_state) = conns ex_state" "heap (?step ex_state) = heap ex_state"
    "(wc_ws (heap ex_state ! 0), MsgEvent e) \<in> set (outbox (?step ex_state))"
    using t ex_state_fields(1,2) by (simp_all add: broadcastLoop_def map_values_def Let_def)
  let ?w = "MsgWelcome ex_id (WORLD CONFIG) now (e_seed ex_env)"
  have 2: "\<exists>rest. tasks (?step (?step ex_state)) = TSend 0 ?w KDone # rest" "uncaught (?step (?step ex_state)) = None"
    "outbox (?step (?step ex_state)) = outbox (?step ex_state)"
    using 1(1-4) ex_state_fields(5,6) by (simp_all add: sendWelcome_def wsSend_def Let_def del: One_nat_def)
  show "\<exists>now e snap. (0, MsgWelcome ex_id (WORLD CONFIG) now (e_seed ex_env)) \<in> set (outbox ex_answered) \<and>
    (wc_ws (heap ex_state ! 0), MsgEvent e) \<in> set (outbox ex_answered) \<and> ev_of e = EvJoin snap \<and> ps_id snap = ex_id \<and>
    ps_name snap = JStr (jslit ''Ann'')"
  proof -
    obtain rest where r: "tasks (?step (?step ex_state)) = TSend 0 ?w KDone # rest" using 2(1) by blast
    then have "set (outbox ex_answered) = insert (0, ?w) (set (outbox (?step ex_state)))"
      using 2(3) unfolding ex_answered_def by simp
    then show ?thesis using 1(5) t(2-4) by blast
  qed
  have r1: "reach (wstep ex_env) (initWorld ex_env) (?step ex_state)"
    by (rule reach_step [OF ex_state_reach wstep_exec]) (rule ex_state_fields)
  have r2: "reach (wstep ex_env) (initWorld ex_env) (?step (?step ex_state))"
    by (rule reach_step [OF r1 wstep_exec]) (rule 1(2))
  show "reach (wstep ex_env) (initWorld ex_env) ex_answered"
    unfolding ex_answered_def by (rule reach_step [OF r2 wstep_exec]) (rule 2(2))
qed

lemma ex_answered_served:
  "\<exists>now e snap. served ex_env (MsgWelcome ex_id (WORLD CONFIG) now (e_seed ex_env)) \<and> served ex_env (MsgEvent e) \<and>
    ev_of e = EvJoin snap \<and> ps_id snap = ex_id \<and> ps_name snap = JStr (jslit ''Ann'')"
  using ex_answered_sent ex_answered_reach unfolding served_def by blast

text \<open>A page that gets the welcome and the join event of its own player and then draws a frame.\<close>

lemma ex_page_reports:
  "\<exists>s p rotY vel crouch ping. page_reach ex_browser (served ex_env) s \<and> CState p rotY vel crouch ping \<in> set (cl_sent s)"
proof -
  obtain now e snap where m: "served ex_env (MsgWelcome ex_id (WORLD CONFIG) now (e_seed ex_env))" "served ex_env (MsgEvent e)"
      "ev_of e = EvJoin snap" "ps_id snap = ex_id" "ps_name snap = JStr (jslit ''Ann'')"
    using ex_answered_served by blast
  define a where "a = pageStep ex_browser (PeMsg 0 0 (MsgWelcome ex_id (WORLD CONFIG) now (e_seed ex_env))) joinedPage"
  define b where "b = pageStep ex_browser (PeMsg 0 0 (MsgEvent e)) a"
  have j: "cl_localPlayer joinedPage = None" "nm_pendingSnapshot (cl_net joinedPage) = None"
    by (simp_all add: page_eval)
  have a: "cl_localPlayerId a = Some ex_id" "cl_localPlayer a = None" "cl_net a = cl_net joinedPage"
    unfolding a_def by (simp_all add: handleServerMsg_def onWelcome_def ensureEnvironment_def j Let_def)
  obtain pm where pm: "newPlayerModel (br_platform ex_browser) (of_int (cl_worldSeed a)) (ps_id snap) (ps_pos snap) (ps_name snap) False = Inr pm"
    using newPlayerModel_plain [of "ps_name snap" "br_platform ex_browser"] m(5) by (metis plainName_def jsval.distinct jsval.inject)
  have id: "ex_id \<noteq> []" by (simp add: ex_id_def ex_env_def)
  have b: "cl_localPlayer b \<noteq> None" "cl_net b = cl_net joinedPage"
    unfolding b_def message_fields using a pm id m(3,4)
    by (simp_all add: handleServerMsg_def applyEvent_def noLocalId_def createLocalPlayer_def Let_def)
  have "page_reach ex_browser (served ex_env) a"
    unfolding a_def by (rule page_reach.step [OF joinedPage_reach]) (use joinedPage_open m(1) in simp_all)
  then have "page_reach ex_browser (served ex_env) b"
    unfolding b_def by (rule page_reach.step) (use joinedPage_open(1) a(3) m(2) in \<open>simp_all add: wsIsOpen_def\<close>)
  then have "page_reach ex_browser (served ex_env) (pageStep ex_browser (PeFrame 1 0 0 5000) b)"
    by (rule page_reach.step) simp_all
  moreover have "wsIsOpen b" "nm_lastStateSend (cl_net b) + 1000 \<le> 5000"
    using b(2) joinedPage_open(1) by (simp_all add: wsIsOpen_def) (simp add: page_eval)
  ultimately show ?thesis using b(1) animate_sends [of b _ 5000 ex_browser 1 0 0] by fastforce
qed

theorem reports_accepted_by_server_witness:
  "\<exists>s p rotY vel crouch ping. page_reach ex_browser (served ex_env) s \<and> CState p rotY vel crouch ping \<in> set (cl_sent s) \<and>
     (outsideMap p \<longleftrightarrow> 5000 < \<bar>vy p\<bar>)"
proof -
  have t: "three_vectors (br_three ex_browser)" "three_clamp (br_three ex_browser)"
    using ex_three_ok by (simp_all add: ex_browser_def)
  obtain s p rotY vel crouch ping where r: "page_reach ex_browser (served ex_env) s"
      "CState p rotY vel crouch ping \<in> set (cl_sent s)"
    using ex_page_reports by blast
  from reports_accepted_by_server [OF ex_env_ok t r] r show ?thesis by blast
qed

section \<open>The player tables of server and client\<close>


text \<open>Only bots are listed at the start.\<close>

lemma initBot_listed:
  fixes s :: world
  assumes "map_all (\<lambda>_ p. plainName (ps_name p)) (playersCache s)"
  shows "map_all (\<lambda>_ p. plainName (ps_name p)) (playersCache (initBot E x s)) \<and>
    (map_has (playersCache (initBot E x s)) k \<longleftrightarrow> k = fst x \<or> map_has (playersCache s) k)"
proof -
  obtain p t where p: "getRandomSpawnPos E s = (p, t)" by (metis surj_pair)
  then have "drawn s t" using spawnPos_drawn [of s E] by simp
  then have "playersCache t = playersCache s" by (auto simp: drawn_def)
  then show ?thesis
    using assms by (cases x) (auto simp: initBot_def p math_random_def date_now_def plainName_def intro!: map_all_set)
qed

lemma initBots_listed:
  fixes s :: world
  assumes "map_all (\<lambda>_ p. plainName (ps_name p)) (playersCache s)"
  shows "map_all (\<lambda>_ p. plainName (ps_name p)) (playersCache (fold (initBot E) xs s)) \<and>
    (map_has (playersCache (fold (initBot E) xs s)) k \<longleftrightarrow> k \<in> fst ` set xs \<or> map_has (playersCache s) k)"
  using assms
proof (induction xs arbitrary: s)
  case (Cons x xs)
  from initBot_listed [OF Cons.prems, of E x k] Cons.IH [of "initBot E x s"] show ?case by auto
qed simp

lemma initWorld_listed:
  "list_all (\<lambda>p. plainName (ps_name p)) (map_values (playersCache (initWorld E)))"
  "map_has (playersCache (initWorld E)) (jslit ''bot-0'')"
proof -
  have "map_all (\<lambda>_ p. plainName (ps_name p)) (playersCache emptyWorld)" "playersCache emptyWorld = []"
    by (simp_all add: emptyWorld_def)
  note l = initBots_listed [OF this(1), of E "zip BOT_IDS BOT_NAMES" "jslit ''bot-0''"]
  show "list_all (\<lambda>p. plainName (ps_name p)) (map_values (playersCache (initWorld E)))"
    using l by (auto simp: initWorld_def initBots_def list_all_iff dest: map_all_valuesD)
  show "map_has (playersCache (initWorld E)) (jslit ''bot-0'')"
    using l by (simp add: initWorld_def initBots_def BOT_IDS_def BOT_NAMES_def)
qed


section \<open>Angles\<close>

text \<open>A report from the middle of the map with an angle.\<close>

definition angleReport :: "real \<Rightarrow> jsval" where
  "angleReport r = JObj [(jslit ''pos'', JObj [(jslit ''x'', JNum (JFin 0)), (jslit ''y'', JNum (JFin 0)), (jslit ''z'', JNum (JFin 0))]),
     (jslit ''rotY'', JNum (JFin r))]"

lemma angleReport_valid: "validState (angleReport r)" "numOf (getp (angleReport r) ''rotY'') = r"
  by (simp_all add: validState_def angleReport_def isFiniteVec3_def outsideMap_def vecOf_def cfg_simps jslit_def)



end
